(* ===== verification/Go_Strings.thy ===== *)
theory Go_Strings
  imports
    Main
    "HOL-Library.Sublist"
    "HOL-Library.List_Lexorder"
    "HOL-Library.Char_ord"
begin

text \<open>
  The operations of Go's package \<open>strings\<close> (and \<open>strconv.Itoa\<close> and the verb \<open>%d\<close>) that the program
  calls. A Go string is a sequence of bytes, so it is a \<^typ>\<open>string\<close>: every \<^typ>\<open>char\<close> is one
  byte, and comparison with \<open><\<close> is the bytewise lexicographic order of
  \<open>HOL-Library.List_Lexorder\<close>.

  White space is the Unicode white space of \<open>unicode.IsSpace\<close>, given by its UTF-8 encodings. Case
  mapping is exact on ASCII; what \<open>strings.ToLower\<close>, \<open>strings.ToUpper\<close> and \<open>strings.EqualFold\<close> do
  on a string with a byte above 127 is read from the Unicode tables, which are the argument
  \<open>unicode\<close> of the three functions.
\<close>

named_theorems go_string \<open>simplification rules for the string operations\<close>

subsection \<open>White space\<close>

definition ws_runes :: "string list" where
  "ws_runes =
    [[CHR 0x09], [CHR 0x0A], [CHR 0x0B], [CHR 0x0C], [CHR 0x0D], [CHR 0x20],
     [CHR 0xC2, CHR 0x85], [CHR 0xC2, CHR 0xA0], [CHR 0xE1, CHR 0x9A, CHR 0x80],
     [CHR 0xE2, CHR 0x80, CHR 0x80], [CHR 0xE2, CHR 0x80, CHR 0x81],
     [CHR 0xE2, CHR 0x80, CHR 0x82], [CHR 0xE2, CHR 0x80, CHR 0x83],
     [CHR 0xE2, CHR 0x80, CHR 0x84], [CHR 0xE2, CHR 0x80, CHR 0x85],
     [CHR 0xE2, CHR 0x80, CHR 0x86], [CHR 0xE2, CHR 0x80, CHR 0x87],
     [CHR 0xE2, CHR 0x80, CHR 0x88], [CHR 0xE2, CHR 0x80, CHR 0x89],
     [CHR 0xE2, CHR 0x80, CHR 0x8A], [CHR 0xE2, CHR 0x80, CHR 0xA8],
     [CHR 0xE2, CHR 0x80, CHR 0xA9], [CHR 0xE2, CHR 0x80, CHR 0xAF],
     [CHR 0xE2, CHR 0x81, CHR 0x9F], [CHR 0xE3, CHR 0x80, CHR 0x80]]"

function trim_left :: "string list \<Rightarrow> string \<Rightarrow> string" where
  "trim_left ws s =
     (case find (\<lambda>w. w \<noteq> [] \<and> prefix w s) ws of
        None \<Rightarrow> s
      | Some w \<Rightarrow> trim_left ws (drop (length w) s))"
  by pat_completeness auto
termination
  by (relation "measure (\<lambda>(ws, s). length s)") (auto simp: find_Some_iff prefix_def)

declare trim_left.simps [simp del]

definition TrimSpace :: "string \<Rightarrow> string" where
  "TrimSpace s = rev (trim_left (map rev ws_runes) (rev (trim_left ws_runes s)))"

subsection \<open>Case\<close>

record unicode =
  uToLower :: "string \<Rightarrow> string"
  uToUpper :: "string \<Rightarrow> string"
  uEqualFold :: "string \<Rightarrow> string \<Rightarrow> bool"

abbreviation byte :: "char \<Rightarrow> nat" where
  "byte c \<equiv> of_char c"

definition is_ascii :: "char \<Rightarrow> bool" where
  "is_ascii c \<longleftrightarrow> byte c < 128"

definition ascii_lower :: "char \<Rightarrow> char" where
  "ascii_lower c =
     (if 65 \<le> byte c \<and> byte c \<le> 90 then char_of (byte c + 32) else c)"

definition ascii_upper :: "char \<Rightarrow> char" where
  "ascii_upper c =
     (if 97 \<le> byte c \<and> byte c \<le> 122 then char_of (byte c - 32) else c)"

definition ToLower :: "unicode \<Rightarrow> string \<Rightarrow> string" where
  "ToLower U s = (if list_all is_ascii s then map ascii_lower s else uToLower U s)"

definition ToUpper :: "unicode \<Rightarrow> string \<Rightarrow> string" where
  "ToUpper U s = (if list_all is_ascii s then map ascii_upper s else uToUpper U s)"

fun EqualFold :: "unicode \<Rightarrow> string \<Rightarrow> string \<Rightarrow> bool" where
  "EqualFold U (a # s) (b # t) =
     (if \<not> (is_ascii a \<and> is_ascii b) then uEqualFold U (a # s) (b # t)
      else ascii_lower a = ascii_lower b \<and> EqualFold U s t)"
| "EqualFold U s t = (s = [] \<and> t = [])"

subsection \<open>Searching and splitting\<close>

definition HasPrefix :: "string \<Rightarrow> string \<Rightarrow> bool" where
  "HasPrefix s p = prefix p s"

fun Index :: "string \<Rightarrow> string \<Rightarrow> nat option" where
  "Index [] sub = (if sub = [] then Some 0 else None)"
| "Index (c # s) sub =
     (if prefix sub (c # s) then Some 0 else map_option Suc (Index s sub))"

definition Contains :: "string \<Rightarrow> string \<Rightarrow> bool" where
  "Contains s sub \<longleftrightarrow> Index s sub \<noteq> None"

definition Cut :: "string \<Rightarrow> string \<Rightarrow> string \<times> string \<times> bool" where
  "Cut s sep =
     (case Index s sep of
        None \<Rightarrow> (s, [], False)
      | Some i \<Rightarrow> (take i s, drop (i + length sep) s, True))"

definition SplitN2 :: "string \<Rightarrow> string \<Rightarrow> string list" where
  "SplitN2 s sep =
     (case Index s sep of
        None \<Rightarrow> [s]
      | Some i \<Rightarrow> [take i s, drop (i + length sep) s])"

fun Split :: "string \<Rightarrow> char \<Rightarrow> string list" where
  "Split [] sep = [[]]"
| "Split (c # s) sep =
     (if c = sep then [] # Split s sep
      else (case Split s sep of [] \<Rightarrow> [[c]] | p # ps \<Rightarrow> (c # p) # ps))"

definition TrimRight :: "string \<Rightarrow> char \<Rightarrow> string" where
  "TrimRight s c = rev (dropWhile (\<lambda>x. x = c) (rev s))"

definition TrimPrefix :: "string \<Rightarrow> string \<Rightarrow> string" where
  "TrimPrefix s p = (if prefix p s then drop (length p) s else s)"

definition TrimSuffix :: "string \<Rightarrow> string \<Rightarrow> string" where
  "TrimSuffix s p = (if suffix p s then take (length s - length p) s else s)"

subsection \<open>Decimal numerals\<close>

definition digit :: "nat \<Rightarrow> char" where
  "digit n = char_of (48 + n)"

fun dec_nat :: "nat \<Rightarrow> string" where
  "dec_nat n = (if n < 10 then [digit n] else dec_nat (n div 10) @ [digit (n mod 10)])"

declare dec_nat.simps [simp del]

definition Itoa :: "int \<Rightarrow> string" where
  "Itoa i = (if i < 0 then CHR ''-'' # dec_nat (nat (- i)) else dec_nat (nat i))"

subsection \<open>Lemmas on trimming\<close>

lemma trim_left_Nil [simp]: "trim_left ws [] = []"
  by (subst trim_left.simps) (auto simp: find_Some_iff split: option.split)

lemma trim_left_fixed:
  "(\<And>w. w \<in> set ws \<Longrightarrow> w \<noteq> [] \<Longrightarrow> \<not> prefix w s) \<Longrightarrow> trim_left ws s = s"
proof -
  assume "\<And>w. w \<in> set ws \<Longrightarrow> w \<noteq> [] \<Longrightarrow> \<not> prefix w s"
  then have "find (\<lambda>w. w \<noteq> [] \<and> prefix w s) ws = None" by (auto simp: find_None_iff)
  then show ?thesis by (subst trim_left.simps) simp
qed

lemma trim_left_no_prefix: "w \<in> set ws \<Longrightarrow> w \<noteq> [] \<Longrightarrow> \<not> prefix w (trim_left ws s)"
proof (induction ws s rule: trim_left.induct)
  case (1 ws s)
  show ?case
  proof (cases "find (\<lambda>w. w \<noteq> [] \<and> prefix w s) ws")
    case None
    with "1.prems" have "\<not> prefix w s" by (auto simp: find_None_iff)
    with None show ?thesis by (simp add: trim_left.simps [of ws s])
  next
    case (Some v)
    with "1.IH" "1.prems" show ?thesis by (simp add: trim_left.simps [of ws s])
  qed
qed

lemma trim_left_suffix: "suffix (trim_left ws s) s"
proof (induction ws s rule: trim_left.induct)
  case (1 ws s)
  show ?case
  proof (cases "find (\<lambda>w. w \<noteq> [] \<and> prefix w s) ws")
    case None
    then show ?thesis by (simp add: trim_left.simps [of ws s])
  next
    case (Some v)
    with "1.IH" have "suffix (trim_left ws (drop (length v) s)) (drop (length v) s)" by simp
    then have "suffix (trim_left ws (drop (length v) s)) s"
      using suffix_drop suffix_order.trans by blast
    with Some show ?thesis by (simp add: trim_left.simps [of ws s])
  qed
qed

lemma trim_left_idem [simp]: "trim_left ws (trim_left ws s) = trim_left ws s"
  by (rule trim_left_fixed) (rule trim_left_no_prefix)

text \<open>
  Trimming twice is trimming once: cutting white space from the right leaves a prefix, and a
  prefix of a string that starts with no white space starts with none either.
\<close>

lemma TrimSpace_prefix_left: "prefix (TrimSpace s) (trim_left ws_runes s)"
  unfolding TrimSpace_def
  by (metis trim_left_suffix rev_rev_ident suffix_to_prefix)

lemma TrimSpace_no_left: "w \<in> set ws_runes \<Longrightarrow> w \<noteq> [] \<Longrightarrow> \<not> prefix w (TrimSpace s)"
  using TrimSpace_prefix_left [of s] trim_left_no_prefix [of w ws_runes s]
  by (meson prefix_order.trans)

lemma TrimSpace_Nil [simp]: "TrimSpace [] = []"
  by (simp add: TrimSpace_def)

lemma TrimSpace_idem [simp, go_string]: "TrimSpace (TrimSpace s) = TrimSpace s"
proof -
  have "trim_left ws_runes (TrimSpace s) = TrimSpace s"
    by (rule trim_left_fixed) (rule TrimSpace_no_left)
  then show ?thesis by (simp add: TrimSpace_def)
qed

lemma TrimSpace_sublist: "sublist (TrimSpace s) s"
  using TrimSpace_prefix_left trim_left_suffix
  by (meson prefix_imp_sublist suffix_imp_sublist sublist_order.order.trans)

text \<open>A string that begins and ends with a visible ASCII character is its own trimmed form.\<close>

definition visible :: "char \<Rightarrow> bool" where
  "visible c \<longleftrightarrow> 32 < byte c \<and> byte c < 128"

lemma ws_runes_not_visible:
  "w \<in> set ws_runes \<Longrightarrow> w \<noteq> [] \<and> \<not> visible (hd w) \<and> \<not> visible (last w)"
  by (auto simp: ws_runes_def visible_def)

lemma TrimSpace_visible [go_string]:
  assumes "s \<noteq> []" and "visible (hd s)" and "visible (last s)"
  shows "TrimSpace s = s"
proof -
  have left: "trim_left ws_runes s = s"
  proof (rule trim_left_fixed)
    fix w assume "w \<in> set ws_runes"
    then show "\<not> prefix w s"
      using ws_runes_not_visible [of w] assms by (auto simp: prefix_def)
  qed
  have "trim_left (map rev ws_runes) (rev s) = rev s"
  proof (rule trim_left_fixed)
    fix w assume "w \<in> set (map rev ws_runes)"
    then obtain v where v: "v \<in> set ws_runes" "w = rev v" by auto
    show "\<not> prefix w (rev s)"
    proof
      assume "prefix w (rev s)"
      with v have "suffix v s" by (simp add: suffix_to_prefix)
      then obtain t where "s = t @ v" by (auto simp: suffix_def)
      then show False using ws_runes_not_visible [OF v(1)] assms by simp
    qed
  qed
  with left show ?thesis by (simp add: TrimSpace_def)
qed

subsection \<open>Lemmas on searching and splitting\<close>

lemma Index_Some_take: "Index s sub = Some i \<Longrightarrow> s = take i s @ sub @ drop (i + length sub) s"
proof (induction s sub arbitrary: i rule: Index.induct)
  case (1 sub)
  then show ?case by (auto split: if_splits)
next
  case (2 c s sub)
  show ?case
  proof (cases "prefix sub (c # s)")
    case True
    with "2.prems" show ?thesis by (auto simp: prefix_def)
  next
    case False
    with "2.prems" obtain j where "i = Suc j" "Index s sub = Some j" by auto
    with "2.IH" False show ?thesis by simp
  qed
qed

lemma Index_le_length: "Index s sub = Some i \<Longrightarrow> i \<le> length s"
  by (induction s sub arbitrary: i rule: Index.induct) (auto split: if_splits)

lemma Index_append_avoid:
  assumes "\<And>u v. p @ butlast sub \<noteq> u @ sub @ v" and "sub \<noteq> []"
  shows "Index (p @ sub @ r) sub = Some (length p)"
  using assms(1)
proof (induction p)
  case Nil
  from assms(2) obtain a l where "sub @ r = a # l" by (cases "sub @ r") auto
  then show ?case by simp (metis prefixI)
next
  case (Cons c p)
  have no: "\<not> prefix sub (c # p @ sub @ r)"
  proof
    assume pre: "prefix sub (c # p @ sub @ r)"
    have "prefix sub (c # p @ butlast sub)"
    proof (rule prefix_length_prefix [OF pre])
      show "prefix (c # p @ butlast sub) (c # p @ sub @ r)"
        using append_butlast_last_id [OF assms(2)] by (metis append_assoc prefixI Cons_prefix_Cons same_prefix_prefix)
      show "length sub \<le> length (c # p @ butlast sub)" by simp
    qed
    then obtain v where "c # p @ butlast sub = sub @ v" by (auto simp: prefix_def)
    with Cons.prems [of "[]" v] show False by simp
  qed
  have "\<And>u v. p @ butlast sub \<noteq> u @ sub @ v"
  proof
    fix u v assume "p @ butlast sub = u @ sub @ v"
    with Cons.prems [of "c # u" v] show False by simp
  qed
  with Cons.IH no show ?case by simp
qed

lemma Index_None_iff: "Index s sub = None \<longleftrightarrow> (\<forall>u v. s \<noteq> u @ sub @ v)"
proof
  assume "Index s sub = None"
  then show "\<forall>u v. s \<noteq> u @ sub @ v"
  proof (induction s sub rule: Index.induct)
    case (2 c s sub)
    then have pre: "\<not> prefix sub (c # s)" and rec: "\<forall>u v. s \<noteq> u @ sub @ v"
      by (auto split: if_splits)
    show ?case
    proof (intro allI notI)
      fix u v assume "c # s = u @ sub @ v"
      with pre rec show False by (cases u) (auto simp: prefix_def)
    qed
  qed (auto split: if_splits)
next
  assume no: "\<forall>u v. s \<noteq> u @ sub @ v"
  show "Index s sub = None"
  proof (cases "Index s sub")
    case (Some i)
    then show ?thesis using Index_Some_take no by blast
  qed
qed

lemma Contains_iff: "Contains s sub \<longleftrightarrow> (\<exists>u v. s = u @ sub @ v)"
  using Index_None_iff [of s sub] by (auto simp: Contains_def)

lemma Index_char: "c \<notin> set p \<Longrightarrow> Index (p @ c # r) [c] = Some (length p)"
  by (induction p) auto

lemma Index_char_None: "Index s [c] = None \<longleftrightarrow> c \<notin> set s"
  by (induction s) auto

lemma Split_ne [simp]: "Split s c \<noteq> []"
  by (induction s) (auto split: list.split)

lemma Split_no_sep: "c \<notin> set s \<Longrightarrow> Split s c = [s]"
  by (induction s) auto

lemma Split_append_sep: "c \<notin> set p \<Longrightarrow> Split (p @ c # r) c = p # Split r c"
  by (induction p) auto

lemma Split_parts_no_sep: "p \<in> set (Split s c) \<Longrightarrow> c \<notin> set p"
  by (induction s arbitrary: p) (auto split: list.splits if_splits)

fun join_with :: "char \<Rightarrow> string list \<Rightarrow> string" where
  "join_with c [] = []"
| "join_with c [p] = p"
| "join_with c (p # q # ps) = p @ c # join_with c (q # ps)"

lemma join_Split [simp]: "join_with c (Split s c) = s"
proof (induction s)
  case (Cons a s)
  then show ?case
    by (cases "Split s c"; cases "tl (Split s c)") (auto split: if_splits)
qed simp

lemma Split_join:
  "ps \<noteq> [] \<Longrightarrow> (\<forall>p \<in> set ps. c \<notin> set p) \<Longrightarrow> Split (join_with c ps) c = ps"
  by (induction c ps rule: join_with.induct) (auto simp: Split_no_sep Split_append_sep)

lemma map_ascii_lower_EqualFold:
  "list_all is_ascii s \<Longrightarrow> list_all is_ascii t \<Longrightarrow>
     EqualFold U s t \<longleftrightarrow> ToLower U s = ToLower U t"
proof (induction U s t rule: EqualFold.induct)
  case (1 U a s b t)
  then show ?case by (auto simp: ToLower_def)
qed (auto simp: ToLower_def)

lemma EqualFold_refl_ascii: "list_all is_ascii s \<Longrightarrow> EqualFold U s s"
  by (simp add: map_ascii_lower_EqualFold)

end
