(* ===== verification/Go_Runtime.thy ===== *)
theory Go_Runtime
  imports
    Go_Strings
    "HOL-Library.AList"
    "HOL-Library.Multiset"
    "HOL-Library.Word"
begin

text \<open>
  What the program uses of the Go language and runtime besides strings: machine integers, maps
  with their unspecified iteration order, stable sorting with a comparison function, and the
  dynamically typed values (\<open>any\<close>) that come out of JSON and of unstructured Kubernetes objects.
\<close>

named_theorems go_map \<open>simplification rules for maps\<close>

subsection \<open>Integers\<close>

text \<open>\<open>int\<close> is 64 bits wide on the platforms the image is built for; \<open>int32\<close> counts and ports.\<close>

type_synonym goint = "64 word"
type_synonym int32 = "32 word"
type_synonym uint16 = "16 word"

subsection \<open>Maps\<close>

text \<open>
  A Go map is an association list without repeated keys. The list order carries no meaning: a
  \<open>range\<close> statement visits the keys in an order the language leaves open, which may differ from one
  statement to the next and from one execution of a statement to the next. The order is an argument
  \<open>ch\<close> of the definitions that range over a map: \<open>ch p ks\<close> is the order in which the execution at
  position \<open>p\<close> visits the keys \<open>ks\<close>, where a position is the path of calls and loop rounds that leads
  to it (\<open>ord_at\<close> goes one level down).
\<close>

type_synonym ('k, 'v) gomap = "('k \<times> 'v) list"

type_synonym 'k order = "nat list \<Rightarrow> 'k list \<Rightarrow> 'k list"

definition ord_at :: "'k order \<Rightarrow> nat \<Rightarrow> 'k order" where
  "ord_at ch n = (\<lambda>p. ch (n # p))"

definition range_order :: "'k order \<Rightarrow> bool" where
  "range_order ch \<longleftrightarrow> (\<forall>p ks. mset (ch p ks) = mset ks)"

definition gm_keys :: "('k, 'v) gomap \<Rightarrow> 'k list" where
  "gm_keys m = map fst m"

definition gm_has :: "('k, 'v) gomap \<Rightarrow> 'k \<Rightarrow> bool" where
  "gm_has m k \<longleftrightarrow> map_of m k \<noteq> None"

definition gm_set :: "('k, 'v) gomap \<Rightarrow> 'k \<Rightarrow> 'v \<Rightarrow> ('k, 'v) gomap" where
  "gm_set m k v = AList.update k v m"

definition gm_delete :: "('k, 'v) gomap \<Rightarrow> 'k \<Rightarrow> ('k, 'v) gomap" where
  "gm_delete m k = AList.delete k m"

text \<open>Reading a missing key gives the zero value: the empty slice, the empty string.\<close>

definition gm_list :: "('k, 'v list) gomap \<Rightarrow> 'k \<Rightarrow> 'v list" where
  "gm_list m k = (case map_of m k of None \<Rightarrow> [] | Some vs \<Rightarrow> vs)"

definition gm_string :: "('k, string) gomap \<Rightarrow> 'k \<Rightarrow> string" where
  "gm_string m k = (case map_of m k of None \<Rightarrow> [] | Some v \<Rightarrow> v)"

definition gm_bool :: "('k, bool) gomap \<Rightarrow> 'k \<Rightarrow> bool" where
  "gm_bool m k = (case map_of m k of None \<Rightarrow> False | Some v \<Rightarrow> v)"

text \<open>\<open>m[k] = append(m[k], v)\<close>\<close>

definition gm_append :: "('k, 'v list) gomap \<Rightarrow> 'k \<Rightarrow> 'v \<Rightarrow> ('k, 'v list) gomap" where
  "gm_append m k v = gm_set m k (gm_list m k @ [v])"

definition gm_range :: "'k order \<Rightarrow> ('k, 'v) gomap \<Rightarrow> ('k \<times> 'v) list" where
  "gm_range ch m =
     List.map_filter (\<lambda>k. map_option (Pair k) (map_of m k)) (ch [] (gm_keys m))"

definition gm_wf :: "('k, 'v) gomap \<Rightarrow> bool" where
  "gm_wf m = distinct (gm_keys m)"

subsection \<open>Stable sorting\<close>

text \<open>
  \<open>sort.SliceStable\<close> and \<open>slices.SortStableFunc\<close>: \<open>sift\<close> carries an element from the right end of the
  sorted part towards the left while it is smaller than its neighbour (the list is the sorted part
  read from the right), which is the insertion sort the library runs on blocks of up to 20
  elements. For a comparison that is a strict weak order the result is the one sorted permutation
  that keeps equal elements in order, whatever the algorithm: \<open>stable_sort_unique\<close> below.
\<close>

fun sift :: "('a \<Rightarrow> 'a \<Rightarrow> bool) \<Rightarrow> 'a \<Rightarrow> 'a list \<Rightarrow> 'a list" where
  "sift lt x [] = [x]"
| "sift lt x (y # ys) = (if lt x y then y # sift lt x ys else x # y # ys)"

definition stable_sort :: "('a \<Rightarrow> 'a \<Rightarrow> bool) \<Rightarrow> 'a list \<Rightarrow> 'a list" where
  "stable_sort lt xs = rev (fold (sift lt) xs [])"

subsection \<open>Values of type any\<close>

text \<open>
  \<open>AStrs\<close> is a \<open>[]string\<close>, which only Go code builds; a decoded document has \<open>AList\<close> where a sequence
  stands. Numbers are kept as their literal: the program never computes with them.
\<close>

datatype any =
    ANil
  | ABool bool
  | ANumber string
  | AString string
  | AStrs "string list"
  | AList "any list"
  | AMap "(string \<times> any) list"

subsection \<open>Lemmas on maps\<close>

lemma map_of_gm_set [simp, go_map]: "map_of (gm_set m k v) = (map_of m)(k \<mapsto> v)"
  by (simp add: gm_set_def update_conv')

lemma map_of_gm_delete [simp, go_map]: "map_of (gm_delete m k) = (map_of m)(k := None)"
  by (simp add: gm_delete_def delete_conv')

lemma gm_wf_Nil [simp]: "gm_wf []"
  by (simp add: gm_wf_def gm_keys_def)

lemma gm_wf_set [simp, intro]: "gm_wf m \<Longrightarrow> gm_wf (gm_set m k v)"
  by (simp add: gm_wf_def gm_keys_def gm_set_def distinct_update)

lemma gm_wf_delete [simp, intro]: "gm_wf m \<Longrightarrow> gm_wf (gm_delete m k)"
  by (simp add: gm_wf_def gm_keys_def gm_delete_def distinct_delete)

lemma gm_wf_append [simp, intro]: "gm_wf m \<Longrightarrow> gm_wf (gm_append m k v)"
  by (simp add: gm_append_def)

lemma set_gm_keys: "set (gm_keys m) = dom (map_of m)"
  by (simp add: gm_keys_def dom_map_of_conv_image_fst)

lemma gm_has_iff: "gm_has m k \<longleftrightarrow> k \<in> set (gm_keys m)"
  by (auto simp: gm_has_def set_gm_keys)

lemma gm_has_Nil [simp]: "\<not> gm_has [] k"
  by (simp add: gm_has_def)

lemma gm_has_set [simp]: "gm_has (gm_set m k v) k' \<longleftrightarrow> k' = k \<or> gm_has m k'"
  by (simp add: gm_has_def)

lemma gm_has_append [simp]: "gm_has (gm_append m k v) k' \<longleftrightarrow> k' = k \<or> gm_has m k'"
  by (simp add: gm_append_def)

lemma gm_list_Nil [simp]: "gm_list [] k = []"
  by (simp add: gm_list_def)

lemma gm_list_set: "gm_list (gm_set m k v) k' = (if k' = k then v else gm_list m k')"
  by (simp add: gm_list_def)

lemma gm_list_append:
  "gm_list (gm_append m k v) k' = gm_list m k' @ (if k' = k then [v] else [])"
  by (simp add: gm_append_def gm_list_set)

lemma gm_list_not_has: "\<not> gm_has m k \<Longrightarrow> gm_list m k = []"
  by (simp add: gm_list_def gm_has_def split: option.split)

subsection \<open>Lemmas on range statements\<close>

lemma range_orderD [simp]: "range_order ch \<Longrightarrow> mset (ch p ks) = mset ks"
  by (simp add: range_order_def)

lemma range_order_at [simp, intro]: "range_order ch \<Longrightarrow> range_order (ord_at ch n)"
  by (simp add: range_order_def ord_at_def)

lemma range_order_id [simp]: "range_order (\<lambda>p ks. ks)"
  by (simp add: range_order_def)

lemma range_order_set: "range_order ch \<Longrightarrow> set (ch p ks) = set ks"
  using mset_eq_setD range_orderD by blast

lemma map_filter_eqI:
  "(\<And>x. x \<in> set xs \<Longrightarrow> f x = g x) \<Longrightarrow> List.map_filter f xs = List.map_filter g xs"
  by (induction xs) (auto split: option.split)

lemma set_map_filter_iff: "y \<in> set (List.map_filter f xs) \<longleftrightarrow> (\<exists>x \<in> set xs. f x = Some y)"
  by (induction xs) (auto split: option.split)

lemma map_filter_map_of:
  "distinct (map fst m) \<Longrightarrow>
     List.map_filter (\<lambda>k. map_option (Pair k) (map_of m k)) (map fst m) = m"
proof (induction m)
  case (Cons a m)
  have *: "List.map_filter (\<lambda>k. map_option (Pair k) (map_of (a # m) k)) (map fst m) =
      List.map_filter (\<lambda>k. map_option (Pair k) (map_of m k)) (map fst m)"
    using Cons.prems by (intro map_filter_eqI) (cases a, auto)
  with Cons show ?case by (cases a) simp
qed simp

lemma mset_map_filter: "mset xs = mset ys \<Longrightarrow> mset (List.map_filter f xs) = mset (List.map_filter f ys)"
  by (simp add: map_filter_def)

lemma mset_gm_range: "range_order ch \<Longrightarrow> gm_wf m \<Longrightarrow> mset (gm_range ch m) = mset m"
proof -
  assume "range_order ch" and wf: "gm_wf m"
  then have "mset (gm_range ch m) =
      mset (List.map_filter (\<lambda>k. map_option (Pair k) (map_of m k)) (gm_keys m))"
    unfolding gm_range_def by (intro mset_map_filter) simp
  also have "\<dots> = mset m"
    using wf map_filter_map_of [of m] by (simp add: gm_wf_def gm_keys_def)
  finally show ?thesis .
qed

lemma set_gm_range: "range_order ch \<Longrightarrow> gm_wf m \<Longrightarrow> set (gm_range ch m) = set m"
  using mset_gm_range mset_eq_setD by blast

lemma gm_range_map_of: "(k, v) \<in> set (gm_range ch m) \<Longrightarrow> map_of m k = Some v"
  by (auto simp: gm_range_def map_filter_def)

lemma map_of_gm_range:
  "range_order ch \<Longrightarrow> gm_wf m \<Longrightarrow> map_of (gm_range ch m) = map_of m"
  using mset_gm_range [of ch m] set_gm_range [of ch m]
  by (metis gm_keys_def gm_wf_def map_of_inject_set mset_eq_imp_distinct_iff mset_map)

subsection \<open>Lemmas on stable sorting\<close>

lemma mset_sift [simp]: "mset (sift lt x ys) = add_mset x (mset ys)"
  by (induction ys) auto

lemma mset_fold_sift: "mset (fold (sift lt) xs acc) = mset xs + mset acc"
  by (induction xs arbitrary: acc) auto

lemma mset_stable_sort [simp]: "mset (stable_sort lt xs) = mset xs"
  by (simp add: stable_sort_def mset_fold_sift)

lemma set_stable_sort [simp]: "set (stable_sort lt xs) = set xs"
  by (rule mset_eq_setD) simp

lemma length_stable_sort [simp]: "length (stable_sort lt xs) = length xs"
  by (rule mset_eq_length) simp

lemma stable_sort_Nil [simp]: "stable_sort lt [] = []"
  by (simp add: stable_sort_def)

lemma set_sift: "set (sift lt x ys) = insert x (set ys)"
  by (induction ys) auto

text \<open>
  The contract of a comparison function: on the elements that satisfy \<open>ok\<close> it compares a key from a
  linear order. Its clients sort with it and get the library's stable sort by that key.
\<close>

locale keyed_order =
  fixes ok :: "'a \<Rightarrow> bool"
    and lt :: "'a \<Rightarrow> 'a \<Rightarrow> bool"
    and key :: "'a \<Rightarrow> 'k :: linorder"
  assumes lt_key: "ok x \<Longrightarrow> ok y \<Longrightarrow> lt x y \<longleftrightarrow> key x < key y"
begin

lemma sift_sorted:
  "ok x \<Longrightarrow> list_all ok ys \<Longrightarrow> sorted_wrt (\<lambda>a b. key b \<le> key a) ys \<Longrightarrow>
     sorted_wrt (\<lambda>a b. key b \<le> key a) (sift lt x ys)"
  by (induction ys) (auto simp: lt_key set_sift list_all_iff not_less intro: order.trans)

lemma sift_filter:
  "ok x \<Longrightarrow> list_all ok ys \<Longrightarrow> sorted_wrt (\<lambda>a b. key b \<le> key a) ys \<Longrightarrow>
     filter (\<lambda>y. key y = k) (sift lt x ys) =
       (if key x = k then [x] else []) @ filter (\<lambda>y. key y = k) ys"
  by (induction ys) (auto simp: lt_key list_all_iff not_less)

lemma sift_ok: "ok x \<Longrightarrow> list_all ok ys \<Longrightarrow> list_all ok (sift lt x ys)"
  by (induction ys) auto

lemma fold_sift:
  "list_all ok xs \<Longrightarrow> list_all ok acc \<Longrightarrow> sorted_wrt (\<lambda>a b. key b \<le> key a) acc \<Longrightarrow>
     sorted_wrt (\<lambda>a b. key b \<le> key a) (fold (sift lt) xs acc) \<and>
     filter (\<lambda>y. key y = k) (fold (sift lt) xs acc) =
       rev (filter (\<lambda>y. key y = k) xs) @ filter (\<lambda>y. key y = k) acc"
proof (induction xs arbitrary: acc)
  case (Cons x xs)
  then have "ok x" by simp
  with Cons show ?case by (simp add: sift_sorted sift_ok sift_filter)
qed simp

lemma stable_sort_sorted:
  assumes "list_all ok xs"
  shows "sorted (map key (stable_sort lt xs))"
  using fold_sift [OF assms, of "[]"]
  by (simp add: stable_sort_def sorted_map sorted_wrt_rev)

lemma stable_sort_stable:
  assumes "list_all ok xs"
  shows "filter (\<lambda>y. key y = k) (stable_sort lt xs) = filter (\<lambda>y. key y = k) xs"
  using fold_sift [OF assms, of "[]" k]
  by (simp add: stable_sort_def flip: rev_filter)

lemma stable_sort_sort_key:
  assumes "list_all ok xs"
  shows "stable_sort lt xs = sort_key key xs"
proof (rule properties_for_sort_key [symmetric])
  show "mset (stable_sort lt xs) = mset xs" by simp
  show "filter (\<lambda>x. key k = key x) (stable_sort lt xs) = filter (\<lambda>x. key k = key x) xs" for k
    using stable_sort_stable [OF assms, of "key k"] by (simp add: eq_commute)
  show "sorted (map key (stable_sort lt xs))" by (rule stable_sort_sorted [OF assms])
qed

text \<open>Any stable sorting algorithm gives the same list.\<close>

lemma stable_sort_unique:
  assumes "list_all ok xs" and "mset ys = mset xs" and "sorted (map key ys)"
    and "\<And>k. filter (\<lambda>y. key y = k) ys = filter (\<lambda>y. key y = k) xs"
  shows "stable_sort lt xs = ys"
proof -
  have "sort_key key xs = ys"
  proof (rule properties_for_sort_key [OF assms(2) _ assms(3)])
    show "filter (\<lambda>x. key k = key x) ys = filter (\<lambda>x. key k = key x) xs" for k
      using assms(4) [of "key k"] by (simp add: eq_commute)
  qed
  then show ?thesis using stable_sort_sort_key [OF assms(1)] by simp
qed

text \<open>If all keys differ, the order of the input does not matter.\<close>

lemma stable_sort_mset_eq:
  assumes "list_all ok xs" and "mset ys = mset xs" and "inj_on key (set xs)"
  shows "stable_sort lt ys = stable_sort lt xs"
proof -
  from assms(1,2) have ok: "list_all ok ys"
    by (metis list_all_iff mset_eq_setD)
  have "sort_key key xs = sort_key key ys"
  proof (rule properties_for_sort_key)
    show "mset (sort_key key ys) = mset xs" by (simp add: assms(2))
    show "sorted (map key (sort_key key ys))" by simp
    fix k assume k: "k \<in> set (sort_key key ys)"
    then have kx: "k \<in> set xs" using assms(2) by (metis mset_eq_setD set_sort)
    have eq: "filter (\<lambda>x. key k = key x) zs = filter (\<lambda>x. x = k) zs" if "set zs = set xs" for zs
      using assms(3) kx that by (intro filter_cong) (auto dest: inj_onD)
    have cnt: "filter (\<lambda>x. x = k) zs = replicate (count (mset zs) k) k" for zs :: "'a list"
      by (induction zs) auto
    show "filter (\<lambda>x. key k = key x) (sort_key key ys) = filter (\<lambda>x. key k = key x) xs"
      using assms(2) by (simp add: eq cnt mset_eq_setD [OF assms(2)])
  qed
  then show ?thesis by (simp add: stable_sort_sort_key [OF ok] stable_sort_sort_key [OF assms(1)])
qed

end

end
