(* ===== verification/Api_Types.thy ===== *)
theory Api_Types
  imports Go_Runtime
begin

text \<open>
  The custom resources of the two API groups (\<open>api/dashboard/v1alpha1\<close> and
  \<open>api/forecastle/v1alpha1\<close>), the errors of the program, and the parts of foreign Kubernetes types
  that the program reads. A struct is a record with one field per Go field, a pointer is an
  \<open>option\<close>, a slice a list, a map a \<open>gomap\<close>. \<open>TypeMeta\<close> and \<open>ListMeta\<close>, which no code of the
  program looks at, are left out, and so is an object's metadata beyond namespace, name and
  annotations.
\<close>

subsection \<open>Errors\<close>

text \<open>
  An error of code outside the program is \<open>External\<close>; one that the program makes with
  \<open>errors.New\<close> or \<open>fmt.Errorf\<close> is its format string, the arguments that fill it and the error it
  wraps (the argument of \<open>%w\<close>).
\<close>

datatype error =
    External string
  | Errorf string "string list" "error option"

text \<open>Times are nanoseconds since the Unix epoch, durations nanoseconds.\<close>

type_synonym time = int
type_synonym duration = int

definition second :: duration where
  "second = 1000000000"

subsection \<open>Metadata and foreign types\<close>

record ObjectMeta =
  omNamespace :: string
  omName :: string
  omAnnotations :: "(string, string) gomap"

record Ingress =
  ingMeta :: ObjectMeta
  ingRuleHosts :: "string list"

record Service =
  svcMeta :: ObjectMeta
  svcPorts :: "int32 list"

record EndpointSlice =
  epsMeta :: ObjectMeta

text \<open>
  An unstructured object is what the accessors of \<open>apimachinery\<close> show of it: \<open>uStringSlice\<close>,
  \<open>uSlice\<close> and \<open>uString\<close> are \<open>NestedStringSlice\<close>, \<open>NestedSlice\<close> and \<open>NestedString\<close> on the object's
  content, for a path of field names. \<open>Inl\<close> is a value of the wrong type, \<open>Inr None\<close> a missing one.
\<close>

record Unstructured =
  uMeta :: ObjectMeta
  uStringSlice :: "string list \<Rightarrow> error + string list option"
  uSlice :: "string list \<Rightarrow> error + any list option"
  uString :: "string list \<Rightarrow> error + string option"

subsection \<open>Bookmarks\<close>

definition BookmarkLinkTargetSelf :: string where
  "BookmarkLinkTargetSelf = ''_self''"

definition BookmarkLinkTargetBlank :: string where
  "BookmarkLinkTargetBlank = ''_blank''"

definition BookmarkLinkTargetParent :: string where
  "BookmarkLinkTargetParent = ''_parent''"

definition BookmarkLinkTargetTop :: string where
  "BookmarkLinkTargetTop = ''_top''"

record LocalObjectReference =
  lorName :: string

record URLSource =
  usIngressRef :: "LocalObjectReference option"
  usRouteRef :: "LocalObjectReference option"
  usIngressRouteRef :: "LocalObjectReference option"
  usHTTPRouteRef :: "LocalObjectReference option"
  usGRPCRouteRef :: "LocalObjectReference option"
  usServiceRef :: "LocalObjectReference option"

record BookmarkSpec =
  bsGroup :: string
  bsName :: string
  bsURL :: string
  bsURLFrom :: "URLSource option"
  bsTarget :: string
  bsIcon :: string
  bsNetworkRestricted :: bool
  bsReplicate :: bool
  bsGroups :: "string list"
  bsProperties :: "(string, string) gomap"

record BookmarkStatus =
  bstURLReachable :: "bool option"
  bstLastURLCheckAt :: "time option"
  bstURLCheckError :: string
  bstLastSyncedAt :: "time option"
  bstConditions :: "any list"

record Bookmark =
  bmMeta :: ObjectMeta
  bmSpec :: BookmarkSpec
  bmStatus :: BookmarkStatus

record BookmarkGroupSpec =
  bgsName :: string
  bgsProperties :: "(string, string) gomap"
  bgsReplicate :: bool

record BookmarkGroupStatus =
  bgstBookmarkCount :: int32
  bgstLastSyncedAt :: "time option"
  bgstConditions :: "any list"

record BookmarkGroup =
  bgMeta :: ObjectMeta
  bgSpec :: BookmarkGroupSpec
  bgStatus :: BookmarkGroupStatus

subsection \<open>Info tiles\<close>

record InfoTileQueryParam =
  qpName :: string
  qpValue :: string

record InfoTileHeader =
  hdName :: string
  hdValue :: string

record InfoTileHTTPRequest =
  irMethod :: string
  irURL :: string
  irQueryParams :: "InfoTileQueryParam list"
  irHeaders :: "InfoTileHeader list"
  irBody :: string

record InfoTileSpec =
  isName :: string
  isGroup :: string
  isIcon :: string
  isURL :: string
  isTarget :: string
  isSource :: string
  isInterval :: "duration option"
  isReplicate :: bool
  isHTTPRequest :: "InfoTileHTTPRequest option"
  isProcessor :: string

record InfoTileStatus =
  istContent :: string
  istLastFetchedAt :: "time option"
  istLastError :: string

record InfoTile =
  itMeta :: ObjectMeta
  itSpec :: InfoTileSpec
  itStatus :: InfoTileStatus

subsection \<open>Forecastle apps\<close>

text \<open>\<open>api/forecastle/v1alpha1\<close> has its own \<open>LocalObjectReference\<close> with the same single field.\<close>

record ForecastleURLSource =
  fusIngressRef :: "LocalObjectReference option"
  fusRouteRef :: "LocalObjectReference option"
  fusIngressRouteRef :: "LocalObjectReference option"
  fusHTTPRouteRef :: "LocalObjectReference option"

record ForecastleAppSpec =
  fsName :: string
  fsInstance :: string
  fsGroup :: string
  fsIcon :: string
  fsURL :: string
  fsURLFrom :: "ForecastleURLSource option"
  fsNetworkRestricted :: bool
  fsGroups :: "string list"
  fsProperties :: "(string, string) gomap"

record ForecastleApp =
  faMeta :: ObjectMeta
  faSpec :: ForecastleAppSpec

subsection \<open>The Kubernetes client\<close>

text \<open>
  \<open>client.Reader\<close> of controller-runtime, as the answers it gives: \<open>List\<close> per type of list (with the
  label selector \<open>client.MatchingLabels\<close> where the program passes one) and \<open>Get\<close> per type of object
  (namespace, then name). \<open>rdIgnoreNotFound\<close> is the package's function \<open>client.IgnoreNotFound\<close>:
  \<open>None\<close> for an error it drops.
\<close>

type_synonym labels = "(string \<times> string) list"

record GroupVersion =
  gvGroup :: string
  gvVersion :: string

record GroupVersionKind =
  gvkGroup :: string
  gvkVersion :: string
  gvkKind :: string

record Reader =
  rdListBookmarkGroups :: "error + BookmarkGroup list"
  rdListBookmarks :: "error + Bookmark list"
  rdListInfoTiles :: "error + InfoTile list"
  rdListForecastleApps :: "error + ForecastleApp list"
  rdListIngresses :: "labels \<Rightarrow> error + Ingress list"
  rdListServices :: "labels \<Rightarrow> error + Service list"
  rdListEndpointSlices :: "labels \<Rightarrow> error + EndpointSlice list"
  rdListUnstructured :: "GroupVersionKind \<Rightarrow> labels \<Rightarrow> error + Unstructured list"
  rdGetIngress :: "string \<Rightarrow> string \<Rightarrow> error + Ingress"
  rdGetService :: "string \<Rightarrow> string \<Rightarrow> error + Service"
  rdGetUnstructured :: "GroupVersionKind \<Rightarrow> string \<Rightarrow> string \<Rightarrow> error + Unstructured"
  rdIgnoreNotFound :: "error \<Rightarrow> error option"

text \<open>
  \<open>ServerResourcesForGroupVersion\<close> of a discovery client, on the \<open>String()\<close> of a group version: the
  kinds of the API resources it lists.
\<close>

type_synonym Discovery = "GroupVersion \<Rightarrow> error + string list"

end
