(* ===== verification/Url_Resolver.thy ===== *)
theory Url_Resolver
  imports Api_Types
begin

text \<open>
  \<open>internal/webhook/dashboard/v1alpha1/url_resolver.go\<close>: from a reference to a Kubernetes object to
  a URL. Every \<open>resolve\<close> function is the Go function of that name; a loop that returns at the first
  non-blank host is \<open>find\<close>.
\<close>

definition not_blank :: "string \<Rightarrow> bool" where
  "not_blank s \<longleftrightarrow> TrimSpace s \<noteq> []"

definition resolveIngressURL :: "Reader \<Rightarrow> string \<Rightarrow> string \<Rightarrow> error + string" where
  "resolveIngressURL r namespace name =
     (case rdGetIngress r namespace name of
        Inl e \<Rightarrow> Inl (Errorf ''ingressRef %q: %w'' [name] (Some e))
      | Inr ingress \<Rightarrow>
          (case find not_blank (ingRuleHosts ingress) of
             Some host \<Rightarrow> Inr (''https://'' @ host)
           | None \<Rightarrow> Inl (Errorf ''ingressRef %q has no host rules'' [name] None)))"

definition resolveHTTPRouteURL :: "Reader \<Rightarrow> string \<Rightarrow> string \<Rightarrow> error + string" where
  "resolveHTTPRouteURL r namespace name =
     (case rdGetUnstructured r
             \<lparr>gvkGroup = ''gateway.networking.k8s.io'', gvkVersion = ''v1'', gvkKind = ''HTTPRoute''\<rparr>
             namespace name of
        Inl e \<Rightarrow> Inl (Errorf ''httpRouteRef %q: %w'' [name] (Some e))
      | Inr obj \<Rightarrow>
          (case uStringSlice obj [''spec'', ''hostnames''] of
             Inl e \<Rightarrow> Inl (Errorf ''httpRouteRef %q: %w'' [name] (Some e))
           | Inr hostnames \<Rightarrow>
               (case find not_blank (case hostnames of None \<Rightarrow> [] | Some hs \<Rightarrow> hs) of
                  Some hostname \<Rightarrow> Inr (''https://'' @ hostname)
                | None \<Rightarrow> Inl (Errorf ''httpRouteRef %q has no hostnames'' [name] None))))"

definition resolveGRPCRouteURL :: "Reader \<Rightarrow> string \<Rightarrow> string \<Rightarrow> error + string" where
  "resolveGRPCRouteURL r namespace name =
     (case rdGetUnstructured r
             \<lparr>gvkGroup = ''gateway.networking.k8s.io'', gvkVersion = ''v1'', gvkKind = ''GRPCRoute''\<rparr>
             namespace name of
        Inl e \<Rightarrow> Inl (Errorf ''grpcRouteRef %q: %w'' [name] (Some e))
      | Inr obj \<Rightarrow>
          (case uStringSlice obj [''spec'', ''hostnames''] of
             Inl e \<Rightarrow> Inl (Errorf ''grpcRouteRef %q: %w'' [name] (Some e))
           | Inr hostnames \<Rightarrow>
               (case find not_blank (case hostnames of None \<Rightarrow> [] | Some hs \<Rightarrow> hs) of
                  Some hostname \<Rightarrow> Inr (''https://'' @ hostname)
                | None \<Rightarrow> Inl (Errorf ''grpcRouteRef %q has no hostnames'' [name] None))))"

text \<open>\<open>fmt.Sprintf("%s://%s.%s.svc.cluster.local:%d", ...)\<close> with a signed 32-bit port\<close>

definition serviceURL :: "Service \<Rightarrow> int32 \<Rightarrow> string" where
  "serviceURL svc port =
     (if port = 443 then ''https'' else ''http'') @ ''://'' @ omName (svcMeta svc) @ ''.'' @
     omNamespace (svcMeta svc) @ ''.svc.cluster.local:'' @ Itoa (sint port)"

definition resolveServiceURL :: "Reader \<Rightarrow> string \<Rightarrow> string \<Rightarrow> error + string" where
  "resolveServiceURL r namespace name =
     (case rdGetService r namespace name of
        Inl e \<Rightarrow> Inl (Errorf ''serviceRef %q: %w'' [name] (Some e))
      | Inr svc \<Rightarrow>
          (case svcPorts svc of
             [] \<Rightarrow> Inl (Errorf ''serviceRef %q has no ports'' [name] None)
           | port # _ \<Rightarrow> Inr (serviceURL svc port)))"

definition resolveOpenShiftRouteURL :: "Reader \<Rightarrow> string \<Rightarrow> string \<Rightarrow> error + string" where
  "resolveOpenShiftRouteURL r namespace name =
     (case rdGetUnstructured r
             \<lparr>gvkGroup = ''route.openshift.io'', gvkVersion = ''v1'', gvkKind = ''Route''\<rparr>
             namespace name of
        Inl e \<Rightarrow> Inl (Errorf ''routeRef %q: %w'' [name] (Some e))
      | Inr obj \<Rightarrow>
          (case uString obj [''spec'', ''host''] of
             Inl e \<Rightarrow> Inl (Errorf ''routeRef %q: %w'' [name] (Some e))
           | Inr None \<Rightarrow> Inl (Errorf ''routeRef %q has no spec.host'' [name] None)
           | Inr (Some host) \<Rightarrow>
               (if TrimSpace host = [] then Inl (Errorf ''routeRef %q has no spec.host'' [name] None)
                else Inr (''https://'' @ host))))"

definition ExtractHostFromTraefikMatch :: "string \<Rightarrow> string" where
  "ExtractHostFromTraefikMatch m =
     (case Index m ''Host(`'' of
        None \<Rightarrow> []
      | Some i \<Rightarrow>
          (let start = i + length ''Host(`'' in
           case Index (drop start m) ''`)'' of
             None \<Rightarrow> []
           | Some e \<Rightarrow> TrimSpace (take e (drop start m))))"

text \<open>
  One round of the loop over \<open>spec.routes\<close>: skip what is not a map, read \<open>match\<close> if it is a string
  (the empty string otherwise) and hostOf the host.
\<close>

definition routeMatch :: "(string \<times> any) list \<Rightarrow> string" where
  "routeMatch routeMap = (case map_of routeMap ''match'' of Some (AString s) \<Rightarrow> s | _ \<Rightarrow> [])"

fun firstTraefikHost :: "(string \<Rightarrow> string) \<Rightarrow> any list \<Rightarrow> string option" where
  "firstTraefikHost hostOf [] = None"
| "firstTraefikHost hostOf (AMap routeMap # rs) =
     (let host = hostOf (routeMatch routeMap) in
      if host \<noteq> [] then Some host else firstTraefikHost hostOf rs)"
| "firstTraefikHost hostOf (_ # rs) = firstTraefikHost hostOf rs"

fun resolveTraefikGVs :: "Reader \<Rightarrow> string \<Rightarrow> string \<Rightarrow> GroupVersion list \<Rightarrow> error + string" where
  "resolveTraefikGVs r namespace name [] = Inl (Errorf ''ingressRouteRef %q not found'' [name] None)"
| "resolveTraefikGVs r namespace name (gv # gvs) =
     (case rdGetUnstructured r
             \<lparr>gvkGroup = gvGroup gv, gvkVersion = gvVersion gv, gvkKind = ''IngressRoute''\<rparr>
             namespace name of
        Inl _ \<Rightarrow> resolveTraefikGVs r namespace name gvs
      | Inr obj \<Rightarrow>
          (case uSlice obj [''spec'', ''routes''] of
             Inl e \<Rightarrow> Inl (Errorf ''ingressRouteRef %q: %w'' [name] (Some e))
           | Inr None \<Rightarrow> Inl (Errorf ''ingressRouteRef %q has no routes'' [name] None)
           | Inr (Some []) \<Rightarrow> Inl (Errorf ''ingressRouteRef %q has no routes'' [name] None)
           | Inr (Some routes) \<Rightarrow>
               (case firstTraefikHost ExtractHostFromTraefikMatch routes of
                  Some host \<Rightarrow> Inr (''https://'' @ host)
                | None \<Rightarrow> Inl (Errorf ''ingressRouteRef %q has no parsable host'' [name] None))))"

definition resolveTraefikIngressRouteURL :: "Reader \<Rightarrow> string \<Rightarrow> string \<Rightarrow> error + string" where
  "resolveTraefikIngressRouteURL r namespace name =
     resolveTraefikGVs r namespace name
       [\<lparr>gvGroup = ''traefik.containo.us'', gvVersion = ''v1alpha1''\<rparr>,
        \<lparr>gvGroup = ''traefik.io'', gvVersion = ''v1alpha1''\<rparr>]"

definition ResolveURLFromSource :: "Reader \<Rightarrow> string \<Rightarrow> URLSource option \<Rightarrow> error + string" where
  "ResolveURLFromSource r namespace source =
     (case source of
        None \<Rightarrow> Inl (Errorf ''urlFrom must not be nil'' [] None)
      | Some src \<Rightarrow>
          (case usIngressRef src of
             Some ref \<Rightarrow> resolveIngressURL r namespace (lorName ref)
           | None \<Rightarrow>
          (case usHTTPRouteRef src of
             Some ref \<Rightarrow> resolveHTTPRouteURL r namespace (lorName ref)
           | None \<Rightarrow>
          (case usGRPCRouteRef src of
             Some ref \<Rightarrow> resolveGRPCRouteURL r namespace (lorName ref)
           | None \<Rightarrow>
          (case usServiceRef src of
             Some ref \<Rightarrow> resolveServiceURL r namespace (lorName ref)
           | None \<Rightarrow>
          (case usRouteRef src of
             Some ref \<Rightarrow> resolveOpenShiftRouteURL r namespace (lorName ref)
           | None \<Rightarrow>
          (case usIngressRouteRef src of
             Some ref \<Rightarrow> resolveTraefikIngressRouteURL r namespace (lorName ref)
           | None \<Rightarrow> Inl (Errorf ''urlFrom must set one reference'' [] None))))))))"

subsection \<open>Lemmas\<close>

lemma find_SomeD: "find P xs = Some x \<Longrightarrow> x \<in> set xs \<and> P x"
  by (auto simp: find_Some_iff)

lemma firstTraefikHost_hostOf:
  "firstTraefikHost hostOf rs = Some host \<Longrightarrow> host \<noteq> [] \<and> (\<exists>m. host = hostOf m)"
  by (induction hostOf rs rule: firstTraefikHost.induct) (auto simp: Let_def split: if_splits)

lemma ExtractHostFromTraefikMatch_trimmed:
  "TrimSpace (ExtractHostFromTraefikMatch m) = ExtractHostFromTraefikMatch m"
  by (auto simp: ExtractHostFromTraefikMatch_def Let_def split: option.split)

lemma resolveTraefikGVs_host:
  "resolveTraefikGVs r ns name gvs = Inr url \<Longrightarrow> \<exists>host. not_blank host \<and> url = ''https://'' @ host"
proof (induction r ns name gvs rule: resolveTraefikGVs.induct)
  case (2 r ns name gv gvs)
  then show ?case
    by (auto simp: not_blank_def split: sum.splits option.splits list.splits
        dest!: firstTraefikHost_hostOf)
      (metis ExtractHostFromTraefikMatch_trimmed)+
qed simp

lemma resolveTraefikIngressRouteURL_host:
  "resolveTraefikIngressRouteURL r ns name = Inr url \<Longrightarrow>
     \<exists>host. not_blank host \<and> url = ''https://'' @ host"
  unfolding resolveTraefikIngressRouteURL_def by (rule resolveTraefikGVs_host)

lemmas resolve_defs =
  resolveIngressURL_def resolveHTTPRouteURL_def resolveGRPCRouteURL_def
  resolveOpenShiftRouteURL_def resolveServiceURL_def resolveTraefikIngressRouteURL_def

lemma resolveIngressURL_host:
  "resolveIngressURL r ns name = Inr url \<Longrightarrow> \<exists>host. not_blank host \<and> url = ''https://'' @ host"
  by (auto simp: resolve_defs dest!: find_SomeD split: sum.splits option.splits)

lemma resolveHTTPRouteURL_host:
  "resolveHTTPRouteURL r ns name = Inr url \<Longrightarrow> \<exists>host. not_blank host \<and> url = ''https://'' @ host"
  by (auto simp: resolve_defs dest!: find_SomeD split: sum.splits option.splits)

lemma resolveGRPCRouteURL_host:
  "resolveGRPCRouteURL r ns name = Inr url \<Longrightarrow> \<exists>host. not_blank host \<and> url = ''https://'' @ host"
  by (auto simp: resolve_defs dest!: find_SomeD split: sum.splits option.splits)

lemma resolveOpenShiftRouteURL_host:
  "resolveOpenShiftRouteURL r ns name = Inr url \<Longrightarrow>
     \<exists>host. not_blank host \<and> url = ''https://'' @ host"
  by (auto simp: resolve_defs not_blank_def split: sum.splits option.splits if_splits)

lemma resolveServiceURL_service:
  "resolveServiceURL r ns name = Inr url \<Longrightarrow>
     \<exists>svc port ports. rdGetService r ns name = Inr svc \<and> svcPorts svc = port # ports \<and>
       url = serviceURL svc port"
  by (auto simp: resolve_defs split: sum.splits list.splits)

subsection \<open>Properties\<close>

text \<open>
  What \<open>ResolveURLFromSource\<close> returns is never a URL without a host. If it succeeds, the URL is
  \<open>https://\<close> followed by a host that is not blank, or the cluster-internal URL of the referenced
  service at its first port; the second only when none of the references with precedence over
  \<open>serviceRef\<close> is set.
\<close>

theorem ResolveURLFromSource_host:
  assumes "ResolveURLFromSource r ns source = Inr url"
  shows "(\<exists>host. not_blank host \<and> url = ''https://'' @ host) \<or>
    (\<exists>src ref svc port ports. source = Some src \<and> usServiceRef src = Some ref \<and>
       usIngressRef src = None \<and> usHTTPRouteRef src = None \<and> usGRPCRouteRef src = None \<and>
       rdGetService r ns (lorName ref) = Inr svc \<and> svcPorts svc = port # ports \<and>
       url = serviceURL svc port)"
proof -
  from assms obtain src where "source = Some src"
    by (auto simp: ResolveURLFromSource_def split: option.splits)
  with assms show ?thesis
    by (auto simp: ResolveURLFromSource_def split: option.splits
        dest: resolveIngressURL_host resolveHTTPRouteURL_host resolveGRPCRouteURL_host
          resolveOpenShiftRouteURL_host resolveTraefikIngressRouteURL_host
          resolveServiceURL_service)
qed

definition exampleReader :: Reader where
  "exampleReader =
     \<lparr>rdListBookmarkGroups = Inr [], rdListBookmarks = Inr [], rdListInfoTiles = Inr [],
      rdListForecastleApps = Inr [], rdListIngresses = (\<lambda>_. Inr []), rdListServices = (\<lambda>_. Inr []),
      rdListEndpointSlices = (\<lambda>_. Inr []), rdListUnstructured = (\<lambda>_ _. Inr []),
      rdGetIngress = (\<lambda>ns name. Inr \<lparr>ingMeta = \<lparr>omNamespace = ns, omName = name, omAnnotations = []\<rparr>,
        ingRuleHosts = ['' '', ''shop.example'']\<rparr>),
      rdGetService = (\<lambda>_ _. Inl (External ''not found'')),
      rdGetUnstructured = (\<lambda>_ _ _. Inl (External ''not found'')),
      rdIgnoreNotFound = (\<lambda>_. None)\<rparr>"

theorem ResolveURLFromSource_host_witness:
  "\<exists>host. not_blank host \<and> ''https://shop.example'' = ''https://'' @ host"
proof -
  let ?src = "\<lparr>usIngressRef = Some \<lparr>lorName = ''shop''\<rparr>, usRouteRef = None, usIngressRouteRef = None,
    usHTTPRouteRef = None, usGRPCRouteRef = None, usServiceRef = None\<rparr>"
  have "ResolveURLFromSource exampleReader ''apps'' (Some ?src) = Inr ''https://shop.example''"
    by code_simp
  from ResolveURLFromSource_host [OF this] show ?thesis by simp
qed

text \<open>
  C40: \<open>ExtractHostFromTraefikMatch\<close> finds the host of a Traefik rule: for a rule whose first
  \<open>Host(`\<close> is followed by a text without a backtick and the closing \<open>`)\<close>, the result is that text
  without surrounding white space, whatever precedes and follows.
\<close>

theorem ExtractHostFromTraefikMatch_finds:
  assumes "\<not> Contains (before @ ''Host('') ''Host(`''" and "CHR ''`'' \<notin> set host"
  shows "ExtractHostFromTraefikMatch (before @ ''Host(`'' @ host @ ''`)'' @ after) = TrimSpace host"
proof -
  have "Index (before @ ''Host(`'' @ (host @ ''`)'' @ after)) ''Host(`'' = Some (length before)"
  proof (rule Index_append_avoid)
    fix u v
    show "before @ butlast ''Host(`'' \<noteq> u @ ''Host(`'' @ v"
      using assms(1) Contains_iff [of "before @ ''Host(''" "''Host(`''"] by auto
  qed simp
  moreover have "Index (host @ ''`)'' @ after) ''`)'' = Some (length host)"
  proof (rule Index_append_avoid)
    fix u v
    have "CHR ''`'' \<notin> set (butlast (host @ ''`''))" using assms(2) by simp
    then have "CHR ''`'' \<notin> set (butlast w)" if "host @ ''`'' = w" for w using that by simp
    from this [of "u @ ''`)'' @ v"] show "host @ butlast ''`)'' \<noteq> u @ ''`)'' @ v"
      by (auto simp: butlast_append)
  qed simp
  ultimately show ?thesis
    by (simp add: ExtractHostFromTraefikMatch_def Let_def)
qed

theorem ExtractHostFromTraefikMatch_finds_witness:
  "ExtractHostFromTraefikMatch ''PathPrefix(`/x`) && Host(` app.example.com `)'' = ''app.example.com''"
proof -
  have "\<not> Contains (''PathPrefix(`/x`) && '' @ ''Host('') ''Host(`''" by code_simp
  moreover have "CHR ''`'' \<notin> set '' app.example.com ''" by simp
  ultimately have "ExtractHostFromTraefikMatch
      (''PathPrefix(`/x`) && '' @ ''Host(`'' @ '' app.example.com '' @ ''`)'' @ []) =
    TrimSpace '' app.example.com ''"
    by (rule ExtractHostFromTraefikMatch_finds)
  moreover have "TrimSpace '' app.example.com '' = ''app.example.com''" by code_simp
  ultimately show ?thesis by simp
qed

end
