(* ===== verification/Dashboard_Data.thy ===== *)
theory Dashboard_Data
  imports Url_Resolver
begin

text \<open>
  The data of the dashboard and the functions on it that talk to nobody: the response types and
  constants of \<open>web/dashboard.go\<close>, the option types of \<open>web/options.go\<close>, \<open>normalizedGroups\<close> of
  \<open>web/auth.go\<close>, the filters, and the ordering of link groups. Lemmas: the filters are exact, group
  lists are normal forms, and sorting by \<open>compareLinkGroups\<close> is the stable sort by a key of a linear
  order as long as no difference of two priorities overflows.
\<close>

subsection \<open>Options\<close>

record AuthOptions =
  aoEnabled :: bool
  aoCookieSecret :: string
  aoIssuerURL :: string
  aoClientID :: string
  aoRedirectPath :: string
  aoScopes :: string
  aoUserInfoEndpointURL :: string

record ForecastleOptions =
  foInstance :: string

record StaticLink =
  slGroup :: string
  slLinkGroup :: string
  slName :: string
  slURL :: string
  slTarget :: string
  slIcon :: string
  slGroups :: "string list"

record PageOptions =
  poTemplateSet :: string
  poTitle :: string
  poFaviconURL :: string
  poContentLayout :: string

record LinkGroup =
  cgName :: string
  cgPriority :: goint
  cgPriorityClass :: string
  cgDisplayName :: string

record Options =
  opAuth :: AuthOptions
  opForecastle :: ForecastleOptions
  opLinkGroups :: "LinkGroup list"
  opStaticLinks :: "StaticLink list"
  opPage :: PageOptions

subsection \<open>Response types and constants\<close>

record DashboardInfoTile =
  tlName :: string
  tlIcon :: string
  tlURL :: string
  tlTarget :: string
  tlSource :: string
  tlContent :: string
  tlReplicate :: bool

record DashboardLinkGroup =
  lgName :: string
  lgPriority :: goint
  lgPriorityClass :: string
  lgDisplayName :: string
  lgSource :: string
  lgProperties :: "(string, string) gomap"
  lgReplicate :: bool

record DashboardLink =
  lnName :: string
  lnLinkGroup :: string
  lnURL :: string
  lnTarget :: string
  lnIcon :: string
  lnSource :: string
  lnMetadata :: string
  lnGroups :: "string list"
  lnReplicate :: bool

record DashboardGroup =
  dgName :: string
  dgLinkGroup :: string
  dgLinks :: "DashboardLink list"
  dgTiles :: "DashboardInfoTile list"
  dgSource :: string

record DashboardResponse =
  drLinkGroups :: "DashboardLinkGroup list"
  drGroups :: "DashboardGroup list"

definition labelEnabled :: string where
  "labelEnabled = ''cupboard.netztronaut.de/enabled''"

definition annotationGroup :: string where
  "annotationGroup = ''cupboard.netztronaut.de/group''"

definition annotationName :: string where
  "annotationName = ''cupboard.netztronaut.de/name''"

definition annotationURL :: string where
  "annotationURL = ''cupboard.netztronaut.de/url''"

definition annotationTarget :: string where
  "annotationTarget = ''cupboard.netztronaut.de/target''"

definition annotationIcon :: string where
  "annotationIcon = ''cupboard.netztronaut.de/icon''"

definition annotationIconURL :: string where
  "annotationIconURL = ''cupboard.netztronaut.de/icon-url''"

definition annotationReplicate :: string where
  "annotationReplicate = ''cupboard.netztronaut.de/replicate''"

definition allLinkGroupsWildcard :: string where
  "allLinkGroupsWildcard = CHR 0x00 # ''all-link-groups''"

text \<open>Literals: the fields a composite literal leaves out are zero.\<close>

definition mkLink :: "string \<Rightarrow> string \<Rightarrow> string \<Rightarrow> string \<Rightarrow> string \<Rightarrow> string list \<Rightarrow> bool \<Rightarrow> DashboardLink" where
  "mkLink name url target icon source gs repl =
     \<lparr>lnName = name, lnLinkGroup = [], lnURL = url, lnTarget = target, lnIcon = icon,
      lnSource = source, lnMetadata = [], lnGroups = gs, lnReplicate = repl\<rparr>"

definition mkLinkGroup :: "string \<Rightarrow> string \<Rightarrow> DashboardLinkGroup" where
  "mkLinkGroup name source =
     \<lparr>lgName = name, lgPriority = 0, lgPriorityClass = [], lgDisplayName = name,
      lgSource = source, lgProperties = [], lgReplicate = False\<rparr>"

subsection \<open>Helpers\<close>

definition defaultTarget :: "string \<Rightarrow> string" where
  "defaultTarget raw = (if TrimSpace raw = [] then BookmarkLinkTargetSelf else raw)"

fun firstNonEmpty :: "string list \<Rightarrow> string" where
  "firstNonEmpty [] = []"
| "firstNonEmpty (v # vs) = (if TrimSpace v \<noteq> [] then v else firstNonEmpty vs)"

definition ensureLinkGroup ::
    "(string, DashboardLinkGroup) gomap \<Rightarrow> string \<Rightarrow> (string, DashboardLinkGroup) gomap" where
  "ensureLinkGroup groups name =
     (if gm_has groups name then groups else gm_set groups name (mkLinkGroup name ''local''))"

definition filterLinksForReplication :: "DashboardLink list \<Rightarrow> DashboardLink list" where
  "filterLinksForReplication links = filter lnReplicate links"

definition filterTilesForReplication :: "DashboardInfoTile list \<Rightarrow> DashboardInfoTile list" where
  "filterTilesForReplication ts = filter tlReplicate ts"

text \<open>The set of the user's groups is the list of its elements.\<close>

definition linkAllowedForGroups :: "DashboardLink \<Rightarrow> string list \<Rightarrow> bool" where
  "linkAllowedForGroups link groupSet =
     (if lnGroups link = [] then True
      else if List.member groupSet allLinkGroupsWildcard then True
      else list_ex (List.member groupSet) (lnGroups link))"

definition filterLinksForGroups :: "DashboardLink list \<Rightarrow> string list \<Rightarrow> DashboardLink list" where
  "filterLinksForGroups links userGroups =
     (let groupSet = filter (\<lambda>g. g \<noteq> []) (map TrimSpace userGroups) in
      filter (\<lambda>l. linkAllowedForGroups l groupSet) links)"

text \<open>
  \<open>normalizedGroups\<close>: the closure \<open>add\<close> keeps the groups found so far, once in a slice and once in
  the set \<open>seen\<close>; the list stands for both.
\<close>

definition addGroup :: "string \<Rightarrow> string list \<Rightarrow> string list" where
  "addGroup raw groups =
     (let g = TrimSpace raw in if g = [] \<or> List.member groups g then groups else groups @ [g])"

fun anyString :: "any \<Rightarrow> string option" where
  "anyString (AString s) = Some s"
| "anyString _ = None"

fun normalizedGroups :: "any \<Rightarrow> string list" where
  "normalizedGroups (AStrs gs) = fold addGroup gs []"
| "normalizedGroups (AList items) = fold addGroup (List.map_filter anyString items) []"
| "normalizedGroups (AString s) = fold addGroup (Split s CHR '','') []"
| "normalizedGroups _ = []"

subsection \<open>Link groups\<close>

definition priorityClassRank :: "unicode \<Rightarrow> string \<Rightarrow> goint" where
  "priorityClassRank U v =
     (let c = ToLower U (TrimSpace v) in
      if c = ''first'' then 0 else if c = ''last'' then 2 else 1)"

definition compareLinkGroups ::
    "unicode \<Rightarrow> DashboardLinkGroup \<Rightarrow> DashboardLinkGroup \<Rightarrow> goint" where
  "compareLinkGroups U a b =
     (let rankA = priorityClassRank U (lgPriorityClass a);
          rankB = priorityClassRank U (lgPriorityClass b) in
      if rankA \<noteq> rankB then rankA - rankB
      else if lgPriority a \<noteq> lgPriority b then lgPriority a - lgPriority b
      else
        (let dA = ToLower U (lgDisplayName a); dB = ToLower U (lgDisplayName b) in
         if dA \<noteq> dB then (if dA < dB then -1 else 1)
         else
           (let nA = ToLower U (lgName a); nB = ToLower U (lgName b) in
            if nA \<noteq> nB then (if nA < nB then -1 else 1)
            else 0)))"

definition linkGroupLess :: "unicode \<Rightarrow> DashboardLinkGroup \<Rightarrow> DashboardLinkGroup \<Rightarrow> bool" where
  "linkGroupLess U a b \<longleftrightarrow> sint (compareLinkGroups U a b) < 0"

definition sortLinkGroups ::
    "unicode \<Rightarrow> string order \<Rightarrow> (string, DashboardLinkGroup) gomap \<Rightarrow> DashboardLinkGroup list" where
  "sortLinkGroups U ch groups = stable_sort (linkGroupLess U) (map snd (gm_range ch groups))"

definition resolveLinkGroupName ::
    "unicode \<Rightarrow> string order \<Rightarrow> string \<Rightarrow> (string, DashboardLinkGroup) gomap \<Rightarrow> string" where
  "resolveLinkGroupName U ch raw groupDetails =
     (let name = TrimSpace raw in
      if name = [] then []
      else if gm_has groupDetails name then name
      else
        (case find (\<lambda>(key, details).
                EqualFold U (TrimSpace (lgDisplayName details)) name \<or> EqualFold U key name)
              (gm_range ch groupDetails) of
           Some (key, _) \<Rightarrow> key
         | None \<Rightarrow> name))"

subsection \<open>Lemmas: group lists\<close>

lemma set_addGroup: "set (addGroup x gs) = set gs \<union> ({TrimSpace x} - {[]})"
  by (auto simp: addGroup_def Let_def)

lemma set_fold_addGroup: "set (fold addGroup xs gs) = set gs \<union> (TrimSpace ` set xs - {[]})"
proof (induction xs arbitrary: gs)
  case (Cons x xs)
  show ?case unfolding fold_simps o_apply Cons.IH set_addGroup by auto
qed simp

lemma distinct_fold_addGroup: "distinct gs \<Longrightarrow> distinct (fold addGroup xs gs)"
  by (induction xs arbitrary: gs) (auto simp: addGroup_def Let_def)

lemma fold_addGroup_id:
  "distinct (gs @ xs) \<Longrightarrow> (\<forall>g \<in> set xs. g \<noteq> [] \<and> TrimSpace g = g) \<Longrightarrow>
     fold addGroup xs gs = gs @ xs"
  by (induction xs arbitrary: gs) (auto simp: addGroup_def Let_def)

lemma distinct_normalizedGroups: "distinct (normalizedGroups raw)"
  by (cases raw) (simp_all add: distinct_fold_addGroup)

lemma set_normalizedGroups_trimmed:
  "g \<in> set (normalizedGroups raw) \<Longrightarrow> g \<noteq> [] \<and> TrimSpace g = g"
  by (cases raw) (auto simp: set_fold_addGroup TrimSpace_idem)

lemma normalizedGroups_AStrs_set:
  "set (normalizedGroups (AStrs gs)) = TrimSpace ` set gs - {[]}"
  by (simp add: set_fold_addGroup)

lemma normalizedGroups_AStrs_idem:
  "normalizedGroups (AStrs (normalizedGroups raw)) = normalizedGroups raw"
proof -
  have "fold addGroup (normalizedGroups raw) [] = [] @ normalizedGroups raw"
    by (rule fold_addGroup_id) (use distinct_normalizedGroups set_normalizedGroups_trimmed in auto)
  then show ?thesis by simp
qed

subsection \<open>Lemmas: filters\<close>

lemma linkAllowedForGroups_iff:
  "linkAllowedForGroups l gs \<longleftrightarrow>
     lnGroups l = [] \<or> allLinkGroupsWildcard \<in> set gs \<or> set (lnGroups l) \<inter> set gs \<noteq> {}"
  by (auto simp: linkAllowedForGroups_def list_ex_iff)

lemma filterLinksForGroups_eq:
  "filterLinksForGroups ls ug =
     filter (\<lambda>l. linkAllowedForGroups l (filter (\<lambda>g. g \<noteq> []) (map TrimSpace ug))) ls"
  by (simp add: filterLinksForGroups_def)

lemma TrimSpace_wildcard: "TrimSpace allLinkGroupsWildcard = allLinkGroupsWildcard"
  by (simp add: allLinkGroupsWildcard_def TrimSpace_def ws_runes_def trim_left.simps)

lemma filterLinksForGroups_wildcard: "filterLinksForGroups ls [allLinkGroupsWildcard] = ls"
  by (simp add: filterLinksForGroups_def linkAllowedForGroups_iff TrimSpace_wildcard)
    (simp add: allLinkGroupsWildcard_def)

subsection \<open>Lemmas: the order of link groups\<close>

text \<open>
  The key that \<open>compareLinkGroups\<close> compares: rank, priority as a signed number, display name and
  name in lower case. Keys are ordered lexicographically.
\<close>

datatype lg_key = LgKey (kRank: int) (kPriority: int) (kDisplay: string) (kName: string)

instantiation lg_key :: linorder
begin

definition less_lg_key :: "lg_key \<Rightarrow> lg_key \<Rightarrow> bool" where
  "less_lg_key a b \<longleftrightarrow>
     kRank a < kRank b \<or> kRank a = kRank b \<and>
     (kPriority a < kPriority b \<or> kPriority a = kPriority b \<and>
      (kDisplay a < kDisplay b \<or> kDisplay a = kDisplay b \<and> kName a < kName b))"

definition less_eq_lg_key :: "lg_key \<Rightarrow> lg_key \<Rightarrow> bool" where
  "less_eq_lg_key a b \<longleftrightarrow> a = b \<or> a < b"

instance
proof
  fix x y z :: lg_key
  show "x < y \<longleftrightarrow> x \<le> y \<and> \<not> y \<le> x"
    by (auto simp: less_lg_key_def less_eq_lg_key_def)
  show "x \<le> x" by (simp add: less_eq_lg_key_def)
  show "x \<le> y \<Longrightarrow> y \<le> z \<Longrightarrow> x \<le> z"
    by (auto simp: less_lg_key_def less_eq_lg_key_def)
  show "x \<le> y \<Longrightarrow> y \<le> x \<Longrightarrow> x = y"
    by (auto simp: less_lg_key_def less_eq_lg_key_def)
  show "x \<le> y \<or> y \<le> x"
    by (cases x; cases y) (auto simp: less_lg_key_def less_eq_lg_key_def)
qed

end

definition lgKey :: "unicode \<Rightarrow> DashboardLinkGroup \<Rightarrow> lg_key" where
  "lgKey U g =
     LgKey (sint (priorityClassRank U (lgPriorityClass g))) (sint (lgPriority g))
       (ToLower U (lgDisplayName g)) (ToLower U (lgName g))"

text \<open>No difference of two priorities in this range overflows 64 bits.\<close>

definition priority_ok :: "DashboardLinkGroup \<Rightarrow> bool" where
  "priority_ok g \<longleftrightarrow> - (2 ^ 62) \<le> sint (lgPriority g) \<and> sint (lgPriority g) < 2 ^ 62"


lemma sint_diff_ok:
  fixes a b :: goint
  assumes "- (2 ^ 62) \<le> sint a" "sint a < 2 ^ 62" "- (2 ^ 62) \<le> sint b" "sint b < 2 ^ 62"
  shows "sint (a - b) = sint a - sint b"
proof -
  have "sint (a - b) = signed_take_bit 63 (sint a - sint b)"
    by (simp add: sint_word_diff)
  also have "\<dots> = sint a - sint b"
    using assms by (intro signed_take_bit_int_eq_self) auto
  finally show ?thesis .
qed

lemma priorityClassRank_cases:
  "priorityClassRank U v \<in> {0, 1, 2}"
  by (simp add: priorityClassRank_def Let_def)

text \<open>The difference of two 64-bit numbers fits, or its sign is the wrong one.\<close>

definition diff_fits :: "goint \<Rightarrow> goint \<Rightarrow> bool" where
  "diff_fits a b \<longleftrightarrow> - (2 ^ 63) \<le> sint a - sint b \<and> sint a - sint b < 2 ^ 63"

lemma sint_diff_sign:
  fixes a b :: goint
  shows "sint (a - b) < 0 \<longleftrightarrow> (if diff_fits a b then sint a < sint b else sint b < sint a)"
proof -
  let ?d = "sint a - sint b"
  have r: "- (2 ^ 64) < ?d" "?d < 2 ^ 64"
    using sint_ge [of a] sint_lt [of a] sint_ge [of b] sint_lt [of b] by auto
  have "sint (a - b) = (?d + 2 ^ 63) mod 2 ^ 64 - 2 ^ 63"
    by (simp add: sint_word_diff signed_take_bit_eq_take_bit_shift take_bit_eq_mod)
  moreover consider "- (2 ^ 63) \<le> ?d \<and> ?d < 2 ^ 63" | "2 ^ 63 \<le> ?d" | "?d < - (2 ^ 63)" by linarith
  then have "(?d + 2 ^ 63) mod 2 ^ 64 - 2 ^ 63 < 0 \<longleftrightarrow> (if diff_fits a b then sint a < sint b else sint b < sint a)"
  proof cases
    case 1
    then have "(?d + 2 ^ 63) mod 2 ^ 64 = ?d + 2 ^ 63" by (intro mod_pos_pos_trivial) auto
    with 1 show ?thesis by (auto simp: diff_fits_def)
  next
    case 2
    have "(?d + 2 ^ 63 - 2 ^ 64) mod 2 ^ 64 = ?d + 2 ^ 63 - 2 ^ 64"
      using 2 r by (intro mod_pos_pos_trivial) auto
    then have "(?d + 2 ^ 63) mod 2 ^ 64 = ?d + 2 ^ 63 - 2 ^ 64" by (simp only: minus_mod_self2)
    with 2 r show ?thesis by (auto simp: diff_fits_def)
  next
    case 3
    have "(?d + 2 ^ 63 + 2 ^ 64) mod 2 ^ 64 = ?d + 2 ^ 63 + 2 ^ 64"
      using 3 r by (intro mod_pos_pos_trivial) auto
    then have "(?d + 2 ^ 63) mod 2 ^ 64 = ?d + 2 ^ 63 + 2 ^ 64" by (simp only: mod_add_self2)
    with 3 r show ?thesis by (auto simp: diff_fits_def)
  qed
  ultimately show ?thesis by simp
qed

lemma linkGroupLess_key_general:
  "linkGroupLess U a b \<longleftrightarrow>
     (if kRank (lgKey U a) = kRank (lgKey U b) \<and> \<not> diff_fits (lgPriority a) (lgPriority b)
      then kPriority (lgKey U b) < kPriority (lgKey U a) else lgKey U a < lgKey U b)"
proof -
  let ?ra = "priorityClassRank U (lgPriorityClass a)" and ?rb = "priorityClassRank U (lgPriorityClass b)"
  have r: "sint (?ra - ?rb) = sint ?ra - sint ?rb"
    using priorityClassRank_cases [of U "lgPriorityClass a"]
      priorityClassRank_cases [of U "lgPriorityClass b"]
    by (intro sint_diff_ok) auto
  have "diff_fits x x" for x by (simp add: diff_fits_def)
  then show ?thesis
    by (auto simp: linkGroupLess_def compareLinkGroups_def lgKey_def less_lg_key_def Let_def r sint_diff_sign
        dest!: signed_word_eqI)
qed

lemma linkGroupLess_key:
  assumes "priority_ok a" "priority_ok b"
  shows "linkGroupLess U a b \<longleftrightarrow> lgKey U a < lgKey U b"
  using assms by (auto simp: linkGroupLess_key_general diff_fits_def priority_ok_def)

interpretation lgo: keyed_order priority_ok "linkGroupLess U" "lgKey U" for U
  by unfold_locales (rule linkGroupLess_key)

lemma mset_sortLinkGroups:
  "range_order ch \<Longrightarrow> gm_wf m \<Longrightarrow> mset (sortLinkGroups U ch m) = mset (map snd m)"
  using mset_gm_range [of ch m] by (simp add: sortLinkGroups_def)

lemma set_sortLinkGroups:
  "range_order ch \<Longrightarrow> gm_wf m \<Longrightarrow> set (sortLinkGroups U ch m) = snd ` set m"
  using mset_eq_setD [OF mset_sortLinkGroups] by simp

lemma sortLinkGroups_sorted:
  "range_order ch \<Longrightarrow> gm_wf m \<Longrightarrow> list_all priority_ok (map snd m) \<Longrightarrow>
     sorted (map (lgKey U) (sortLinkGroups U ch m))"
  unfolding sortLinkGroups_def
  by (rule lgo.stable_sort_sorted) (auto simp: list_all_iff set_gm_range)

lemma sortLinkGroups_order_free:
  assumes "range_order ch" "range_order ch'" "gm_wf m" "list_all priority_ok (map snd m)"
    and "inj_on (lgKey U) (snd ` set m)"
  shows "sortLinkGroups U ch m = sortLinkGroups U ch' m"
proof -
  have "mset (map snd (gm_range c m)) = mset (map snd m)" if "range_order c" for c
    using mset_gm_range [OF that assms(3)] by simp
  then show ?thesis
    using assms unfolding sortLinkGroups_def
    by (intro lgo.stable_sort_mset_eq) (auto simp: list_all_iff set_gm_range)
qed

subsection \<open>Lemmas: resolving names\<close>

definition names_group :: "unicode \<Rightarrow> string \<Rightarrow> string \<Rightarrow> DashboardLinkGroup \<Rightarrow> bool" where
  "names_group U name key details \<longleftrightarrow>
     EqualFold U (TrimSpace (lgDisplayName details)) name \<or> EqualFold U key name"

lemma resolveLinkGroupName_cases:
  assumes "range_order ch" and "gm_wf m"
  shows "(resolveLinkGroupName U ch raw m = TrimSpace raw \<and>
       (TrimSpace raw = [] \<or> gm_has m (TrimSpace raw) \<or>
        (\<forall>k d. map_of m k = Some d \<longrightarrow> \<not> names_group U (TrimSpace raw) k d))) \<or>
     (\<exists>d. map_of m (resolveLinkGroupName U ch raw m) = Some d \<and>
        names_group U (TrimSpace raw) (resolveLinkGroupName U ch raw m) d)"
proof -
  let ?n = "TrimSpace raw" and ?r = "resolveLinkGroupName U ch raw m"
  let ?f = "find (\<lambda>(k, d). EqualFold U (TrimSpace (lgDisplayName d)) ?n \<or> EqualFold U k ?n) (gm_range ch m)"
  consider "?n = [] \<or> gm_has m ?n" | "?n \<noteq> []" "\<not> gm_has m ?n" "?f = None"
    | k d where "?n \<noteq> []" "\<not> gm_has m ?n" "?f = Some (k, d)"
    by (cases ?f) auto
  then show ?thesis
  proof cases
    case 1
    then have "?r = ?n" by (auto simp: resolveLinkGroupName_def Let_def)
    with 1 show ?thesis by auto
  next
    case 2
    then have "\<not> names_group U ?n k d" if "map_of m k = Some d" for k d
      using map_of_SomeD [OF that] set_gm_range [OF assms]
      by (auto simp: find_None_iff names_group_def)
    moreover have "?r = ?n" using 2 by (simp add: resolveLinkGroupName_def Let_def)
    ultimately show ?thesis by simp
  next
    case 3
    then have "(k, d) \<in> set (gm_range ch m)" "names_group U ?n k d"
      by (auto dest!: find_SomeD simp: names_group_def)
    moreover have "?r = k" using 3 by (simp add: resolveLinkGroupName_def Let_def)
    ultimately show ?thesis using gm_range_map_of [of k d ch m] by auto
  qed
qed

subsection \<open>Properties\<close>

text \<open>
  C37: the order of link groups. Whatever order the map is visited in, the sorted list has every
  group once, ordered by class rank, then priority, then display name, then name (both in lower
  case), provided all priorities lie between \<open>-2^62\<close> and \<open>2^62\<close>; if no two groups agree in
  all four, the result does not depend on the order of the visit.
\<close>

theorem sortLinkGroups_ordered:
  assumes "range_order ch" "gm_wf groups" "list_all priority_ok (map snd groups)"
  shows "mset (sortLinkGroups U ch groups) = mset (map snd groups) \<and>
    sorted (map (lgKey U) (sortLinkGroups U ch groups)) \<and>
    (range_order ch' \<and> inj_on (lgKey U) (snd ` set groups) \<longrightarrow>
       sortLinkGroups U ch' groups = sortLinkGroups U ch groups)"
  using mset_sortLinkGroups [OF assms(1,2)] sortLinkGroups_sorted [OF assms]
    sortLinkGroups_order_free [OF _ assms]
  by blast

definition prioGroup :: "string \<Rightarrow> goint \<Rightarrow> DashboardLinkGroup" where
  "prioGroup name priority = (mkLinkGroup name ''local'')\<lparr>lgPriority := priority\<rparr>"

theorem sortLinkGroups_ordered_witness:
  "sorted (map (lgKey \<lparr>uToLower = id, uToUpper = id, uEqualFold = (=)\<rparr>)
     (sortLinkGroups \<lparr>uToLower = id, uToUpper = id, uEqualFold = (=)\<rparr> (\<lambda>p ks. rev ks)
        [(''a'', prioGroup ''a'' 5), (''b'', prioGroup ''b'' (-3))]))"
proof -
  have "range_order (\<lambda>p ks. rev ks)" by (simp add: range_order_def)
  moreover have "gm_wf [(''a'', prioGroup ''a'' 5), (''b'', prioGroup ''b'' (-3))]"
    by (simp add: gm_wf_def gm_keys_def)
  moreover have "list_all priority_ok (map snd [(''a'', prioGroup ''a'' 5), (''b'', prioGroup ''b'' (-3))])"
    by (simp add: priority_ok_def prioGroup_def)
  ultimately show ?thesis
    by (rule sortLinkGroups_ordered [THEN conjunct2, THEN conjunct1])
qed

text \<open>
  C38: when the comparison is right. For any two link groups, \<open>sortLinkGroups\<close> compares the keys (rank, priority,
  display name, name) as long as the ranks differ or the difference of the priorities fits into 64
  bits; otherwise, and only then, the group with the larger priority counts as the smaller one.
\<close>

theorem linkGroupLess_exact:
  "linkGroupLess U a b \<longleftrightarrow>
     (if priorityClassRank U (lgPriorityClass a) = priorityClassRank U (lgPriorityClass b) \<and>
         (sint (lgPriority a) - sint (lgPriority b) < - (2 ^ 63) \<or> 2 ^ 63 \<le> sint (lgPriority a) - sint (lgPriority b))
      then sint (lgPriority b) < sint (lgPriority a)
      else lgKey U a < lgKey U b)"
  unfolding linkGroupLess_key_general lgKey_def lg_key.sel diff_fits_def
  by (auto dest: signed_word_eqI)

text \<open>With the largest priority and a negative one, the group with the larger priority is put first.\<close>

lemma sortLinkGroups_overflow:
  "sortLinkGroups U (\<lambda>p ks. ks)
       [(''a'', prioGroup ''a'' (-1)), (''b'', prioGroup ''b'' 0x7FFFFFFFFFFFFFFF)] =
     [prioGroup ''b'' 0x7FFFFFFFFFFFFFFF, prioGroup ''a'' (-1)]"
  by (simp add: sortLinkGroups_def gm_range_def gm_keys_def stable_sort_def linkGroupLess_def
      compareLinkGroups_def prioGroup_def mkLinkGroup_def)

text \<open>
  Normal form of group lists. \<open>normalizedGroups\<close> yields trimmed, non-empty groups, each once, and
  loses none of a list of strings; normalising twice changes nothing.
\<close>

theorem normalizedGroups_normal_form:
  "distinct (normalizedGroups raw) \<and>
   list_all (\<lambda>g. g \<noteq> [] \<and> TrimSpace g = g) (normalizedGroups raw) \<and>
   normalizedGroups (AStrs (normalizedGroups raw)) = normalizedGroups raw \<and>
   set (normalizedGroups (AStrs gs)) = TrimSpace ` set gs - {[]}"
  using distinct_normalizedGroups normalizedGroups_AStrs_idem normalizedGroups_AStrs_set
    set_normalizedGroups_trimmed
  by (simp add: list_all_iff)

text \<open>
  Resolving a link group. The result is the trimmed name itself if it is empty, a known group,
  or not the display name or name of any group in any case; otherwise it is the key of a known
  group that the name denotes, ignoring case.
\<close>

theorem resolveLinkGroupName_denotes:
  assumes "range_order ch" and "gm_wf m"
  shows "(resolveLinkGroupName U ch raw m = TrimSpace raw \<and>
       (TrimSpace raw = [] \<or> gm_has m (TrimSpace raw) \<or>
        (\<forall>k d. map_of m k = Some d \<longrightarrow> \<not> names_group U (TrimSpace raw) k d))) \<or>
     (\<exists>d. map_of m (resolveLinkGroupName U ch raw m) = Some d \<and>
        names_group U (TrimSpace raw) (resolveLinkGroupName U ch raw m) d)"
  by (rule resolveLinkGroupName_cases [OF assms])

theorem resolveLinkGroupName_denotes_witness:
  "names_group \<lparr>uToLower = id, uToUpper = id, uEqualFold = (=)\<rparr> ''TOOLS'' ''dev''
     ((mkLinkGroup ''dev'' ''local'')\<lparr>lgDisplayName := ''Tools''\<rparr>)"
proof -
  let ?U = "\<lparr>uToLower = id, uToUpper = id, uEqualFold = (=)\<rparr>"
  let ?m = "[(''dev'', (mkLinkGroup ''dev'' ''local'')\<lparr>lgDisplayName := ''Tools''\<rparr>)]"
  have eqs: "resolveLinkGroupName ?U (\<lambda>p ks. ks) '' TOOLS'' ?m = ''dev''" "TrimSpace '' TOOLS'' = ''TOOLS''"
    by code_simp+
  have "gm_wf ?m" by (simp add: gm_wf_def gm_keys_def)
  from resolveLinkGroupName_denotes [OF range_order_id this, of ?U "'' TOOLS''"] show ?thesis
    by (simp add: eqs)
qed

end
