(* ===== verification/Collectors.thy ===== *)
theory Collectors
  imports Dashboard_Data
begin

text \<open>
  The collectors of \<open>web/dashboard.go\<close>: the functions that list one kind of Kubernetes object and
  append what they find to the maps of the dashboard under construction. The three maps that the Go
  code passes by reference are one record, \<open>dstate\<close>; a collector returns it updated, together with
  its error. Interfaces: the locale \<open>collector_step\<close> is the contract every collector keeps (the
  maps stay consistent, nothing collected earlier is lost or reordered, and what is new satisfies
  the collector's own predicate); \<open>link_collector\<close> is the stronger one of those that only add links.
\<close>

subsection \<open>State\<close>

record dstate =
  dsGroups :: "(string, DashboardLink list) gomap"
  dsTiles :: "(string, DashboardInfoTile list) gomap"
  dsDetails :: "(string, DashboardLinkGroup) gomap"

type_synonym outcome = "dstate \<times> error option"

text \<open>\<open>ensureLinkGroup(groupDetails, g); groups[g] = append(groups[g], l)\<close>\<close>

definition addLink :: "string \<Rightarrow> DashboardLink \<Rightarrow> dstate \<Rightarrow> dstate" where
  "addLink g l s =
     s\<lparr>dsDetails := ensureLinkGroup (dsDetails s) g, dsGroups := gm_append (dsGroups s) g l\<rparr>"

definition addTile :: "string \<Rightarrow> DashboardInfoTile \<Rightarrow> dstate \<Rightarrow> dstate" where
  "addTile g t s =
     s\<lparr>dsDetails := (if gm_has (dsDetails s) g then dsDetails s
                      else gm_set (dsDetails s) g (mkLinkGroup g ''infotile'')),
       dsTiles := gm_append (dsTiles s) g t\<rparr>"

subsection \<open>Metadata of a resource\<close>

record resourceMeta =
  rmGroup :: string
  rmName :: string
  rmURL :: string
  rmTarget :: string
  rmIcon :: string
  rmReplicate :: bool

definition resourceMetaFrom :: "ObjectMeta \<Rightarrow> resourceMeta" where
  "resourceMetaFrom obj =
     (let ann = omAnnotations obj;
          grp = gm_string ann annotationGroup;
          grp = (if grp = [] then omNamespace obj else grp);
          name = gm_string ann annotationName;
          name = (if name = [] then omName obj else name) in
      \<lparr>rmGroup = grp, rmName = name, rmURL = gm_string ann annotationURL,
       rmTarget = defaultTarget (gm_string ann annotationTarget),
       rmIcon = firstNonEmpty [gm_string ann annotationIcon, gm_string ann annotationIconURL],
       rmReplicate = (gm_string ann annotationReplicate = ''true'')\<rparr>)"

text \<open>The end of the loop body that the annotation-driven collectors share.\<close>

definition metaLink :: "string \<Rightarrow> resourceMeta \<Rightarrow> dstate \<Rightarrow> dstate" where
  "metaLink source m s =
     (if rmGroup m = [] \<or> rmName m = [] \<or> rmURL m = [] then s
      else addLink (rmGroup m)
             (mkLink (rmName m) (rmURL m) (rmTarget m) (rmIcon m) source [] (rmReplicate m)) s)"

text \<open>\<open>if meta.URL == "" { ... meta.URL = "https://" + host }\<close> with the host a loop finds\<close>

definition orHost :: "resourceMeta \<Rightarrow> string option \<Rightarrow> resourceMeta" where
  "orHost m host =
     (if rmURL m = [] then (case host of Some h \<Rightarrow> m\<lparr>rmURL := ''https://'' @ h\<rparr> | None \<Rightarrow> m) else m)"

definition enabledLabels :: labels where
  "enabledLabels = [(labelEnabled, ''true'')]"

subsection \<open>Typed resources\<close>

definition ingressMeta :: "Ingress \<Rightarrow> resourceMeta" where
  "ingressMeta ing =
     orHost (resourceMetaFrom (ingMeta ing)) (find not_blank (ingRuleHosts ing))"

definition collectIngresses :: "Reader \<Rightarrow> dstate \<Rightarrow> outcome" where
  "collectIngresses r s =
     (case rdListIngresses r enabledLabels of
        Inl e \<Rightarrow> (s, Some e)
      | Inr items \<Rightarrow> (fold (\<lambda>ing. metaLink ''ingress'' (ingressMeta ing)) items s, None))"

definition serviceMeta :: "Service \<Rightarrow> resourceMeta" where
  "serviceMeta svc =
     (let m = resourceMetaFrom (svcMeta svc) in
      if rmURL m = [] then
        (case svcPorts svc of [] \<Rightarrow> m | port # _ \<Rightarrow> m\<lparr>rmURL := serviceURL svc port\<rparr>)
      else m)"

definition collectServices :: "Reader \<Rightarrow> dstate \<Rightarrow> outcome" where
  "collectServices r s =
     (case rdListServices r enabledLabels of
        Inl e \<Rightarrow> (s, Some e)
      | Inr items \<Rightarrow> (fold (\<lambda>svc. metaLink ''service'' (serviceMeta svc)) items s, None))"

definition collectEndpointSlices :: "Reader \<Rightarrow> dstate \<Rightarrow> outcome" where
  "collectEndpointSlices r s =
     (case rdListEndpointSlices r enabledLabels of
        Inl e \<Rightarrow> (s, Some e)
      | Inr items \<Rightarrow>
          (fold (\<lambda>eps. metaLink ''endpointslice'' (resourceMetaFrom (epsMeta eps))) items s, None))"

subsection \<open>Unstructured resources\<close>

definition hostnamesMeta :: "Unstructured \<Rightarrow> resourceMeta" where
  "hostnamesMeta route =
     orHost (resourceMetaFrom (uMeta route))
       (case uStringSlice route [''spec'', ''hostnames''] of
          Inr (Some hostnames) \<Rightarrow> find not_blank hostnames
        | _ \<Rightarrow> None)"

definition collectHTTPRoutes :: "Reader \<Rightarrow> dstate \<Rightarrow> outcome" where
  "collectHTTPRoutes r s =
     (case rdListUnstructured r
             \<lparr>gvkGroup = ''gateway.networking.k8s.io'', gvkVersion = ''v1'', gvkKind = ''HTTPRouteList''\<rparr>
             enabledLabels of
        Inl e \<Rightarrow> (s, rdIgnoreNotFound r e)
      | Inr items \<Rightarrow> (fold (\<lambda>route. metaLink ''httproute'' (hostnamesMeta route)) items s, None))"

definition collectGRPCRoutes :: "Reader \<Rightarrow> dstate \<Rightarrow> outcome" where
  "collectGRPCRoutes r s =
     (case rdListUnstructured r
             \<lparr>gvkGroup = ''gateway.networking.k8s.io'', gvkVersion = ''v1'', gvkKind = ''GRPCRouteList''\<rparr>
             enabledLabels of
        Inl e \<Rightarrow> (s, rdIgnoreNotFound r e)
      | Inr items \<Rightarrow> (fold (\<lambda>route. metaLink ''grpcroute'' (hostnamesMeta route)) items s, None))"

definition collectTLSRoutes :: "Reader \<Rightarrow> dstate \<Rightarrow> outcome" where
  "collectTLSRoutes r s =
     (case rdListUnstructured r
             \<lparr>gvkGroup = ''gateway.networking.k8s.io'', gvkVersion = ''v1'', gvkKind = ''TLSRouteList''\<rparr>
             enabledLabels of
        Inl e \<Rightarrow> (s, rdIgnoreNotFound r e)
      | Inr items \<Rightarrow> (fold (\<lambda>route. metaLink ''tlsroute'' (hostnamesMeta route)) items s, None))"

definition collectTCPRoutes :: "Reader \<Rightarrow> dstate \<Rightarrow> outcome" where
  "collectTCPRoutes r s =
     (case rdListUnstructured r
             \<lparr>gvkGroup = ''gateway.networking.k8s.io'', gvkVersion = ''v1alpha2'', gvkKind = ''TCPRouteList''\<rparr>
             enabledLabels of
        Inl e \<Rightarrow> (s, rdIgnoreNotFound r e)
      | Inr items \<Rightarrow>
          (fold (\<lambda>route. metaLink ''tcproute'' (resourceMetaFrom (uMeta route))) items s, None))"

text \<open>
  The package's own copy of the host extraction; \<open>NestedSlice\<close>'s error is not looked at, and with an
  error \<open>found\<close> is false.
\<close>

definition extractHostFromTraefikMatch :: "string \<Rightarrow> string" where
  "extractHostFromTraefikMatch m =
     (case Index m ''Host(`'' of
        None \<Rightarrow> []
      | Some i \<Rightarrow>
          (let start = i + length ''Host(`'' in
           case Index (drop start m) ''`)'' of
             None \<Rightarrow> []
           | Some e \<Rightarrow> TrimSpace (take e (drop start m))))"

definition ingressRouteMeta :: "Unstructured \<Rightarrow> resourceMeta" where
  "ingressRouteMeta route =
     orHost (resourceMetaFrom (uMeta route))
       (case uSlice route [''spec'', ''routes''] of
          Inr (Some routes) \<Rightarrow> firstTraefikHost extractHostFromTraefikMatch routes
        | _ \<Rightarrow> None)"

definition collectIngressRoutes :: "Reader \<Rightarrow> GroupVersion \<Rightarrow> dstate \<Rightarrow> outcome" where
  "collectIngressRoutes r gv s =
     (case rdListUnstructured r
             \<lparr>gvkGroup = gvGroup gv, gvkVersion = gvVersion gv, gvkKind = ''IngressRouteList''\<rparr>
             enabledLabels of
        Inl e \<Rightarrow> (s, rdIgnoreNotFound r e)
      | Inr items \<Rightarrow>
          (fold (\<lambda>route. metaLink ''ingressroute'' (ingressRouteMeta route)) items s, None))"

fun firstDNSName :: "any list \<Rightarrow> string option" where
  "firstDNSName [] = None"
| "firstDNSName (AMap endpointMap # rest) =
     (case map_of endpointMap ''dnsName'' of
        Some (AString dnsName) \<Rightarrow>
          (if TrimSpace dnsName \<noteq> [] then Some dnsName else firstDNSName rest)
      | _ \<Rightarrow> firstDNSName rest)"
| "firstDNSName (_ # rest) = firstDNSName rest"

definition dnsEndpointMeta :: "Unstructured \<Rightarrow> resourceMeta" where
  "dnsEndpointMeta ep =
     orHost (resourceMetaFrom (uMeta ep))
       (case uSlice ep [''spec'', ''endpoints''] of
          Inr (Some endpoints) \<Rightarrow> firstDNSName endpoints
        | _ \<Rightarrow> None)"

definition collectDNSEndpoints :: "Reader \<Rightarrow> dstate \<Rightarrow> outcome" where
  "collectDNSEndpoints r s =
     (case rdListUnstructured r
             \<lparr>gvkGroup = ''externaldns.k8s.io'', gvkVersion = ''v1alpha1'', gvkKind = ''DNSEndpointList''\<rparr>
             enabledLabels of
        Inl e \<Rightarrow> (s, rdIgnoreNotFound r e)
      | Inr items \<Rightarrow> (fold (\<lambda>ep. metaLink ''dnsendpoint'' (dnsEndpointMeta ep)) items s, None))"

subsection \<open>Configured groups and links\<close>

definition initLinkGroup ::
    "LinkGroup \<Rightarrow> (string, DashboardLinkGroup) gomap \<Rightarrow> (string, DashboardLinkGroup) gomap" where
  "initLinkGroup g result =
     (let name = TrimSpace (cgName g) in
      if name = [] then result
      else
        (let displayName = TrimSpace (cgDisplayName g);
             displayName = (if displayName = [] then name else displayName) in
         gm_set result name
           \<lparr>lgName = name, lgPriority = cgPriority g, lgPriorityClass = TrimSpace (cgPriorityClass g),
            lgDisplayName = displayName, lgSource = ''local'', lgProperties = [],
            lgReplicate = False\<rparr>))"

definition initLinkGroups :: "LinkGroup list \<Rightarrow> (string, DashboardLinkGroup) gomap" where
  "initLinkGroups linkGroups = fold initLinkGroup linkGroups []"

fun collectStaticLinks :: "unicode \<Rightarrow> string order \<Rightarrow> StaticLink list \<Rightarrow> dstate \<Rightarrow> dstate" where
  "collectStaticLinks U ch [] s = s"
| "collectStaticLinks U ch (link # rest) s =
     (let groupName = resolveLinkGroupName U (ord_at ch (length rest))
            (firstNonEmpty [TrimSpace (slLinkGroup link), TrimSpace (slGroup link)]) (dsDetails s);
          name = TrimSpace (slName link);
          url = TrimSpace (slURL link) in
      collectStaticLinks U ch rest
        (if groupName = [] \<or> name = [] \<or> url = [] then s
         else addLink groupName
                (mkLink name url (defaultTarget (slTarget link)) (TrimSpace (slIcon link)) ''static''
                   (normalizedGroups (AStrs (slGroups link))) False) s))"

subsection \<open>Bookmarks\<close>

text \<open>One round of the loop over the \<open>BookmarkGroup\<close> list; \<open>groupReplicate\<close> is the local map.\<close>

definition applyBookmarkGroup :: "BookmarkGroup \<Rightarrow> dstate \<Rightarrow> dstate" where
  "applyBookmarkGroup item s =
     (let groupName = omName (bgMeta item);
          details = ensureLinkGroup (dsDetails s) groupName;
          existing = (case map_of details groupName of
                        Some d \<Rightarrow> d | None \<Rightarrow> (mkLinkGroup [] [])\<lparr>lgDisplayName := []\<rparr>);
          existing = existing\<lparr>lgReplicate := bgsReplicate (bgSpec item)\<rparr>;
          existing = (if bgsProperties (bgSpec item) \<noteq> []
                      then existing\<lparr>lgProperties := bgsProperties (bgSpec item)\<rparr> else existing);
          displayName = TrimSpace (bgsName (bgSpec item));
          existing = (if displayName \<noteq> [] then existing\<lparr>lgDisplayName := displayName\<rparr> else existing) in
      s\<lparr>dsDetails := gm_set details groupName existing\<rparr>)"

definition groupReplicateMap :: "BookmarkGroup list \<Rightarrow> (string, bool) gomap" where
  "groupReplicateMap items =
     fold (\<lambda>item m. gm_set m (omName (bgMeta item)) (bgsReplicate (bgSpec item))) items []"

definition bookmarkLink :: "(string, bool) gomap \<Rightarrow> Bookmark \<Rightarrow> DashboardLink" where
  "bookmarkLink groupReplicate b =
     mkLink (bsName (bmSpec b)) (TrimSpace (bsURL (bmSpec b)))
       (if bsTarget (bmSpec b) = [] then BookmarkLinkTargetSelf else bsTarget (bmSpec b))
       (bsIcon (bmSpec b)) ''bookmark'' (normalizedGroups (AStrs (bsGroups (bmSpec b))))
       (bsReplicate (bmSpec b) \<or> gm_bool groupReplicate (bsGroup (bmSpec b)))"

definition collectBookmark :: "(string, bool) gomap \<Rightarrow> Bookmark \<Rightarrow> dstate \<Rightarrow> dstate" where
  "collectBookmark groupReplicate b s =
     (if bstURLReachable (bmStatus b) \<noteq> Some True then s
      else addLink (TrimSpace (bsGroup (bmSpec b))) (bookmarkLink groupReplicate b) s)"

definition collectBookmarkGroups :: "Reader \<Rightarrow> dstate \<Rightarrow> outcome" where
  "collectBookmarkGroups r s =
     (case rdListBookmarkGroups r of
        Inl e \<Rightarrow> (s, Some e)
      | Inr groupItems \<Rightarrow>
          (let s = fold applyBookmarkGroup groupItems s in
           case rdListBookmarks r of
             Inl e \<Rightarrow> (s, Some e)
           | Inr items \<Rightarrow> (fold (collectBookmark (groupReplicateMap groupItems)) items s, None)))"

subsection \<open>Forecastle apps\<close>

definition parseForecastleRef :: "LocalObjectReference option \<Rightarrow> LocalObjectReference option" where
  "parseForecastleRef ref =
     (case ref of
        None \<Rightarrow> None
      | Some x \<Rightarrow> (if TrimSpace (lorName x) = [] then None else Some \<lparr>lorName = lorName x\<rparr>))"

definition parseForecastleURLSource :: "ForecastleURLSource option \<Rightarrow> URLSource option" where
  "parseForecastleURLSource source =
     map_option (\<lambda>src.
       \<lparr>usIngressRef = parseForecastleRef (fusIngressRef src),
        usRouteRef = parseForecastleRef (fusRouteRef src),
        usIngressRouteRef = parseForecastleRef (fusIngressRouteRef src),
        usHTTPRouteRef = parseForecastleRef (fusHTTPRouteRef src),
        usGRPCRouteRef = None, usServiceRef = None\<rparr>) source"

definition forecastleURL :: "Reader \<Rightarrow> ForecastleApp \<Rightarrow> string" where
  "forecastleURL r item =
     (let url = fsURL (faSpec item) in
      if TrimSpace url = [] then
        (case parseForecastleURLSource (fsURLFrom (faSpec item)) of
           None \<Rightarrow> url
         | Some source \<Rightarrow>
             (case ResolveURLFromSource r (omNamespace (faMeta item)) (Some source) of
                Inr resolved \<Rightarrow> resolved
              | Inl _ \<Rightarrow> url))
      else url)"

definition forecastleTarget :: "ForecastleApp \<Rightarrow> string" where
  "forecastleTarget item =
     (let v = gm_string (fsProperties (faSpec item)) ''target'' in
      if TrimSpace v \<noteq> [] then v else BookmarkLinkTargetBlank)"

definition forecastleLink :: "Reader \<Rightarrow> ForecastleApp \<Rightarrow> DashboardLink" where
  "forecastleLink r item =
     mkLink (fsName (faSpec item)) (forecastleURL r item) (forecastleTarget item)
       (fsIcon (faSpec item)) ''forecastleapp'' (normalizedGroups (AStrs (fsGroups (faSpec item))))
       (gm_string (omAnnotations (faMeta item)) annotationReplicate = ''true'')"

fun collectForecastleItems ::
    "unicode \<Rightarrow> string order \<Rightarrow> Reader \<Rightarrow> string \<Rightarrow> ForecastleApp list \<Rightarrow> dstate \<Rightarrow> dstate" where
  "collectForecastleItems U ch r forecastleInstance [] s = s"
| "collectForecastleItems U ch r forecastleInstance (item # rest) s =
     collectForecastleItems U ch r forecastleInstance rest
       (if forecastleInstance \<noteq> [] \<and> TrimSpace (fsInstance (faSpec item)) \<noteq> forecastleInstance then s
        else
          (let groupName = resolveLinkGroupName U (ord_at ch (length rest))
                 (fsGroup (faSpec item)) (dsDetails s) in
           if TrimSpace (fsName (faSpec item)) = [] \<or> TrimSpace groupName = [] \<or>
              TrimSpace (forecastleURL r item) = [] then s
           else addLink groupName (forecastleLink r item) s))"

definition collectForecastleApps ::
    "unicode \<Rightarrow> string order \<Rightarrow> Reader \<Rightarrow> string \<Rightarrow> dstate \<Rightarrow> outcome" where
  "collectForecastleApps U ch r forecastleInstance s =
     (case rdListForecastleApps r of
        Inl e \<Rightarrow> (s, rdIgnoreNotFound r e)
      | Inr items \<Rightarrow> (collectForecastleItems U ch r forecastleInstance items s, None))"

subsection \<open>Info tiles\<close>

definition infoTile :: "InfoTile \<Rightarrow> DashboardInfoTile" where
  "infoTile item =
     \<lparr>tlName = isName (itSpec item), tlIcon = isIcon (itSpec item), tlURL = isURL (itSpec item),
      tlTarget = defaultTarget (isTarget (itSpec item)), tlSource = isSource (itSpec item),
      tlContent = istContent (itStatus item), tlReplicate = isReplicate (itSpec item)\<rparr>"

definition tileGroup :: "InfoTile \<Rightarrow> string" where
  "tileGroup item =
     (let groupName = TrimSpace (isGroup (itSpec item)) in
      if groupName = [] then omName (itMeta item) else groupName)"

definition collectInfoTiles :: "Reader \<Rightarrow> dstate \<Rightarrow> outcome" where
  "collectInfoTiles r s =
     (case rdListInfoTiles r of
        Inl e \<Rightarrow> (s, Some (Errorf ''list InfoTiles: %w'' [] (Some e)))
      | Inr items \<Rightarrow> (fold (\<lambda>item. addTile (tileGroup item) (infoTile item)) items s, None))"

subsection \<open>Availability of resources\<close>

definition resourceAvailable :: "Discovery option \<Rightarrow> GroupVersion \<Rightarrow> string \<Rightarrow> bool" where
  "resourceAvailable discovery groupVersion kind =
     (case discovery of
        None \<Rightarrow> False
      | Some d \<Rightarrow>
          (case d groupVersion of Inl _ \<Rightarrow> False | Inr kinds \<Rightarrow> List.member kinds kind))"

definition optionalResources :: "(GroupVersion \<times> string) list" where
  "optionalResources =
     [(\<lparr>gvGroup = ''forecastle.stakater.com'', gvVersion = ''v1alpha1''\<rparr>, ''ForecastleApp''),
      (\<lparr>gvGroup = ''networking.k8s.io'', gvVersion = ''v1''\<rparr>, ''Ingress''),
      (\<lparr>gvGroup = ''gateway.networking.k8s.io'', gvVersion = ''v1''\<rparr>, ''HTTPRoute''),
      (\<lparr>gvGroup = ''gateway.networking.k8s.io'', gvVersion = ''v1''\<rparr>, ''GRPCRoute''),
      (\<lparr>gvGroup = ''gateway.networking.k8s.io'', gvVersion = ''v1''\<rparr>, ''TLSRoute''),
      (\<lparr>gvGroup = ''gateway.networking.k8s.io'', gvVersion = ''v1alpha2''\<rparr>, ''TCPRoute''),
      (\<lparr>gvGroup = ''traefik.io'', gvVersion = ''v1alpha1''\<rparr>, ''IngressRoute''),
      (\<lparr>gvGroup = ''traefik.containo.us'', gvVersion = ''v1alpha1''\<rparr>, ''IngressRoute''),
      (\<lparr>gvGroup = ''externaldns.k8s.io'', gvVersion = ''v1alpha1''\<rparr>, ''DNSEndpoint'')]"

text \<open>The resources whose absence is logged at start\<close>

definition logMissingOptionalResources :: "Discovery option \<Rightarrow> (GroupVersion \<times> string) list" where
  "logMissingOptionalResources discovery =
     filter (\<lambda>(gv, kind). \<not> resourceAvailable discovery gv kind) optionalResources"

subsection \<open>Lemmas: consistency and growth\<close>

text \<open>
  The invariant of the maps: no key twice, every group that has links or tiles has details, and
  the details of a group carry its name.
\<close>

definition ds_wf :: "dstate \<Rightarrow> bool" where
  "ds_wf s \<longleftrightarrow>
     gm_wf (dsGroups s) \<and> gm_wf (dsTiles s) \<and> gm_wf (dsDetails s) \<and>
     set (gm_keys (dsGroups s)) \<subseteq> set (gm_keys (dsDetails s)) \<and>
     set (gm_keys (dsTiles s)) \<subseteq> set (gm_keys (dsDetails s)) \<and>
     (\<forall>k d. map_of (dsDetails s) k = Some d \<longrightarrow> lgName d = k)"

abbreviation links :: "dstate \<Rightarrow> string \<Rightarrow> DashboardLink list" where
  "links s \<equiv> gm_list (dsGroups s)"

abbreviation tiles :: "dstate \<Rightarrow> string \<Rightarrow> DashboardInfoTile list" where
  "tiles s \<equiv> gm_list (dsTiles s)"

text \<open>\<open>ds_grows PL PT s s'\<close>: from \<open>s\<close> to \<open>s'\<close> links with \<open>PL\<close> and tiles with \<open>PT\<close> are appended.\<close>

definition ds_grows ::
    "(string \<Rightarrow> DashboardLink \<Rightarrow> bool) \<Rightarrow> (string \<Rightarrow> DashboardInfoTile \<Rightarrow> bool) \<Rightarrow> dstate \<Rightarrow> dstate \<Rightarrow> bool" where
  "ds_grows PL PT s s' \<longleftrightarrow>
     (ds_wf s \<longrightarrow> ds_wf s') \<and>
     (\<forall>g. \<exists>new. links s' g = links s g @ new \<and> list_all (PL g) new) \<and>
     (\<forall>g. \<exists>new. tiles s' g = tiles s g @ new \<and> list_all (PT g) new) \<and>
     set (gm_keys (dsDetails s)) \<subseteq> set (gm_keys (dsDetails s'))"

lemma ds_grows_refl [simp, intro]: "ds_grows PL PT s s"
  by (simp add: ds_grows_def)

lemma ds_grows_trans [trans]:
  assumes "ds_grows PL PT s t" and "ds_grows PL PT t u"
  shows "ds_grows PL PT s u"
proof -
  have "\<exists>new. links u g = links s g @ new \<and> list_all (PL g) new" for g
    using assms unfolding ds_grows_def by (metis append.assoc list_all_append)
  moreover have "\<exists>new. tiles u g = tiles s g @ new \<and> list_all (PT g) new" for g
    using assms unfolding ds_grows_def by (metis append.assoc list_all_append)
  ultimately show ?thesis using assms unfolding ds_grows_def by blast
qed

lemma ds_grows_mono:
  assumes "ds_grows PL PT s t" and "\<And>g l. PL g l \<Longrightarrow> PL' g l" and "\<And>g l. PT g l \<Longrightarrow> PT' g l"
  shows "ds_grows PL' PT' s t"
  using assms unfolding ds_grows_def by (meson list.pred_mono_strong)

lemma ds_grows_fold:
  "(\<And>x s. x \<in> set xs \<Longrightarrow> ds_grows PL PT s (f x s)) \<Longrightarrow> ds_grows PL PT s (fold f xs s)"
proof (induction xs arbitrary: s)
  case (Cons x xs)
  have "ds_grows PL PT s (f x s)" by (rule Cons.prems) simp
  also have "ds_grows PL PT (f x s) (fold f xs (f x s))" using Cons by simp
  finally show ?case by simp
qed simp

lemma gm_keys_set: "set (gm_keys (gm_set m k v)) = insert k (set (gm_keys m))"
  by (auto simp: set_gm_keys)

lemma gm_keys_append: "set (gm_keys (gm_append m k v)) = insert k (set (gm_keys m))"
  by (simp add: gm_append_def gm_keys_set)

lemma lgName_mkLinkGroup [simp]: "lgName (mkLinkGroup n src) = n"
  by (simp add: mkLinkGroup_def)

lemma ensureLinkGroup_keys:
  "set (gm_keys (ensureLinkGroup m k)) = insert k (set (gm_keys m))"
  by (auto simp: ensureLinkGroup_def gm_keys_set gm_has_iff)

lemma ensureLinkGroup_map_of:
  "map_of (ensureLinkGroup m k) k' =
     (if k' = k \<and> map_of m k = None then Some (mkLinkGroup k ''local'') else map_of m k')"
  by (auto simp: ensureLinkGroup_def gm_has_def)

lemma ensureLinkGroup_wf: "gm_wf m \<Longrightarrow> gm_wf (ensureLinkGroup m k)"
  by (simp add: ensureLinkGroup_def)

lemma addLink_wf: "ds_wf s \<Longrightarrow> ds_wf (addLink g l s)"
  by (auto simp: ds_wf_def addLink_def ensureLinkGroup_wf ensureLinkGroup_keys gm_keys_append
      ensureLinkGroup_map_of split: if_splits)

lemma links_addLink: "links (addLink g l s) g' = links s g' @ (if g' = g then [l] else [])"
  by (simp add: addLink_def gm_list_append)

lemma tiles_addLink [simp]: "dsTiles (addLink g l s) = dsTiles s"
  by (simp add: addLink_def)

lemma details_addLink: "dsDetails (addLink g l s) = ensureLinkGroup (dsDetails s) g"
  by (simp add: addLink_def)

lemma addLink_grows: "PL g l \<Longrightarrow> ds_grows PL PT s (addLink g l s)"
  by (auto simp: ds_grows_def addLink_wf links_addLink details_addLink ensureLinkGroup_keys)

lemma addTile_wf: "ds_wf s \<Longrightarrow> ds_wf (addTile g t s)"
  by (auto simp: ds_wf_def addTile_def gm_keys_set gm_keys_append gm_has_iff split: if_splits)

lemma tiles_addTile: "tiles (addTile g t s) g' = tiles s g' @ (if g' = g then [t] else [])"
  by (simp add: addTile_def gm_list_append)

lemma links_addTile [simp]: "dsGroups (addTile g t s) = dsGroups s"
  by (simp add: addTile_def)

lemma addTile_keys: "set (gm_keys (dsDetails (addTile g t s))) = insert g (set (gm_keys (dsDetails s)))"
  by (auto simp: addTile_def gm_keys_set gm_has_iff)

lemma addTile_grows: "PT g t \<Longrightarrow> ds_grows PL PT s (addTile g t s)"
  by (auto simp: ds_grows_def addTile_wf tiles_addTile addTile_keys)

text \<open>The stronger relation of the collectors that only call \<open>addLink\<close>.\<close>

definition links_added :: "(string \<Rightarrow> DashboardLink \<Rightarrow> bool) \<Rightarrow> dstate \<Rightarrow> dstate \<Rightarrow> bool" where
  "links_added P s s' \<longleftrightarrow>
     (\<exists>gls. (\<forall>(g, l) \<in> set gls. P g l) \<and> s' = fold (\<lambda>(g, l). addLink g l) gls s)"

lemma links_added_refl [simp, intro]: "links_added P s s"
  unfolding links_added_def by (intro exI [of _ "[]"]) simp

lemma links_added_addLink: "P g l \<Longrightarrow> links_added P s (addLink g l s)"
  unfolding links_added_def by (intro exI [of _ "[(g, l)]"]) simp

lemma links_added_trans [trans]:
  assumes "links_added P s t" and "links_added P t u"
  shows "links_added P s u"
proof -
  obtain xs ys where "\<forall>(g, l) \<in> set xs. P g l" "t = fold (\<lambda>(g, l). addLink g l) xs s"
    and "\<forall>(g, l) \<in> set ys. P g l" "u = fold (\<lambda>(g, l). addLink g l) ys t"
    using assms unfolding links_added_def by blast
  then show ?thesis
    unfolding links_added_def by (intro exI [of _ "xs @ ys"]) auto
qed

lemma links_added_fold:
  "(\<And>x s. x \<in> set xs \<Longrightarrow> links_added P s (f x s)) \<Longrightarrow> links_added P s (fold f xs s)"
proof (induction xs arbitrary: s)
  case (Cons x xs)
  have "links_added P s (f x s)" by (rule Cons.prems) simp
  also have "links_added P (f x s) (fold f xs (f x s))" using Cons by simp
  finally show ?case by simp
qed simp

lemma links_added_grows:
  assumes "links_added P s s'"
  shows "ds_grows P PT s s'"
proof -
  obtain gls where "\<forall>(g, l) \<in> set gls. P g l" "s' = fold (\<lambda>(g, l). addLink g l) gls s"
    using assms unfolding links_added_def by blast
  then show ?thesis by (auto intro!: ds_grows_fold addLink_grows)
qed

lemma links_added_tiles: "links_added P s s' \<Longrightarrow> dsTiles s' = dsTiles s"
proof -
  have "dsTiles (fold (\<lambda>(g, l). addLink g l) gls s) = dsTiles s" for gls
    by (induction gls arbitrary: s) auto
  then show "links_added P s s' \<Longrightarrow> dsTiles s' = dsTiles s" by (auto simp: links_added_def)
qed

lemma links_added_details:
  assumes "links_added P s s'"
  shows "map_of (dsDetails s') k \<in>
    (if map_of (dsDetails s) k \<noteq> None then {map_of (dsDetails s) k}
     else {None, Some (mkLinkGroup k ''local'')})"
proof -
  have "map_of (dsDetails (fold (\<lambda>(g, l). addLink g l) gls s)) k \<in>
      (if map_of (dsDetails s) k \<noteq> None then {map_of (dsDetails s) k}
       else {None, Some (mkLinkGroup k ''local'')})" for gls
  proof (induction gls arbitrary: s)
    case (Cons gl gls)
    obtain g l where "gl = (g, l)" by (cases gl)
    with Cons.IH [of "addLink g l s"] show ?case
      by (auto simp: details_addLink ensureLinkGroup_map_of split: if_splits)
  qed simp
  moreover obtain gls where "s' = fold (\<lambda>(g, l). addLink g l) gls s"
    using assms unfolding links_added_def by blast
  ultimately show ?thesis by simp
qed

subsection \<open>The contracts of the collectors\<close>

locale collector_step =
  fixes step :: "dstate \<Rightarrow> outcome"
    and PL :: "string \<Rightarrow> DashboardLink \<Rightarrow> bool"
    and PT :: "string \<Rightarrow> DashboardInfoTile \<Rightarrow> bool"
  assumes step_grows: "ds_grows PL PT s (fst (step s))"
begin

lemma step_wf: "ds_wf s \<Longrightarrow> ds_wf (fst (step s))"
  using step_grows [of s] by (simp add: ds_grows_def)

lemma step_links: "\<exists>new. links (fst (step s)) g = links s g @ new \<and> list_all (PL g) new"
  using step_grows [of s] by (simp add: ds_grows_def)

lemma step_tiles: "\<exists>new. tiles (fst (step s)) g = tiles s g @ new \<and> list_all (PT g) new"
  using step_grows [of s] by (simp add: ds_grows_def)

lemma step_weaken:
  assumes "\<And>g l. PL g l \<Longrightarrow> PL' g l" and "\<And>g t. PT g t \<Longrightarrow> PT' g t"
  shows "collector_step step PL' PT'"
  by unfold_locales (rule ds_grows_mono [OF step_grows assms])

end

locale link_collector =
  fixes collect :: "dstate \<Rightarrow> outcome"
    and P :: "string \<Rightarrow> DashboardLink \<Rightarrow> bool"
  assumes collect_adds: "links_added P s (fst (collect s))"
begin

lemma collect_tiles: "dsTiles (fst (collect s)) = dsTiles s"
  by (rule links_added_tiles [OF collect_adds])

lemma collect_details:
  "map_of (dsDetails s) k = Some d \<Longrightarrow> map_of (dsDetails (fst (collect s))) k = Some d"
  using links_added_details [OF collect_adds, of s k] by simp

end

sublocale link_collector \<subseteq> collector_step collect P "\<lambda>_ _. False"
  by unfold_locales (rule links_added_grows [OF collect_adds])

subsection \<open>The collectors keep their contracts\<close>

definition items_of :: "error + 'a list \<Rightarrow> 'a list" where
  "items_of answer = (case answer of Inl _ \<Rightarrow> [] | Inr items \<Rightarrow> items)"

lemma items_of_simps [simp]: "items_of (Inl e) = []" "items_of (Inr xs) = xs"
  by (simp_all add: items_of_def)

text \<open>The links that an annotation-driven collector makes of a list of metadata.\<close>

definition complete :: "resourceMeta \<Rightarrow> bool" where
  "complete m \<longleftrightarrow> rmGroup m \<noteq> [] \<and> rmName m \<noteq> [] \<and> rmURL m \<noteq> []"

definition linkOf :: "string \<Rightarrow> resourceMeta \<Rightarrow> DashboardLink" where
  "linkOf source m = mkLink (rmName m) (rmURL m) (rmTarget m) (rmIcon m) source [] (rmReplicate m)"

definition from_meta :: "string \<Rightarrow> resourceMeta list \<Rightarrow> string \<Rightarrow> DashboardLink \<Rightarrow> bool" where
  "from_meta source ms g l \<longleftrightarrow> (\<exists>m \<in> set ms. complete m \<and> g = rmGroup m \<and> l = linkOf source m)"

lemma metaLink_eq: "metaLink source m s = (if complete m then addLink (rmGroup m) (linkOf source m) s else s)"
  by (simp add: metaLink_def complete_def linkOf_def)

lemma metaLinks_added:
  "links_added (from_meta source (map f xs)) s (fold (\<lambda>x. metaLink source (f x)) xs s)"
  by (rule links_added_fold) (auto simp: metaLink_eq from_meta_def intro!: links_added_addLink)

lemma metaLinks_links:
  "links (fold (\<lambda>x. metaLink source (f x)) xs s) g =
     links s g @ map (linkOf source) (filter (\<lambda>m. complete m \<and> rmGroup m = g) (map f xs))"
  by (induction xs arbitrary: s) (auto simp: metaLink_eq links_addLink)

interpretation ing: link_collector "collectIngresses r"
    "from_meta ''ingress'' (map ingressMeta (items_of (rdListIngresses r enabledLabels)))" for r
  by unfold_locales (simp add: collectIngresses_def metaLinks_added split: sum.split)

interpretation svc: link_collector "collectServices r"
    "from_meta ''service'' (map serviceMeta (items_of (rdListServices r enabledLabels)))" for r
  by unfold_locales (simp add: collectServices_def metaLinks_added split: sum.split)

interpretation eps: link_collector "collectEndpointSlices r"
    "from_meta ''endpointslice''
       (map (\<lambda>e. resourceMetaFrom (epsMeta e)) (items_of (rdListEndpointSlices r enabledLabels)))" for r
  by unfold_locales (simp add: collectEndpointSlices_def metaLinks_added split: sum.split)

definition routes_of :: "Reader \<Rightarrow> string \<Rightarrow> string \<Rightarrow> string \<Rightarrow> Unstructured list" where
  "routes_of r grp version kind =
     items_of (rdListUnstructured r
       \<lparr>gvkGroup = grp, gvkVersion = version, gvkKind = kind\<rparr> enabledLabels)"

interpretation http: link_collector "collectHTTPRoutes r"
    "from_meta ''httproute''
       (map hostnamesMeta (routes_of r ''gateway.networking.k8s.io'' ''v1'' ''HTTPRouteList''))" for r
  by unfold_locales (simp add: collectHTTPRoutes_def routes_of_def metaLinks_added split: sum.split)

interpretation grpc: link_collector "collectGRPCRoutes r"
    "from_meta ''grpcroute''
       (map hostnamesMeta (routes_of r ''gateway.networking.k8s.io'' ''v1'' ''GRPCRouteList''))" for r
  by unfold_locales (simp add: collectGRPCRoutes_def routes_of_def metaLinks_added split: sum.split)

interpretation tls: link_collector "collectTLSRoutes r"
    "from_meta ''tlsroute''
       (map hostnamesMeta (routes_of r ''gateway.networking.k8s.io'' ''v1'' ''TLSRouteList''))" for r
  by unfold_locales (simp add: collectTLSRoutes_def routes_of_def metaLinks_added split: sum.split)

interpretation tcp: link_collector "collectTCPRoutes r"
    "from_meta ''tcproute'' (map (\<lambda>u. resourceMetaFrom (uMeta u))
       (routes_of r ''gateway.networking.k8s.io'' ''v1alpha2'' ''TCPRouteList''))" for r
  by unfold_locales (simp add: collectTCPRoutes_def routes_of_def metaLinks_added split: sum.split)

interpretation trf: link_collector "collectIngressRoutes r gv"
    "from_meta ''ingressroute''
       (map ingressRouteMeta (routes_of r (gvGroup gv) (gvVersion gv) ''IngressRouteList''))" for r gv
  by unfold_locales (simp add: collectIngressRoutes_def routes_of_def metaLinks_added split: sum.split)

interpretation dns: link_collector "collectDNSEndpoints r"
    "from_meta ''dnsendpoint''
       (map dnsEndpointMeta (routes_of r ''externaldns.k8s.io'' ''v1alpha1'' ''DNSEndpointList''))" for r
  by unfold_locales (simp add: collectDNSEndpoints_def routes_of_def metaLinks_added split: sum.split)

definition from_static :: "StaticLink list \<Rightarrow> string \<Rightarrow> DashboardLink \<Rightarrow> bool" where
  "from_static ls g l \<longleftrightarrow> lnSource l = ''static'' \<and> g \<noteq> [] \<and>
     (\<exists>link \<in> set ls. lnName l = TrimSpace (slName link) \<and> lnURL l = TrimSpace (slURL link) \<and>
        lnName l \<noteq> [] \<and> lnURL l \<noteq> [] \<and> lnGroups l = normalizedGroups (AStrs (slGroups link)) \<and>
        \<not> lnReplicate l)"

lemma collectStaticLinks_added:
  "set ls \<subseteq> set ls0 \<Longrightarrow> links_added (from_static ls0) s (collectStaticLinks U ch ls s)"
proof (induction U ch ls s rule: collectStaticLinks.induct)
  case (2 U ch link rest s)
  let ?t = "(let groupName = resolveLinkGroupName U (ord_at ch (length rest))
            (firstNonEmpty [TrimSpace (slLinkGroup link), TrimSpace (slGroup link)]) (dsDetails s);
          name = TrimSpace (slName link); url = TrimSpace (slURL link) in
      if groupName = [] \<or> name = [] \<or> url = [] then s
      else addLink groupName (mkLink name url (defaultTarget (slTarget link))
          (TrimSpace (slIcon link)) ''static'' (normalizedGroups (AStrs (slGroups link))) False) s)"
  have "links_added (from_static ls0) s ?t"
    using "2.prems" by (auto simp: Let_def from_static_def mkLink_def intro!: links_added_addLink)
  also have "links_added (from_static ls0) ?t (collectStaticLinks U ch rest ?t)"
    using 2 by (simp add: Let_def)
  finally show ?case by (simp add: Let_def)
qed simp

interpretation static: link_collector "\<lambda>s. (collectStaticLinks U ch ls s, None)" "from_static ls" for U ch ls
  by unfold_locales (simp add: collectStaticLinks_added)

definition from_forecastle :: "Reader \<Rightarrow> string \<Rightarrow> string \<Rightarrow> DashboardLink \<Rightarrow> bool" where
  "from_forecastle r forecastleInstance g l \<longleftrightarrow> TrimSpace g \<noteq> [] \<and>
     (\<exists>item \<in> set (items_of (rdListForecastleApps r)).
        (forecastleInstance = [] \<or> TrimSpace (fsInstance (faSpec item)) = forecastleInstance) \<and>
        not_blank (lnName l) \<and> not_blank (lnURL l) \<and> l = forecastleLink r item)"

lemma collectForecastleItems_added:
  "set items \<subseteq> set (items_of (rdListForecastleApps r)) \<Longrightarrow>
     links_added (from_forecastle r inst) s (collectForecastleItems U ch r inst items s)"
proof (induction items arbitrary: s)
  case (Cons item rest)
  let ?gn = "resolveLinkGroupName U (ord_at ch (length rest)) (fsGroup (faSpec item)) (dsDetails s)"
  let ?t = "if inst \<noteq> [] \<and> TrimSpace (fsInstance (faSpec item)) \<noteq> inst then s
        else if TrimSpace (fsName (faSpec item)) = [] \<or> TrimSpace ?gn = [] \<or>
              TrimSpace (forecastleURL r item) = [] then s
           else addLink ?gn (forecastleLink r item) s"
  have "links_added (from_forecastle r inst) s ?t"
    using Cons.prems
    by (auto simp: from_forecastle_def not_blank_def forecastleLink_def mkLink_def
        intro!: links_added_addLink bexI [of _ item])
  also have "links_added (from_forecastle r inst) ?t (collectForecastleItems U ch r inst rest ?t)"
    using Cons.prems by (intro Cons.IH) simp
  finally show ?case by (simp only: collectForecastleItems.simps Let_def)
qed simp

interpretation fct: link_collector "collectForecastleApps U ch r inst" "from_forecastle r inst" for U ch r inst
  by unfold_locales (simp add: collectForecastleApps_def collectForecastleItems_added split: sum.split)

text \<open>Bookmarks change the details of groups that exist, so they only keep the weaker contract.\<close>

definition from_bookmark :: "Reader \<Rightarrow> string \<Rightarrow> DashboardLink \<Rightarrow> bool" where
  "from_bookmark r g l \<longleftrightarrow>
     (\<exists>b \<in> set (items_of (rdListBookmarks r)). bstURLReachable (bmStatus b) = Some True \<and>
        g = TrimSpace (bsGroup (bmSpec b)) \<and>
        l = bookmarkLink (groupReplicateMap (items_of (rdListBookmarkGroups r))) b)"

lemma applyBookmarkGroup_details:
  "map_of (dsDetails (applyBookmarkGroup item s)) k =
     (if k = omName (bgMeta item) then
        (case map_of (ensureLinkGroup (dsDetails s) k) k of
           None \<Rightarrow> None
         | Some d \<Rightarrow> Some (d\<lparr>
             lgReplicate := bgsReplicate (bgSpec item),
             lgProperties := (if bgsProperties (bgSpec item) \<noteq> [] then bgsProperties (bgSpec item)
                              else lgProperties d),
             lgDisplayName := (if TrimSpace (bgsName (bgSpec item)) \<noteq> []
                               then TrimSpace (bgsName (bgSpec item)) else lgDisplayName d)\<rparr>))
      else map_of (dsDetails s) k)"
  by (auto simp: applyBookmarkGroup_def Let_def ensureLinkGroup_map_of split: option.split)

lemma applyBookmarkGroup_keys:
  "set (gm_keys (dsDetails (applyBookmarkGroup item s))) =
     insert (omName (bgMeta item)) (set (gm_keys (dsDetails s)))"
  by (simp add: applyBookmarkGroup_def Let_def gm_keys_set ensureLinkGroup_keys)

lemma applyBookmarkGroup_rest [simp]:
  "dsGroups (applyBookmarkGroup item s) = dsGroups s" "dsTiles (applyBookmarkGroup item s) = dsTiles s"
  by (simp_all add: applyBookmarkGroup_def Let_def)

lemma applyBookmarkGroup_wf:
  assumes "ds_wf s"
  shows "ds_wf (applyBookmarkGroup item s)"
proof -
  have "gm_wf (dsDetails (applyBookmarkGroup item s))"
    using assms by (simp add: applyBookmarkGroup_def Let_def ds_wf_def ensureLinkGroup_wf)
  moreover have "lgName d = k" if "map_of (dsDetails (applyBookmarkGroup item s)) k = Some d" for k d
    using assms that
    by (auto simp: ds_wf_def applyBookmarkGroup_details ensureLinkGroup_map_of
        split: if_splits option.splits)
  ultimately show ?thesis using assms by (auto simp: ds_wf_def applyBookmarkGroup_keys)
qed

lemma applyBookmarkGroup_grows: "ds_grows PL PT s (applyBookmarkGroup item s)"
  by (auto simp: ds_grows_def applyBookmarkGroup_wf applyBookmarkGroup_keys)

interpretation bm: collector_step "collectBookmarkGroups r" "from_bookmark r" "\<lambda>_ _. False" for r
proof unfold_locales
  fix s
  let ?gs = "items_of (rdListBookmarkGroups r)"
  have *: "ds_grows (from_bookmark r) (\<lambda>_ _. False) s (fold applyBookmarkGroup ?gs s)"
    by (rule ds_grows_fold) (rule applyBookmarkGroup_grows)
  also have "ds_grows (from_bookmark r) (\<lambda>_ _. False) (fold applyBookmarkGroup ?gs s)
      (fold (collectBookmark (groupReplicateMap ?gs)) (items_of (rdListBookmarks r)) (fold applyBookmarkGroup ?gs s))"
    by (rule ds_grows_fold)
      (auto simp: collectBookmark_def from_bookmark_def intro!: addLink_grows)
  finally show "ds_grows (from_bookmark r) (\<lambda>_ _. False) s (fst (collectBookmarkGroups r s))"
    using * by (auto simp: collectBookmarkGroups_def Let_def split: sum.split)
qed

text \<open>
  A bookmark whose group is written with blanks around it is filed under the group of that name and
  does not inherit that group's replication flag.
\<close>

lemma groupReplicateMap_keys:
  "map_of (groupReplicateMap items) k \<noteq> None \<Longrightarrow> \<exists>item \<in> set items. omName (bgMeta item) = k"
proof -
  have "map_of (fold (\<lambda>item m. gm_set m (omName (bgMeta item)) (bgsReplicate (bgSpec item))) items m) k \<noteq> None \<Longrightarrow>
      map_of m k \<noteq> None \<or> (\<exists>item \<in> set items. omName (bgMeta item) = k)" for m
    by (induction items arbitrary: m) (fastforce split: if_splits)+
  from this [of "[]"] show "map_of (groupReplicateMap items) k \<noteq> None \<Longrightarrow> \<exists>item \<in> set items. omName (bgMeta item) = k"
    by (simp add: groupReplicateMap_def)
qed

lemma padded_group_not_inherited:
  assumes "TrimSpace (bsGroup (bmSpec b)) \<noteq> bsGroup (bmSpec b)"
    and "\<And>item. item \<in> set items \<Longrightarrow> TrimSpace (omName (bgMeta item)) = omName (bgMeta item)"
  shows "lnReplicate (bookmarkLink (groupReplicateMap items) b) = bsReplicate (bmSpec b)"
proof -
  have "map_of (groupReplicateMap items) (bsGroup (bmSpec b)) = None"
    using groupReplicateMap_keys [of items "bsGroup (bmSpec b)"] assms by fastforce
  then show ?thesis by (simp add: bookmarkLink_def mkLink_def gm_bool_def)
qed

definition from_infotile :: "Reader \<Rightarrow> string \<Rightarrow> DashboardInfoTile \<Rightarrow> bool" where
  "from_infotile r g t \<longleftrightarrow>
     (\<exists>item \<in> set (items_of (rdListInfoTiles r)). g = tileGroup item \<and> t = infoTile item)"

interpretation tile: collector_step "collectInfoTiles r" "\<lambda>_ _. False" "from_infotile r" for r
proof unfold_locales
  fix s
  show "ds_grows (\<lambda>_ _. False) (from_infotile r) s (fst (collectInfoTiles r s))"
    by (auto simp: collectInfoTiles_def from_infotile_def intro!: ds_grows_fold addTile_grows
        split: sum.split)
qed

subsection \<open>Properties\<close>

lemma extractHost_same: "extractHostFromTraefikMatch = ExtractHostFromTraefikMatch"
  by (intro ext) (simp add: extractHostFromTraefikMatch_def ExtractHostFromTraefikMatch_def)

lemma collectBookmark_links:
  "links (fold (collectBookmark m) bs s) g =
     links s g @ map (bookmarkLink m)
       (filter (\<lambda>b. bstURLReachable (bmStatus b) = Some True \<and> TrimSpace (bsGroup (bmSpec b)) = g) bs)"
  by (induction bs arbitrary: s) (auto simp: collectBookmark_def links_addLink)

lemma fold_applyBookmarkGroup_rest [simp]:
  "dsGroups (fold applyBookmarkGroup gs s) = dsGroups s" "dsTiles (fold applyBookmarkGroup gs s) = dsTiles s"
  by (induction gs arbitrary: s) auto

text \<open>
  The ingress collector is exact. After a successful listing, every group has its former links
  followed by one link for each labelled ingress of that group that has a name and a URL, in the
  order of the listing, with the URL annotation or else the first non-blank host of its rules; a
  failed listing changes nothing.
\<close>

theorem collectIngresses_exact:
  "case rdListIngresses r [(labelEnabled, ''true'')] of
     Inl e \<Rightarrow> collectIngresses r s = (s, Some e)
   | Inr items \<Rightarrow>
       snd (collectIngresses r s) = None \<and>
       links (fst (collectIngresses r s)) g =
         links s g @ map (linkOf ''ingress'')
           (filter (\<lambda>m. complete m \<and> rmGroup m = g) (map ingressMeta items))"
  by (simp add: collectIngresses_def enabledLabels_def metaLinks_links split: sum.split)

text \<open>
  The collector and the webhook resolve ingresses alike. For an ingress without a URL
  annotation, the URL on the dashboard is the one \<open>resolveIngressURL\<close> returns for a reference to it,
  and is empty exactly if that fails.
\<close>

theorem ingressMeta_resolves:
  assumes "rdGetIngress r ns name = Inr ing"
    and "gm_string (omAnnotations (ingMeta ing)) annotationURL = []"
  shows "(case resolveIngressURL r ns name of Inr url \<Rightarrow> url | Inl _ \<Rightarrow> []) = rmURL (ingressMeta ing)"
  using assms
  by (simp add: resolveIngressURL_def ingressMeta_def orHost_def resourceMetaFrom_def Let_def
      split: option.split)

theorem ingressMeta_resolves_witness:
  "rmURL (ingressMeta \<lparr>ingMeta = \<lparr>omNamespace = ''apps'', omName = ''shop'', omAnnotations = []\<rparr>,
     ingRuleHosts = ['' '', ''shop.example'']\<rparr>) = ''https://shop.example''"
proof -
  let ?ing = "\<lparr>ingMeta = \<lparr>omNamespace = ''apps'', omName = ''shop'', omAnnotations = []\<rparr>,
     ingRuleHosts = ['' '', ''shop.example'']\<rparr>"
  have "rdGetIngress exampleReader ''apps'' ''shop'' = Inr ?ing"
    by (simp add: exampleReader_def)
  moreover have "gm_string (omAnnotations (ingMeta ?ing)) annotationURL = []"
    by (simp add: gm_string_def)
  moreover have "(case resolveIngressURL exampleReader ''apps'' ''shop'' of Inr url \<Rightarrow> url | Inl _ \<Rightarrow> []) =
      ''https://shop.example''" by code_simp
  ultimately show ?thesis using ingressMeta_resolves [of exampleReader "''apps''" "''shop''" ?ing] by simp
qed

text \<open>
  The collector and the webhook agree on Traefik routes too: of the same routes they take the
  same host.
\<close>

theorem firstTraefikHost_agrees:
  "firstTraefikHost extractHostFromTraefikMatch rs = firstTraefikHost ExtractHostFromTraefikMatch rs"
  by (simp add: extractHost_same)

text \<open>
  The bookmark collector is exact. If both listings succeed, every group has its former links
  followed by one link for each bookmark with that (trimmed) group whose URL is confirmed
  reachable, in the order of the listing.
\<close>

theorem collectBookmarkGroups_exact:
  assumes "rdListBookmarkGroups r = Inr groupItems" and "rdListBookmarks r = Inr items"
  shows "snd (collectBookmarkGroups r s) = None \<and>
    links (fst (collectBookmarkGroups r s)) g =
      links s g @ map (bookmarkLink (groupReplicateMap groupItems))
        (filter (\<lambda>b. bstURLReachable (bmStatus b) = Some True \<and> TrimSpace (bsGroup (bmSpec b)) = g) items)"
  using assms by (simp add: collectBookmarkGroups_def Let_def collectBookmark_links)

theorem collectBookmarkGroups_exact_witness:
  "links (fst (collectBookmarkGroups exampleReader \<lparr>dsGroups = [], dsTiles = [], dsDetails = []\<rparr>)) ''x'' = []"
proof -
  have "rdListBookmarkGroups exampleReader = Inr []" "rdListBookmarks exampleReader = Inr []"
    by (simp_all add: exampleReader_def)
  from collectBookmarkGroups_exact [OF this] show ?thesis by simp
qed

end
