(* ===== verification/Sync.thy ===== *)
theory Sync
  imports Dashboard_Data
begin

text \<open>
  \<open>web/sync.go\<close>: the client that polls peer instances and caches their dashboards, and the TLS
  configuration of both directions. DNS, HTTP, the JSON decoder, the file system and the certificate
  parsers are the fields of a \<open>SyncWorld\<close>; every round of the poll loop has its own, because peers
  answer differently each time. The cache is behind a mutex, so each access is one step. The locale
  \<open>polled_cache\<close> is what the dashboard relies on. The handler that serves peers is in
  \<open>Http_Handler\<close>.
\<close>

record SyncTLSOptions =
  stCA :: string
  stCert :: string
  stKey :: string
  stAuthCert :: string
  stAuthKey :: string

record SyncOptions =
  soBindAddress :: string
  soURLs :: "string list"
  soSRVRecords :: "string list"
  soTLS :: SyncTLSOptions

subsection \<open>TLS\<close>

datatype ClientAuthType = NoClientCert | RequireAndVerifyClientCert

text \<open>Certificates and pools are the bytes they are parsed from.\<close>

record TLSConfig =
  tcRootCAs :: "string option"
  tcCertificates :: "(string \<times> string) list"
  tcClientCAs :: "string option"
  tcClientAuth :: ClientAuthType

definition emptyTLSConfig :: TLSConfig where
  "emptyTLSConfig =
     \<lparr>tcRootCAs = None, tcCertificates = [], tcClientCAs = None, tcClientAuth = NoClientCert\<rparr>"

text \<open>
  \<open>swReadFile\<close> is \<open>os.ReadFile\<close>, \<open>swPEM\<close> is whether \<open>AppendCertsFromPEM\<close> finds a certificate,
  \<open>swKeyPair\<close> is \<open>tls.LoadX509KeyPair\<close>; \<open>swNewRequest\<close>, \<open>swDo\<close> and \<open>swDecode\<close> are the error of
  \<open>http.NewRequestWithContext\<close>, \<open>Client.Do\<close> (status code and body, for a client with the given TLS
  configuration) and the JSON decoder; \<open>swLookupSRV\<close> is the resolver.
\<close>

record SyncWorld =
  swReadFile :: "string \<Rightarrow> error + string"
  swPEM :: "string \<Rightarrow> bool"
  swKeyPair :: "string \<Rightarrow> string \<Rightarrow> error + (string \<times> string)"
  swNewRequest :: "string \<Rightarrow> error option"
  swDo :: "TLSConfig option \<Rightarrow> string \<Rightarrow> error + (int \<times> string)"
  swDecode :: "string \<Rightarrow> error + DashboardResponse"
  swLookupSRV :: "string \<Rightarrow> error + (string \<times> uint16) list"

definition loadCertPool :: "SyncWorld \<Rightarrow> string \<Rightarrow> error + string" where
  "loadCertPool w path =
     (case swReadFile w path of
        Inl e \<Rightarrow> Inl (Errorf ''reading CA certificate from %s: %w'' [path] (Some e))
      | Inr d \<Rightarrow>
          (if swPEM w d then Inr d
           else Inl (Errorf ''parsing CA certificate from %s'' [path] None)))"

definition buildClientTLSConfig ::
    "SyncWorld \<Rightarrow> string \<Rightarrow> string \<Rightarrow> string \<Rightarrow> error + TLSConfig" where
  "buildClientTLSConfig w ca certFile keyFile =
     (case (if ca \<noteq> [] then map_sum id Some (loadCertPool w ca) else Inr None) of
        Inl e \<Rightarrow> Inl e
      | Inr roots \<Rightarrow>
          (if certFile \<noteq> [] \<and> keyFile \<noteq> [] then
             (case swKeyPair w certFile keyFile of
                Inl e \<Rightarrow> Inl (Errorf ''loading sync client certificate: %w'' [] (Some e))
              | Inr cert \<Rightarrow> Inr (emptyTLSConfig\<lparr>tcRootCAs := roots, tcCertificates := [cert]\<rparr>))
           else Inr (emptyTLSConfig\<lparr>tcRootCAs := roots\<rparr>)))"

text \<open>The client is its transport's TLS configuration; \<open>None\<close> is the default one.\<close>

definition buildSyncHTTPClient :: "SyncWorld \<Rightarrow> SyncTLSOptions \<Rightarrow> error + TLSConfig option" where
  "buildSyncHTTPClient w opts =
     (let (authCert, authKey) =
            (if stAuthCert opts = [] \<and> stAuthKey opts = [] then (stCert opts, stKey opts)
             else (stAuthCert opts, stAuthKey opts)) in
      if stCA opts \<noteq> [] \<or> authCert \<noteq> [] \<and> authKey \<noteq> [] then
        map_sum id Some (buildClientTLSConfig w (stCA opts) authCert authKey)
      else Inr None)"

definition BuildSyncServerTLSConfig :: "SyncWorld \<Rightarrow> SyncTLSOptions \<Rightarrow> error + TLSConfig option" where
  "BuildSyncServerTLSConfig w opts =
     (if stCert opts = [] \<or> stKey opts = [] then Inr None
      else
        (case swKeyPair w (stCert opts) (stKey opts) of
           Inl e \<Rightarrow> Inl (Errorf ''loading sync server certificate: %w'' [] (Some e))
         | Inr cert \<Rightarrow>
             (let tlsConfig = emptyTLSConfig\<lparr>tcCertificates := [cert]\<rparr> in
              if stCA opts \<noteq> [] then
                (case loadCertPool w (stCA opts) of
                   Inl e \<Rightarrow> Inl e
                 | Inr pool \<Rightarrow>
                     Inr (Some (tlsConfig\<lparr>tcClientCAs := Some pool,
                                          tcClientAuth := RequireAndVerifyClientCert\<rparr>)))
              else Inr (Some tlsConfig))))"

subsection \<open>The polling client\<close>

record SyncClient =
  scOptions :: SyncOptions
  scHTTPClient :: "TLSConfig option"
  scCache :: "(string, DashboardResponse) gomap"

definition NewSyncClient :: "SyncWorld \<Rightarrow> SyncOptions \<Rightarrow> error + SyncClient" where
  "NewSyncClient w options =
     (case buildSyncHTTPClient w (soTLS options) of
        Inl e \<Rightarrow> Inl e
      | Inr hc \<Rightarrow> Inr \<lparr>scOptions = options, scHTTPClient = hc, scCache = []\<rparr>)"

definition lookupSRVPeers :: "SyncWorld \<Rightarrow> string \<Rightarrow> string list" where
  "lookupSRVPeers w record =
     (case swLookupSRV w record of
        Inl _ \<Rightarrow> []
      | Inr addrs \<Rightarrow>
          map (\<lambda>(target, port). ''https://'' @ TrimSuffix target ''.'' @ '':'' @ Itoa (uint port)) addrs)"

text \<open>The closure \<open>add\<close>: the slice \<open>peers\<close> and the set \<open>seen\<close> have the same elements.\<close>

definition addPeer :: "string \<Rightarrow> string list \<Rightarrow> string list" where
  "addPeer u peers =
     (let u = TrimSpace u in if u = [] \<or> List.member peers u then peers else peers @ [u])"

definition discoverPeers :: "SyncWorld \<Rightarrow> SyncClient \<Rightarrow> string list" where
  "discoverPeers w s =
     (let peers = fold addPeer (soURLs (scOptions s)) [] in
      fold (\<lambda>record peers. fold addPeer (lookupSRVPeers w record) peers)
        (soSRVRecords (scOptions s)) peers)"

definition fetchFromPeer :: "SyncWorld \<Rightarrow> SyncClient \<Rightarrow> string \<Rightarrow> error + DashboardResponse" where
  "fetchFromPeer w s peerURL =
     (case swNewRequest w (peerURL @ ''/dashboard'') of
        Some e \<Rightarrow> Inl e
      | None \<Rightarrow>
          (case swDo w (scHTTPClient s) (peerURL @ ''/dashboard'') of
             Inl e \<Rightarrow> Inl e
           | Inr (status, body) \<Rightarrow>
               (if status \<noteq> 200 then Inl (Errorf ''peer returned HTTP %d'' [Itoa status] None)
                else swDecode w body)))"

definition fetchPeer :: "SyncWorld \<Rightarrow> string \<Rightarrow> SyncClient \<Rightarrow> SyncClient" where
  "fetchPeer w peer s =
     (case fetchFromPeer w s peer of
        Inl _ \<Rightarrow> s
      | Inr resp \<Rightarrow> s\<lparr>scCache := gm_set (scCache s) peer resp\<rparr>)"

text \<open>
  Deleting while ranging: every entry is visited once, whatever the order, and goes if its peer is
  not in the set.
\<close>

definition fetchAll :: "SyncWorld \<Rightarrow> SyncClient \<Rightarrow> SyncClient" where
  "fetchAll w s =
     (let peers = discoverPeers w s;
          s = fold (fetchPeer w) peers s in
      s\<lparr>scCache := fold (\<lambda>peer c. if List.member peers peer then c else gm_delete c peer)
                     (gm_keys (scCache s)) (scCache s)\<rparr>)"

text \<open>\<open>Start\<close>: a first round and one per tick until the context ends; one world per round.\<close>

definition SyncStart :: "SyncWorld list \<Rightarrow> SyncClient \<Rightarrow> SyncClient" where
  "SyncStart rounds s = fold fetchAll rounds s"

definition GetRemoteData :: "SyncClient \<Rightarrow> (string, DashboardResponse) gomap" where
  "GetRemoteData s = fold (\<lambda>(k, v) result. gm_set result k v) (scCache s) []"

subsection \<open>Lemmas\<close>

lemma addPeer_addGroup: "addPeer = addGroup"
  by (intro ext) (simp add: addPeer_def addGroup_def)

lemma discoverPeers_eq:
  "discoverPeers w s =
     fold addGroup (soURLs (scOptions s) @ concat (map (lookupSRVPeers w) (soSRVRecords (scOptions s)))) []"
proof -
  have "fold (\<lambda>record. fold addGroup (lookupSRVPeers w record)) rs ps =
      fold addGroup (concat (map (lookupSRVPeers w) rs)) ps" for rs ps
    by (induction rs arbitrary: ps) auto
  then show ?thesis by (simp add: discoverPeers_def addPeer_addGroup)
qed

lemma distinct_discoverPeers: "distinct (discoverPeers w s)"
  by (simp add: discoverPeers_eq distinct_fold_addGroup)

lemma set_discoverPeers:
  "set (discoverPeers w s) =
     TrimSpace ` (set (soURLs (scOptions s)) \<union>
       (\<Union>record \<in> set (soSRVRecords (scOptions s)). set (lookupSRVPeers w record))) - {[]}"
  unfolding discoverPeers_eq set_fold_addGroup by auto

lemma fetchPeer_keeps [simp]:
  "scOptions (fetchPeer w p s) = scOptions s" "scHTTPClient (fetchPeer w p s) = scHTTPClient s"
  by (simp_all add: fetchPeer_def split: sum.split)

lemma fold_fetchPeer_keeps [simp]:
  "scOptions (fold (fetchPeer w) ps s) = scOptions s"
  "scHTTPClient (fold (fetchPeer w) ps s) = scHTTPClient s"
  by (induction ps arbitrary: s) auto

lemma fetchAll_keeps [simp]:
  "scOptions (fetchAll w s) = scOptions s" "scHTTPClient (fetchAll w s) = scHTTPClient s"
  by (simp_all add: fetchAll_def Let_def)

lemma fetchFromPeer_cong:
  "scHTTPClient s = scHTTPClient s' \<Longrightarrow> fetchFromPeer w s = fetchFromPeer w s'"
  by (intro ext) (simp add: fetchFromPeer_def cong: option.case_cong)

lemma discoverPeers_cong: "scOptions s = scOptions s' \<Longrightarrow> discoverPeers w s = discoverPeers w s'"
  by (simp add: discoverPeers_def)

lemma fold_fetchPeer_cache:
  "map_of (scCache (fold (fetchPeer w) ps s)) p =
     (if p \<in> set ps then
        (case fetchFromPeer w s p of Inr resp \<Rightarrow> Some resp | Inl _ \<Rightarrow> map_of (scCache s) p)
      else map_of (scCache s) p)"
proof (induction ps arbitrary: s)
  case (Cons q ps)
  have eq: "fetchFromPeer w (fetchPeer w q s) = fetchFromPeer w s"
    by (rule fetchFromPeer_cong) simp
  have "map_of (scCache (fetchPeer w q s)) p =
      (if p = q then (case fetchFromPeer w s q of Inr resp \<Rightarrow> Some resp | Inl _ \<Rightarrow> map_of (scCache s) q)
       else map_of (scCache s) p)"
    by (simp add: fetchPeer_def split: sum.split)
  then show ?case by (auto simp: Cons.IH [of "fetchPeer w q s"] eq split: sum.split)
qed simp

lemma map_of_fold_delete:
  "map_of (fold (\<lambda>p c. if p \<in> set peers then c else gm_delete c p) ks m) p =
     (if p \<in> set ks \<and> p \<notin> set peers then None else map_of m p)"
  by (induction ks arbitrary: m) auto

lemma fetchAll_cache:
  "map_of (scCache (fetchAll w s)) p =
     (if p \<in> set (discoverPeers w s) then
        (case fetchFromPeer w s p of Inr resp \<Rightarrow> Some resp | Inl _ \<Rightarrow> map_of (scCache s) p)
      else None)"
proof -
  let ?t = "fold (fetchPeer w) (discoverPeers w s) s"
  have "map_of (scCache (fetchAll w s)) p =
      (if p \<in> set (gm_keys (scCache ?t)) \<and> p \<notin> set (discoverPeers w s) then None
       else map_of (scCache ?t) p)"
    by (simp add: fetchAll_def Let_def map_of_fold_delete)
  also have "\<dots> = (if p \<in> set (discoverPeers w s) then map_of (scCache ?t) p else None)"
    by (auto simp: set_gm_keys)
  finally show ?thesis by (simp add: fold_fetchPeer_cache)
qed

lemma fetchAll_wf: "gm_wf (scCache s) \<Longrightarrow> gm_wf (scCache (fetchAll w s))"
proof -
  assume "gm_wf (scCache s)"
  then have "gm_wf (scCache (fold (fetchPeer w) ps s))" for ps
    by (induction ps arbitrary: s) (auto simp: fetchPeer_def split: sum.split)
  moreover have "gm_wf (fold (\<lambda>p c. if p \<in> set ps then c else gm_delete c p) ks m)"
    if "gm_wf m" for ps ks and m :: "(string, DashboardResponse) gomap"
    using that by (induction ks arbitrary: m) auto
  ultimately show ?thesis by (simp add: fetchAll_def Let_def)
qed

lemma map_of_fold_gm_set:
  "map_of (fold (\<lambda>(k, v) r. gm_set r k v) xs m) = map_of m ++ map_of (rev xs)"
  by (induction xs arbitrary: m) (auto simp: map_add_def fun_eq_iff split: option.split)

lemma map_of_rev: "distinct (map fst xs) \<Longrightarrow> map_of (rev xs) = map_of xs"
  by (rule map_of_inject_set [THEN iffD2]) (simp_all flip: rev_map)

lemma GetRemoteData_map_of: "gm_wf (scCache s) \<Longrightarrow> map_of (GetRemoteData s) = map_of (scCache s)"
  by (simp add: GetRemoteData_def map_of_fold_gm_set map_of_rev gm_wf_def gm_keys_def)

lemma GetRemoteData_wf: "gm_wf (GetRemoteData s)"
proof -
  have "gm_wf (fold (\<lambda>(k, v) r. gm_set r k v) xs m)" if "gm_wf m" for xs and m :: "('a, 'b) gomap"
    using that by (induction xs arbitrary: m) auto
  from this [of "[]"] show ?thesis by (simp add: GetRemoteData_def)
qed

subsection \<open>The cache as the dashboard sees it\<close>

text \<open>
  The contract of a cache that is refreshed in rounds: a round stores the answers of the peers it
  finds, keeps the old answer of a peer that fails, and forgets the rest. Inside the locale: what
  holds after any number of rounds.
\<close>

locale polled_cache =
  fixes ok :: "'c \<Rightarrow> bool"
    and snapshot :: "'c \<Rightarrow> (string, DashboardResponse) gomap"
    and refresh :: "'w \<Rightarrow> 'c \<Rightarrow> 'c"
    and peers :: "'w \<Rightarrow> 'c \<Rightarrow> string list"
    and answer :: "'w \<Rightarrow> 'c \<Rightarrow> string \<Rightarrow> DashboardResponse option"
  assumes refresh_ok: "ok c \<Longrightarrow> ok (refresh w c)"
    and refresh_peers: "peers w' (refresh w c) = peers w' c"
    and refresh_answer: "answer w' (refresh w c) = answer w' c"
    and refresh_snapshot: "ok c \<Longrightarrow> map_of (snapshot (refresh w c)) p =
      (if p \<in> set (peers w c) then
         (case answer w c p of Some r \<Rightarrow> Some r | None \<Rightarrow> map_of (snapshot c) p)
       else None)"
begin

lemma rounds_ok: "ok c \<Longrightarrow> ok (fold refresh ws c)"
  by (induction ws arbitrary: c) (auto intro: refresh_ok)

lemma rounds_origin:
  "ok c \<Longrightarrow> map_of (snapshot (fold refresh ws c)) p = Some r \<Longrightarrow>
     (\<exists>w \<in> set ws. p \<in> set (peers w c) \<and> answer w c p = Some r) \<or> map_of (snapshot c) p = Some r"
proof (induction ws arbitrary: c)
  case (Cons w ws)
  from Cons.IH [OF refresh_ok [OF Cons.prems(1)]] Cons.prems(2)
  have "(\<exists>v \<in> set ws. p \<in> set (peers v c) \<and> answer v c p = Some r) \<or>
      map_of (snapshot (refresh w c)) p = Some r"
    by (simp add: refresh_peers refresh_answer)
  then show ?case
    using Cons.prems(1) by (auto simp: refresh_snapshot split: if_splits option.splits)
qed simp

lemma rounds_current:
  assumes "ok c"
  shows "map_of (snapshot (fold refresh (ws @ [w]) c)) p = Some r \<Longrightarrow> p \<in> set (peers w c)"
proof -
  have "peers v (fold refresh ws d) = peers v d" for v d
    by (induction ws arbitrary: d) (simp_all add: refresh_peers)
  then show "map_of (snapshot (fold refresh (ws @ [w]) c)) p = Some r \<Longrightarrow> p \<in> set (peers w c)"
    using rounds_ok [OF assms] by (simp add: refresh_snapshot split: if_splits)
qed

end

interpretation pc: polled_cache "\<lambda>s. gm_wf (scCache s)" GetRemoteData fetchAll discoverPeers
    "\<lambda>w s p. case fetchFromPeer w s p of Inr r \<Rightarrow> Some r | Inl _ \<Rightarrow> None"
proof unfold_locales
  fix c w p w'
  show "gm_wf (scCache c) \<Longrightarrow> gm_wf (scCache (fetchAll w c))" by (rule fetchAll_wf)
  show "discoverPeers w' (fetchAll w c) = discoverPeers w' c" by (rule discoverPeers_cong) simp
  show "(\<lambda>p. case fetchFromPeer w' (fetchAll w c) p of Inr r \<Rightarrow> Some r | Inl _ \<Rightarrow> None) =
      (\<lambda>p. case fetchFromPeer w' c p of Inr r \<Rightarrow> Some r | Inl _ \<Rightarrow> None)"
    using fetchFromPeer_cong [of "fetchAll w c" c w'] by simp
  assume "gm_wf (scCache c)"
  then show "map_of (GetRemoteData (fetchAll w c)) p =
      (if p \<in> set (discoverPeers w c) then
         (case case fetchFromPeer w c p of Inr r \<Rightarrow> Some r | Inl _ \<Rightarrow> None of
            Some r \<Rightarrow> Some r | None \<Rightarrow> map_of (GetRemoteData c) p)
       else None)"
    by (simp add: GetRemoteData_map_of fetchAll_wf fetchAll_cache split: sum.split)
qed

subsection \<open>A concrete instance\<close>

definition exampleDashboard :: DashboardResponse where
  "exampleDashboard = \<lparr>drLinkGroups = [], drGroups = []\<rparr>"

text \<open>A world in which the peer \<open>https://a\<close> answers and every other one is down\<close>

definition exampleWorld :: SyncWorld where
  "exampleWorld =
     \<lparr>swReadFile = (\<lambda>path. Inr path), swPEM = (\<lambda>d. True), swKeyPair = (\<lambda>c k. Inr (c, k)),
      swNewRequest = (\<lambda>url. None),
      swDo = (\<lambda>tls url. if url = ''https://a/dashboard'' then Inr (200, ''{}'') else Inl (External ''down'')),
      swDecode = (\<lambda>body. Inr exampleDashboard), swLookupSRV = (\<lambda>record. Inr [])\<rparr>"

definition exampleTLS :: SyncTLSOptions where
  "exampleTLS = \<lparr>stCA = ''ca.pem'', stCert = ''tls.crt'', stKey = ''tls.key'', stAuthCert = [], stAuthKey = []\<rparr>"

definition exampleClient :: SyncClient where
  "exampleClient =
     \<lparr>scOptions = \<lparr>soBindAddress = [], soURLs = [''https://a'', ''https://b'', ''https://a ''],
        soSRVRecords = [], soTLS = exampleTLS\<lparr>stCA := [], stCert := []\<rparr>\<rparr>,
      scHTTPClient = None, scCache = []\<rparr>"

lemma exampleClient_new: "NewSyncClient exampleWorld (scOptions exampleClient) = Inr exampleClient"
  by (simp add: NewSyncClient_def buildSyncHTTPClient_def exampleClient_def exampleTLS_def)

subsection \<open>Properties\<close>

text \<open>
  C34: one polling round. Afterwards the snapshot holds, for every discovered peer, the dashboard
  it answered with, or what was cached before if the fetch failed (so a peer that is down for a
  while does not vanish), and nothing for a peer that is no longer discovered.
\<close>

theorem fetchAll_snapshot:
  assumes "gm_wf (scCache s)"
  shows "map_of (GetRemoteData (fetchAll w s)) peer =
    (if peer \<in> set (discoverPeers w s) then
       (case fetchFromPeer w s peer of
          Inr resp \<Rightarrow> Some resp
        | Inl _ \<Rightarrow> map_of (GetRemoteData s) peer)
     else None)"
  using pc.refresh_snapshot [OF assms, of w peer] by (simp split: sum.split)

theorem fetchAll_snapshot_witness:
  "map_of (GetRemoteData (fetchAll exampleWorld exampleClient)) ''https://a'' = Some exampleDashboard"
proof -
  have wf: "gm_wf (scCache exampleClient)" by (simp add: exampleClient_def)
  have "fetchFromPeer exampleWorld exampleClient ''https://a'' = Inr exampleDashboard"
    by (simp add: fetchFromPeer_def exampleWorld_def)
  moreover have "List.member (discoverPeers exampleWorld exampleClient) ''https://a''" by code_simp
  ultimately show ?thesis using fetchAll_snapshot [OF wf, of exampleWorld "''https://a''"] by simp
qed

text \<open>
  C33: the cache over the whole life of a client. After any number of rounds, every entry is an
  answer that this very peer gave to a successful fetch in one of them, and the peer is among
  those discovered in the last one.
\<close>

theorem SyncStart_origin:
  assumes "NewSyncClient w0 options = Inr s"
    and "map_of (GetRemoteData (SyncStart (rounds @ [w]) s)) peer = Some resp"
  shows "(\<exists>v \<in> set (rounds @ [w]). peer \<in> set (discoverPeers v s) \<and>
      fetchFromPeer v s peer = Inr resp) \<and>
    peer \<in> set (discoverPeers w s)"
proof -
  have s: "gm_wf (scCache s)" "map_of (GetRemoteData s) peer \<noteq> Some resp"
    using assms(1) by (auto simp: NewSyncClient_def GetRemoteData_def split: sum.splits)
  obtain v where "v \<in> set (rounds @ [w])" "peer \<in> set (discoverPeers v s)"
    and "(case fetchFromPeer v s peer of Inr r \<Rightarrow> Some r | Inl _ \<Rightarrow> None) = Some resp"
    using pc.rounds_origin [OF s(1) assms(2) [unfolded SyncStart_def]] s(2) by blast
  moreover have "peer \<in> set (discoverPeers w s)"
    using pc.rounds_current [OF s(1) assms(2) [unfolded SyncStart_def]] .
  ultimately show ?thesis by (auto split: sum.splits)
qed

theorem SyncStart_origin_witness:
  "''https://a'' \<in> set (discoverPeers exampleWorld exampleClient)"
proof -
  have "map_of (GetRemoteData (SyncStart ([exampleWorld] @ [exampleWorld]) exampleClient)) ''https://a'' =
      Some exampleDashboard" by code_simp
  from SyncStart_origin [OF exampleClient_new this] show ?thesis by blast
qed

text \<open>
  Discovery. The peers are the trimmed, non-empty configured URLs and SRV targets, each once.
\<close>

theorem discoverPeers_exact:
  "distinct (discoverPeers w s) \<and>
   set (discoverPeers w s) =
     TrimSpace ` (set (soURLs (scOptions s)) \<union>
       (\<Union>record \<in> set (soSRVRecords (scOptions s)). set (lookupSRVPeers w record))) - {[]}"
  by (rule conjI [OF distinct_discoverPeers set_discoverPeers])

theorem discoverPeers_exact_witness:
  "set (discoverPeers exampleWorld exampleClient) = {''https://a'', ''https://b''}"
proof -
  have "TrimSpace ''https://a'' = ''https://a''" "TrimSpace ''https://b'' = ''https://b''"
    "TrimSpace ''https://a '' = ''https://a''" by code_simp+
  then show ?thesis
    using discoverPeers_exact [of exampleWorld exampleClient] by (auto simp: exampleClient_def)
qed

text \<open>
  The sync server authenticates its clients whenever a CA is configured: a server
  configuration that is built at all carries the certificate, and demands and verifies client
  certificates against exactly the configured pool if a CA path is given, and never otherwise.
\<close>

theorem BuildSyncServerTLSConfig_mtls:
  assumes "BuildSyncServerTLSConfig w opts = Inr (Some cfg)"
  shows "stCert opts \<noteq> [] \<and> stKey opts \<noteq> [] \<and>
    (\<exists>cert. swKeyPair w (stCert opts) (stKey opts) = Inr cert \<and> tcCertificates cfg = [cert]) \<and>
    (if stCA opts = [] then tcClientAuth cfg = NoClientCert \<and> tcClientCAs cfg = None
     else tcClientAuth cfg = RequireAndVerifyClientCert \<and>
       (\<exists>pool. loadCertPool w (stCA opts) = Inr pool \<and> tcClientCAs cfg = Some pool))"
  using assms
  by (auto simp: BuildSyncServerTLSConfig_def emptyTLSConfig_def Let_def split: if_splits sum.splits)

theorem BuildSyncServerTLSConfig_mtls_witness:
  "\<exists>cfg. BuildSyncServerTLSConfig exampleWorld exampleTLS = Inr (Some cfg) \<and>
     tcClientAuth cfg = RequireAndVerifyClientCert"
proof -
  let ?cfg = "\<lparr>tcRootCAs = None, tcCertificates = [(''tls.crt'', ''tls.key'')],
        tcClientCAs = Some ''ca.pem'', tcClientAuth = RequireAndVerifyClientCert\<rparr>"
  have run: "BuildSyncServerTLSConfig exampleWorld exampleTLS = Inr (Some ?cfg)"
    by (simp add: BuildSyncServerTLSConfig_def loadCertPool_def emptyTLSConfig_def exampleWorld_def
        exampleTLS_def)
  from BuildSyncServerTLSConfig_mtls [OF this] have "tcClientAuth ?cfg = RequireAndVerifyClientCert"
    by (simp add: exampleTLS_def)
  with run show ?thesis by (intro exI [of _ ?cfg] conjI)
qed

end
