(* ===== verification/Fleet.thy ===== *)
theory Fleet
  imports Sync
begin

text \<open>
  \<open>internal/foreigncluster\<close>: the configuration of foreign clusters (\<open>config.go\<close>), Azure workload
  identity tokens (\<open>azure.go\<close>), REST configurations (\<open>client.go\<close>) and the manager that keeps the
  connections (\<open>manager.go\<close>). The environment, the clock, files, HTTP and the constructors of
  client-go and controller-runtime are parameters, one world per attempt. The locale \<open>connector\<close> is
  what the dashboard relies on: who is connected stays connected.
\<close>

subsection \<open>Cluster configuration\<close>

definition authAzureWorkloadIdentity :: string where
  "authAzureWorkloadIdentity = ''azure-workload-identity''"

definition defaultAKSServerAppID :: string where
  "defaultAKSServerAppID = ''6dae42f8-4368-4678-94ff-3960e28e3630''"

record ClusterConfig =
  ccEndpoint :: string
  ccAuthMethod :: string
  ccAzureScope :: string

definition isAzureWorkloadIdentity :: "ClusterConfig \<Rightarrow> bool" where
  "isAzureWorkloadIdentity c \<longleftrightarrow> ccAuthMethod c = authAzureWorkloadIdentity"

definition kubeconfigContext :: "ClusterConfig \<Rightarrow> string" where
  "kubeconfigContext c = (if isAzureWorkloadIdentity c then [] else ccAuthMethod c)"

definition parseClusterEntry :: "string \<Rightarrow> error + ClusterConfig" where
  "parseClusterEntry entry =
     (let (ep, auth, ok) = Cut entry ''='' in
      if \<not> ok \<or> TrimSpace ep = [] \<or> TrimSpace auth = [] then
        Inl (Errorf ''invalid cluster entry %q: expected format endpoint=auth-method'' [entry] None)
      else
        (let cfg = \<lparr>ccEndpoint = TrimSpace ep, ccAuthMethod = TrimSpace auth, ccAzureScope = []\<rparr>;
             (base, scope, hasSep) = Cut (ccAuthMethod cfg) '':'';
             cfg = (if hasSep \<and> base = authAzureWorkloadIdentity
                    then cfg\<lparr>ccAuthMethod := authAzureWorkloadIdentity, ccAzureScope := TrimSpace scope\<rparr>
                    else cfg) in
         Inr (if isAzureWorkloadIdentity cfg \<and> ccAzureScope cfg = []
              then cfg\<lparr>ccAzureScope := defaultAKSServerAppID @ ''/.default''\<rparr> else cfg)))"

fun ParseClusterList :: "string list \<Rightarrow> error + ClusterConfig list" where
  "ParseClusterList [] = Inr []"
| "ParseClusterList (entry # entries) =
     (if TrimSpace entry = [] then ParseClusterList entries
      else
        (case parseClusterEntry (TrimSpace entry) of
           Inl e \<Rightarrow> Inl e
         | Inr cfg \<Rightarrow>
             (case ParseClusterList entries of Inl e \<Rightarrow> Inl e | Inr cfgs \<Rightarrow> Inr (cfg # cfgs))))"

subsection \<open>Azure tokens\<close>

record azureCachedToken =
  atValue :: string
  atExpiresAt :: time

record azureWITokenSource =
  azTenantID :: string
  azClientID :: string
  azTokenFile :: string
  azScope :: string
  azTimeout :: duration
  azCached :: "azureCachedToken option"

text \<open>The HTTP client is its timeout; \<open>None\<close> is a nil client.\<close>

definition newAzureWITokenSource ::
    "(string \<Rightarrow> string) \<Rightarrow> string \<Rightarrow> duration option \<Rightarrow> error + azureWITokenSource" where
  "newAzureWITokenSource Getenv scope httpClient =
     (let tenantID = Getenv ''AZURE_TENANT_ID'';
          clientID = Getenv ''AZURE_CLIENT_ID'';
          tokenFile = Getenv ''AZURE_FEDERATED_TOKEN_FILE'' in
      if tenantID = [] then Inl (Errorf ''AZURE_TENANT_ID environment variable not set'' [] None)
      else if clientID = [] then Inl (Errorf ''AZURE_CLIENT_ID environment variable not set'' [] None)
      else if tokenFile = [] then
        Inl (Errorf ''AZURE_FEDERATED_TOKEN_FILE environment variable not set'' [] None)
      else
        Inr \<lparr>azTenantID = tenantID, azClientID = clientID, azTokenFile = tokenFile, azScope = scope,
             azTimeout = (case httpClient of None \<Rightarrow> 15 * second | Some t \<Rightarrow> t), azCached = None\<rparr>)"

record azureTokenResult =
  arAccessToken :: string
  arExpiresIn :: goint
  arError :: string
  arDescription :: string

text \<open>
  \<open>awNow\<close> and \<open>awNow'\<close> are the two readings of the clock, before and after the exchange;
  \<open>awPostForm\<close> is the error of the request or the body (or the error of reading it), and
  \<open>awUnmarshal\<close> the JSON decoder at the anonymous result type.
\<close>

record AzureWorld =
  awNow :: time
  awNow' :: time
  awReadFile :: "string \<Rightarrow> error + string"
  awPostForm :: "string \<Rightarrow> (string \<times> string) list \<Rightarrow> error + (error + string)"
  awUnmarshal :: "string \<Rightarrow> error + azureTokenResult"

text \<open>\<open>time.Duration(n) * time.Second\<close>, in 64 bits\<close>

definition secondsDuration :: "goint \<Rightarrow> duration" where
  "secondsDuration n = sint (n * 1000000000 :: goint)"

definition exchangeToken :: "AzureWorld \<Rightarrow> azureWITokenSource \<Rightarrow> error + (string \<times> time)" where
  "exchangeToken w s =
     (case awReadFile w (azTokenFile s) of
        Inl e \<Rightarrow> Inl (Errorf ''reading federated token from %s: %w'' [azTokenFile s] (Some e))
      | Inr federatedToken \<Rightarrow>
          (case awPostForm w
                  (''https://login.microsoftonline.com/'' @ azTenantID s @ ''/oauth2/v2.0/token'')
                  [(''grant_type'', ''client_credentials''), (''client_id'', azClientID s),
                   (''client_assertion_type'',
                    ''urn:ietf:params:oauth:client-assertion-type:jwt-bearer''),
                   (''client_assertion'', TrimSpace federatedToken), (''scope'', azScope s)] of
             Inl e \<Rightarrow> Inl (Errorf ''azure token request failed: %w'' [] (Some e))
           | Inr (Inl e) \<Rightarrow> Inl (Errorf ''reading Azure token response: %w'' [] (Some e))
           | Inr (Inr body) \<Rightarrow>
               (case awUnmarshal w (take (64 * 1024) body) of
                  Inl e \<Rightarrow> Inl (Errorf ''parsing Azure token response: %w'' [] (Some e))
                | Inr result \<Rightarrow>
                    (if arError result \<noteq> [] then
                       Inl (Errorf ''azure token error %s: %s'' [arError result, arDescription result] None)
                     else if arAccessToken result = [] then
                       Inl (Errorf ''azure token response contained no access_token'' [] None)
                     else
                       (let expiresIn = (if sint (arExpiresIn result) \<le> 0 then 3600
                                         else arExpiresIn result) in
                        Inr (arAccessToken result, awNow' w + secondsDuration expiresIn))))))"

definition Token :: "AzureWorld \<Rightarrow> azureWITokenSource \<Rightarrow> (error + string) \<times> azureWITokenSource" where
  "Token w s =
     (case azCached s of
        Some c \<Rightarrow>
          (if awNow w < atExpiresAt c + - 30 * second then (Inr (atValue c), s)
           else (case exchangeToken w s of
                   Inl e \<Rightarrow> (Inl e, s)
                 | Inr (token, expiry) \<Rightarrow>
                     (Inr token, s\<lparr>azCached := Some \<lparr>atValue = token, atExpiresAt = expiry\<rparr>\<rparr>)))
      | None \<Rightarrow>
          (case exchangeToken w s of
             Inl e \<Rightarrow> (Inl e, s)
           | Inr (token, expiry) \<Rightarrow>
               (Inr token, s\<lparr>azCached := Some \<lparr>atValue = token, atExpiresAt = expiry\<rparr>\<rparr>)))"

record HTTPRequest =
  rqURL :: string
  rqHeader :: "(string, string) gomap"

text \<open>\<open>base\<close> is the round tripper below; the request it gets is a changed clone.\<close>

definition RoundTrip ::
    "AzureWorld \<Rightarrow> (HTTPRequest \<Rightarrow> error + 'r) \<Rightarrow> HTTPRequest \<Rightarrow> azureWITokenSource \<Rightarrow>
      (error + 'r) \<times> azureWITokenSource" where
  "RoundTrip w base req source =
     (case Token w source of
        (Inl e, source) \<Rightarrow> (Inl (Errorf ''obtaining Bearer token: %w'' [] (Some e)), source)
      | (Inr token, source) \<Rightarrow>
          (base (req\<lparr>rqHeader := gm_set (rqHeader req) ''Authorization'' (''Bearer '' @ token)\<rparr>), source))"

subsection \<open>REST configurations\<close>

datatype Transport =
    HTTPTransport "string option" "(string \<times> string) list" int duration
  | BearerTransport azureWITokenSource Transport
  | WrappedTransport Transport

text \<open>
  \<open>HTTPTransport\<close> has the root CAs and the client certificates of its TLS configuration,
  \<open>MaxIdleConnsPerHost\<close> and \<open>ResponseHeaderTimeout\<close>; \<open>WrappedTransport\<close> is a round tripper that
  \<open>client-go\<close> puts around another one, for headers or logging. Of \<open>rest.TLSClientConfig\<close> the fields that
  \<open>client-go\<close> takes from a kubeconfig are kept.
\<close>

record TLSClientConfig =
  tccInsecure :: bool
  tccServerName :: string
  tccCertFile :: string
  tccKeyFile :: string
  tccCAFile :: string
  tccCertData :: string
  tccKeyData :: string
  tccCAData :: string

definition emptyTLSClientConfig :: TLSClientConfig where
  "emptyTLSClientConfig =
     \<lparr>tccInsecure = False, tccServerName = [], tccCertFile = [], tccKeyFile = [], tccCAFile = [],
      tccCertData = [], tccKeyData = [], tccCAData = []\<rparr>"

record RestConfig =
  rcHost :: string
  rcBearerToken :: string
  rcTLS :: TLSClientConfig
  rcTransport :: "Transport option"

definition tlsTransport :: "string option \<Rightarrow> (string \<times> string) option \<Rightarrow> Transport" where
  "tlsTransport caPool clientCert =
     HTTPTransport caPool (case clientCert of None \<Rightarrow> [] | Some c \<Rightarrow> [c]) 25 (30 * second)"

text \<open>
  \<open>fwClientConfig\<close> is \<open>ClientConfig()\<close> of the deferred loading config for a path and a context
  override (\<open>[]\<close> is none), \<open>fwStat\<close> the error of \<open>os.Stat\<close>, \<open>fwKeyPair\<close> is \<open>tls.X509KeyPair\<close>; the
  last four are the constructors of the HTTP client, the REST mapper, the client and the discovery
  client.
\<close>

record FleetWorld =
  fwGetenv :: "string \<Rightarrow> string"
  fwHomeFile :: string
  fwStat :: "string \<Rightarrow> error option"
  fwClientConfig :: "string \<Rightarrow> string \<Rightarrow> error + RestConfig"
  fwKeyPair :: "string \<Rightarrow> string \<Rightarrow> error + (string \<times> string)"
  fwHTTPClientFor :: "RestConfig \<Rightarrow> error + Transport"
  fwNewMapper :: "RestConfig \<Rightarrow> Transport \<Rightarrow> error + unit"
  fwNewClient :: "RestConfig \<Rightarrow> Transport \<Rightarrow> error + Reader"
  fwNewDiscovery :: "RestConfig \<Rightarrow> Transport \<Rightarrow> error + Discovery"

definition buildAzureRESTConfig ::
    "FleetWorld \<Rightarrow> ClusterConfig \<Rightarrow> string option \<Rightarrow> error + RestConfig" where
  "buildAzureRESTConfig w cfg caPool =
     (case newAzureWITokenSource (fwGetenv w) (ccAzureScope cfg) None of
        Inl e \<Rightarrow> Inl (Errorf ''cluster %s: azure workload identity: %w'' [ccEndpoint cfg] (Some e))
      | Inr tokenSource \<Rightarrow>
          Inr \<lparr>rcHost = ccEndpoint cfg, rcBearerToken = [], rcTLS = emptyTLSClientConfig,
               rcTransport = Some (BearerTransport tokenSource (tlsTransport caPool None))\<rparr>)"

text \<open>The part of \<open>buildKubeconfigRESTConfig\<close> under \<open>if caPool != nil\<close>\<close>

definition overrideTrust ::
    "FleetWorld \<Rightarrow> ClusterConfig \<Rightarrow> string \<Rightarrow> RestConfig \<Rightarrow> error + RestConfig" where
  "overrideTrust w cfg pool restCfg =
     (case (if tccCertData (rcTLS restCfg) \<noteq> [] \<and> tccKeyData (rcTLS restCfg) \<noteq> []
            then map_sum id Some
                   (fwKeyPair w (tccCertData (rcTLS restCfg)) (tccKeyData (rcTLS restCfg)))
            else Inr None) of
        Inl e \<Rightarrow> Inl (Errorf ''cluster %s: loading kubeconfig client certificate: %w''
                    [ccEndpoint cfg] (Some e))
      | Inr clientCert \<Rightarrow>
          Inr (restCfg\<lparr>rcTLS := emptyTLSClientConfig,
                       rcTransport := Some (tlsTransport (Some pool) clientCert)\<rparr>))"

definition buildKubeconfigRESTConfig ::
    "FleetWorld \<Rightarrow> ClusterConfig \<Rightarrow> string option \<Rightarrow> string \<Rightarrow> error + RestConfig" where
  "buildKubeconfigRESTConfig w cfg caPool kubeconfigPath =
     (let contextName = kubeconfigContext cfg;
          kubeconfigPath = (if kubeconfigPath = [] then fwHomeFile w else kubeconfigPath) in
      case fwStat w kubeconfigPath of
        Some e \<Rightarrow> Inl (Errorf ''cluster %s: kubeconfig %q not accessible: %w''
                     [ccEndpoint cfg, kubeconfigPath] (Some e))
      | None \<Rightarrow>
          (case fwClientConfig w kubeconfigPath contextName of
             Inl e \<Rightarrow> Inl (Errorf ''cluster %s: building REST config from kubeconfig context %q: %w''
                         [ccEndpoint cfg, contextName] (Some e))
           | Inr restCfg \<Rightarrow>
               (let restCfg = restCfg\<lparr>rcHost := ccEndpoint cfg\<rparr> in
                case caPool of
                  None \<Rightarrow> Inr restCfg
                | Some pool \<Rightarrow> overrideTrust w cfg pool restCfg)))"

definition BuildRESTConfig ::
    "FleetWorld \<Rightarrow> ClusterConfig \<Rightarrow> string option \<Rightarrow> string \<Rightarrow> error + RestConfig" where
  "BuildRESTConfig w cfg caPool kubeconfigPath =
     (if isAzureWorkloadIdentity cfg then buildAzureRESTConfig w cfg caPool
      else buildKubeconfigRESTConfig w cfg caPool kubeconfigPath)"

subsection \<open>The manager\<close>

record ClusterInfo =
  ciName :: string
  ciClient :: "Reader option"
  ciDiscovery :: "Discovery option"

record clusterHandle =
  chCfg :: ClusterConfig
  chClient :: "Reader option"
  chDiscovery :: "Discovery option"
  chReady :: bool

record Manager =
  mgConfigs :: "ClusterConfig list"
  mgCaPool :: "string option"
  mgKubeconfigPath :: string
  mgHandles :: "clusterHandle list"

definition NewManager :: "ClusterConfig list \<Rightarrow> string option \<Rightarrow> string \<Rightarrow> Manager" where
  "NewManager configs caPool kubeconfigPath =
     \<lparr>mgConfigs = configs, mgCaPool = caPool, mgKubeconfigPath = kubeconfigPath, mgHandles = []\<rparr>"

definition ActiveClusters :: "Manager \<Rightarrow> ClusterInfo list" where
  "ActiveClusters m =
     map (\<lambda>h. \<lparr>ciName = ccEndpoint (chCfg h), ciClient = chClient h, ciDiscovery = chDiscovery h\<rparr>)
       (filter chReady (mgHandles m))"

text \<open>The two clients \<open>connect\<close> stores in the handle, or its error\<close>

definition connectClients ::
    "FleetWorld \<Rightarrow> ClusterConfig \<Rightarrow> string option \<Rightarrow> string \<Rightarrow> error + (Reader \<times> Discovery)" where
  "connectClients w cfg caPool kubeconfigPath =
     (case BuildRESTConfig w cfg caPool kubeconfigPath of
        Inl e \<Rightarrow> Inl e
      | Inr restCfg \<Rightarrow>
          (case (case fwHTTPClientFor w restCfg of
                   Inr hc \<Rightarrow> Inr hc
                 | Inl e \<Rightarrow>
                     (case rcTransport restCfg of
                        Some t \<Rightarrow> Inr t
                      | None \<Rightarrow> Inl (Errorf ''building HTTP client: %w'' [] (Some e)))) of
             Inl e \<Rightarrow> Inl e
           | Inr httpClient \<Rightarrow>
               (case fwNewMapper w restCfg httpClient of
                  Inl e \<Rightarrow> Inl (Errorf ''building REST mapper: %w'' [] (Some e))
                | Inr _ \<Rightarrow>
                    (case fwNewClient w restCfg httpClient of
                       Inl e \<Rightarrow> Inl (Errorf ''building client: %w'' [] (Some e))
                     | Inr c \<Rightarrow>
                         (case fwNewDiscovery w restCfg httpClient of
                            Inl e \<Rightarrow> Inl (Errorf ''building discovery client: %w'' [] (Some e))
                          | Inr dc \<Rightarrow> Inr (c, dc))))))"

text \<open>\<open>h.connect(...)\<close> followed by \<open>h.ready = true\<close> when it succeeds\<close>

definition connectHandle :: "FleetWorld \<Rightarrow> Manager \<Rightarrow> clusterHandle \<Rightarrow> clusterHandle" where
  "connectHandle w m h =
     (case connectClients w (chCfg h) (mgCaPool m) (mgKubeconfigPath m) of
        Inl _ \<Rightarrow> h
      | Inr (c, dc) \<Rightarrow> h\<lparr>chClient := Some c, chDiscovery := Some dc, chReady := True\<rparr>)"

definition connectAll :: "FleetWorld \<Rightarrow> Manager \<Rightarrow> Manager" where
  "connectAll w m =
     m\<lparr>mgHandles := map (\<lambda>cfg. connectHandle w m
         \<lparr>chCfg = cfg, chClient = None, chDiscovery = None, chReady = False\<rparr>) (mgConfigs m)\<rparr>"

definition reconnectDown :: "FleetWorld \<Rightarrow> Manager \<Rightarrow> Manager" where
  "reconnectDown w m =
     m\<lparr>mgHandles := map (\<lambda>h. if chReady h then h else connectHandle w m h) (mgHandles m)\<rparr>"

text \<open>\<open>Start\<close> without the permission checks, which change nothing: one world per tick\<close>

definition ManagerStart :: "FleetWorld \<Rightarrow> FleetWorld list \<Rightarrow> Manager \<Rightarrow> Manager" where
  "ManagerStart w ticks m = fold reconnectDown ticks (connectAll w m)"

definition dashboardProbeResources :: "(string \<times> string \<times> string) list" where
  "dashboardProbeResources =
     [(''networking.k8s.io'', ''v1'', ''Ingress''),
      ([], ''v1'', ''Service''),
      (''gateway.networking.k8s.io'', ''v1'', ''HTTPRoute''),
      (''gateway.networking.k8s.io'', ''v1'', ''GRPCRoute''),
      (''gateway.networking.k8s.io'', ''v1'', ''TLSRoute''),
      (''gateway.networking.k8s.io'', ''v1alpha2'', ''TCPRoute''),
      (''traefik.io'', ''v1alpha1'', ''IngressRoute''),
      (''traefik.containo.us'', ''v1alpha1'', ''IngressRoute'')]"

text \<open>
  The log entries of \<open>checkPermissions\<close> (resource kind and group version); \<open>listOne\<close> is the error of
  listing one object of a kind, \<open>denied\<close> is \<open>IsForbidden\<close> or \<open>IsUnauthorized\<close>.
\<close>

definition checkPermissions ::
    "(GroupVersionKind \<Rightarrow> error option) \<Rightarrow> (error \<Rightarrow> bool) \<Rightarrow> Discovery \<Rightarrow> (string \<times> string) list" where
  "checkPermissions listOne denied disc =
     List.map_filter (\<lambda>(grp, version, kind).
       (case disc \<lparr>gvGroup = grp, gvVersion = version\<rparr> of
          Inl _ \<Rightarrow> None
        | Inr kinds \<Rightarrow>
            (if \<not> List.member kinds kind then None
             else
               (case listOne \<lparr>gvkGroup = grp, gvkVersion = version, gvkKind = kind @ ''List''\<rparr> of
                  None \<Rightarrow> None
                | Some e \<Rightarrow>
                    (if denied e then Some (kind, if grp = [] then version else grp @ ''/'' @ version)
                     else None)))))
       dashboardProbeResources"

text \<open>
  Over all handles that are ready, with the cluster's endpoint in each entry. A ready handle has a
  discovery client, since only \<open>connect\<close> makes it ready.
\<close>

definition checkAllPermissions ::
    "(clusterHandle \<Rightarrow> GroupVersionKind \<Rightarrow> error option) \<Rightarrow> (error \<Rightarrow> bool) \<Rightarrow> Manager \<Rightarrow>
      (string \<times> string \<times> string) list" where
  "checkAllPermissions listOne denied m =
     concat (map (\<lambda>h. case chDiscovery h of
                         Some disc \<Rightarrow> map (Pair (ccEndpoint (chCfg h))) (checkPermissions (listOne h) denied disc)
                       | None \<Rightarrow> [])
               (filter chReady (mgHandles m)))"

definition LoadFleetCAPool ::
    "(string \<Rightarrow> error + string) \<Rightarrow> (string \<Rightarrow> bool) \<Rightarrow> string \<Rightarrow> error + string option" where
  "LoadFleetCAPool ReadFile PEM path =
     (if TrimSpace path = [] then Inr None
      else
        (case ReadFile path of
           Inl e \<Rightarrow> Inl (Errorf ''reading fleet trust store from %s: %w'' [path] (Some e))
         | Inr d \<Rightarrow>
             (if PEM d then Inr (Some d)
              else Inl (Errorf ''no valid PEM certificates found in fleet trust store %s'' [path] None))))"

subsection \<open>Lemmas and the interface\<close>

lemma Cut_found: "Cut s sep = (a, b, True) \<Longrightarrow> s = a @ sep @ b"
  by (auto simp: Cut_def dest: Index_Some_take split: option.splits)

lemma Cut_char: "c \<notin> set p \<Longrightarrow> Cut (p @ c # r) [c] = (p, r, True)"
  by (simp add: Cut_def Index_char)

lemma TrimSpace_azure:
  "TrimSpace authAzureWorkloadIdentity = authAzureWorkloadIdentity" "authAzureWorkloadIdentity \<noteq> []"
  by code_simp+

lemma parseClusterEntry_wf:
  assumes "parseClusterEntry entry = Inr cfg"
  shows "not_blank (ccEndpoint cfg) \<and> not_blank (ccAuthMethod cfg) \<and>
    (isAzureWorkloadIdentity cfg \<longleftrightarrow> ccAzureScope cfg \<noteq> [])"
  using assms TrimSpace_azure
  by (auto simp: parseClusterEntry_def Let_def not_blank_def isAzureWorkloadIdentity_def
      defaultAKSServerAppID_def split: prod.splits if_splits)

lemma ParseClusterList_Inr:
  "ParseClusterList entries = Inr cfgs \<longleftrightarrow>
     map (\<lambda>e. parseClusterEntry (TrimSpace e)) (filter not_blank entries) = map Inr cfgs"
proof (induction entries arbitrary: cfgs)
  case (Cons e es)
  have "(\<exists>x. ParseClusterList es = Inl x) \<longleftrightarrow> (\<forall>cs. ParseClusterList es \<noteq> Inr cs)"
    by (cases "ParseClusterList es") auto
  with Cons.IH show ?case
    by (cases cfgs) (auto simp: not_blank_def split: sum.splits)
qed auto

text \<open>
  The contract between the manager and the dashboard: attempts to connect. A connection once made
  is kept, one that failed is tried again. Inside: the state after any number of attempts.
\<close>

locale connector =
  fixes attempt :: "'w \<Rightarrow> 'h \<Rightarrow> 'h"
    and conn :: "'h \<Rightarrow> 'c option"
    and tried :: "'w \<Rightarrow> 'h \<Rightarrow> 'c option"
  assumes attempt_conn: "conn (attempt w h) = (case conn h of Some c \<Rightarrow> Some c | None \<Rightarrow> tried w h)"
    and attempt_try: "tried w' (attempt w h) = tried w' h"
begin

lemma attempts_conn:
  "conn (fold attempt ws h) =
     (case conn h of
        Some c \<Rightarrow> Some c
      | None \<Rightarrow> (case List.map_filter (\<lambda>w. tried w h) ws of [] \<Rightarrow> None | c # _ \<Rightarrow> Some c))"
  by (induction ws arbitrary: h) (auto simp: attempt_conn attempt_try split: option.split)

end

definition handleConn :: "clusterHandle \<Rightarrow> (Reader option \<times> Discovery option) option" where
  "handleConn h = (if chReady h then Some (chClient h, chDiscovery h) else None)"

definition tryHandle :: "Manager \<Rightarrow> FleetWorld \<Rightarrow> clusterHandle \<Rightarrow> (Reader option \<times> Discovery option) option" where
  "tryHandle m w h =
     (case connectClients w (chCfg h) (mgCaPool m) (mgKubeconfigPath m) of
        Inl _ \<Rightarrow> None | Inr (c, dc) \<Rightarrow> Some (Some c, Some dc))"

definition attemptHandle :: "Manager \<Rightarrow> FleetWorld \<Rightarrow> clusterHandle \<Rightarrow> clusterHandle" where
  "attemptHandle m w h = (if chReady h then h else connectHandle w m h)"

interpretation fleet: connector "attemptHandle m" handleConn "tryHandle m" for m
  by unfold_locales
    (auto simp: attemptHandle_def handleConn_def tryHandle_def connectHandle_def split: sum.split)

lemma reconnectDown_eq: "reconnectDown w m = m\<lparr>mgHandles := map (attemptHandle m w) (mgHandles m)\<rparr>"
  by (simp add: reconnectDown_def attemptHandle_def)

lemma attemptHandle_handles [simp]: "attemptHandle (m\<lparr>mgHandles := hs\<rparr>) = attemptHandle m"
  by (intro ext) (simp add: attemptHandle_def connectHandle_def)

lemma fold_reconnectDown:
  "fold reconnectDown ws m = m\<lparr>mgHandles := map (fold (attemptHandle m) ws) (mgHandles m)\<rparr>"
  by (induction ws arbitrary: m) (simp_all add: reconnectDown_eq)

lemma ManagerStart_handles:
  "mgHandles (ManagerStart w ticks m) =
     map (\<lambda>cfg. fold (attemptHandle m) (w # ticks)
        \<lparr>chCfg = cfg, chClient = None, chDiscovery = None, chReady = False\<rparr>) (mgConfigs m)"
  by (simp add: ManagerStart_def connectAll_def fold_reconnectDown) (simp add: attemptHandle_def)

lemma chCfg_attempts [simp]: "chCfg (fold (attemptHandle m) ws h) = chCfg h"
  by (induction ws arbitrary: h)
    (auto simp: attemptHandle_def connectHandle_def split: sum.split)

lemma map_filter_map_option:
  "List.map_filter (\<lambda>x. map_option g (f x)) xs = map g (List.map_filter f xs)"
  by (induction xs) (auto split: option.split)

lemma map_filter_map: "List.map_filter f (map g xs) = List.map_filter (f \<circ> g) xs"
  by (induction xs) (auto split: option.split)

lemma tryHandle_Some:
  "tryHandle m w h = map_option (map_prod Some Some)
     (case connectClients w (chCfg h) (mgCaPool m) (mgKubeconfigPath m) of
        Inl _ \<Rightarrow> None | Inr cs \<Rightarrow> Some cs)"
  by (auto simp: tryHandle_def split: sum.split)

lemma ActiveClusters_handleConn:
  "ActiveClusters m = List.map_filter (\<lambda>h. map_option (\<lambda>(c, dc).
       \<lparr>ciName = ccEndpoint (chCfg h), ciClient = c, ciDiscovery = dc\<rparr>) (handleConn h)) (mgHandles m)"
proof -
  have "map (\<lambda>h. \<lparr>ciName = ccEndpoint (chCfg h), ciClient = chClient h, ciDiscovery = chDiscovery h\<rparr>)
      (filter chReady hs) = List.map_filter (\<lambda>h. map_option (\<lambda>(c, dc).
       \<lparr>ciName = ccEndpoint (chCfg h), ciClient = c, ciDiscovery = dc\<rparr>) (handleConn h)) hs" for hs
    by (induction hs) (simp_all add: handleConn_def)
  then show ?thesis by (simp add: ActiveClusters_def)
qed

text \<open>What a REST configuration may trust when the fleet has a trust store\<close>

definition trusts_only :: "string \<Rightarrow> RestConfig \<Rightarrow> bool" where
  "trusts_only pool rc \<longleftrightarrow> rcTLS rc = emptyTLSClientConfig \<and>
    (\<exists>certs. rcTransport rc = Some (HTTPTransport (Some pool) certs 25 (30 * second)) \<or>
       (\<exists>src. rcTransport rc = Some (BearerTransport src (HTTPTransport (Some pool) certs 25 (30 * second)))))"

lemma BuildRESTConfig_host:
  "BuildRESTConfig w cfg caPool kubeconfigPath = Inr rc \<Longrightarrow> rcHost rc = ccEndpoint cfg"
  by (auto simp: BuildRESTConfig_def buildAzureRESTConfig_def buildKubeconfigRESTConfig_def
      overrideTrust_def Let_def split: if_splits sum.splits option.splits)

lemma BuildRESTConfig_trusts:
  "BuildRESTConfig w cfg (Some pool) kubeconfigPath = Inr rc \<Longrightarrow> trusts_only pool rc"
  by (auto simp: BuildRESTConfig_def buildAzureRESTConfig_def buildKubeconfigRESTConfig_def
      overrideTrust_def tlsTransport_def trusts_only_def Let_def split: if_splits sum.splits option.splits)

lemma ActiveClusters_started:
  "ActiveClusters (ManagerStart w ticks m) =
     List.map_filter (\<lambda>cfg.
       case List.map_filter (\<lambda>v. case connectClients v cfg (mgCaPool m) (mgKubeconfigPath m) of
              Inl _ \<Rightarrow> None | Inr cs \<Rightarrow> Some cs) (w # ticks) of
         [] \<Rightarrow> None
       | (c, dc) # _ \<Rightarrow> Some \<lparr>ciName = ccEndpoint cfg, ciClient = Some c, ciDiscovery = Some dc\<rparr>)
     (mgConfigs m)"
proof -
  let ?h = "\<lambda>cfg. \<lparr>chCfg = cfg, chClient = None, chDiscovery = None, chReady = False\<rparr>"
  let ?cs = "\<lambda>cfg. List.map_filter (\<lambda>v. case connectClients v cfg (mgCaPool m) (mgKubeconfigPath m) of
      Inl _ \<Rightarrow> None | Inr cs \<Rightarrow> Some cs) (w # ticks)"
  have "List.map_filter (\<lambda>v. tryHandle m v (?h cfg)) (w # ticks) = map (map_prod Some Some) (?cs cfg)" for cfg
    unfolding tryHandle_Some by (simp add: map_filter_map_option del: map_filter_simps)
  then have conn: "handleConn (fold (attemptHandle m) (w # ticks) (?h cfg)) =
      (case ?cs cfg of [] \<Rightarrow> None | c # _ \<Rightarrow> Some (map_prod Some Some c))" for cfg
    unfolding fleet.attempts_conn by (simp add: handleConn_def split: list.split del: map_filter_simps)
  show ?thesis
    unfolding ActiveClusters_handleConn ManagerStart_handles map_filter_map comp_def chCfg_attempts conn
    by (intro map_filter_eqI) (auto split: list.split)
qed

text \<open>
  Under a trust store a client certificate that the kubeconfig gives as files is lost: the files are
  cleared with the TLS settings, and the transport presents no certificate.
\<close>

lemma certificate_files_lost:
  assumes "tccCertData (rcTLS rc) = []"
  shows "overrideTrust w cfg pool rc =
    Inr (rc\<lparr>rcTLS := emptyTLSClientConfig, rcTransport := Some (HTTPTransport (Some pool) [] 25 (30 * second))\<rparr>)"
  using assms by (simp add: overrideTrust_def tlsTransport_def)

text \<open>The root CAs with which the TLS connections below a transport are verified\<close>

fun rootCAs :: "Transport \<Rightarrow> string option" where
  "rootCAs (HTTPTransport pool certs conns timeout) = pool"
| "rootCAs (BearerTransport src t) = rootCAs t"
| "rootCAs (WrappedTransport t) = rootCAs t"

lemma rootCAs_wrapped [simp]: "rootCAs ((WrappedTransport ^^ n) t) = rootCAs t"
  by (induction n) auto

lemma trusts_only_rootCAs: "trusts_only pool rc \<Longrightarrow> \<exists>tr. rcTransport rc = Some tr \<and> rootCAs tr = Some pool"
  by (auto simp: trusts_only_def)

text \<open>
  What \<open>rest.HTTPClientFor\<close> does with a configuration that has a transport of its own: it fails, or
  it returns that transport with wrappers around it.
\<close>

definition keepsTransport :: "FleetWorld \<Rightarrow> bool" where
  "keepsTransport w \<longleftrightarrow> (\<forall>rc tr t. rcTransport rc = Some tr \<longrightarrow> fwHTTPClientFor w rc = Inr t \<longrightarrow>
     (\<exists>n. t = (WrappedTransport ^^ n) tr))"

text \<open>The HTTP client over which a client for a configuration talks\<close>

definition httpClientOf :: "FleetWorld \<Rightarrow> RestConfig \<Rightarrow> Transport \<Rightarrow> bool" where
  "httpClientOf w rc t \<longleftrightarrow>
     fwHTTPClientFor w rc = Inr t \<or> (\<exists>e. fwHTTPClientFor w rc = Inl e) \<and> rcTransport rc = Some t"

lemma httpClientOf_trusts:
  assumes "keepsTransport w" and "trusts_only pool rc" and "httpClientOf w rc t"
  shows "rootCAs t = Some pool"
proof -
  obtain tr where tr: "rcTransport rc = Some tr" "rootCAs tr = Some pool" using trusts_only_rootCAs [OF assms(2)] by blast
  with assms(1,3) have "(\<exists>n. t = (WrappedTransport ^^ n) tr) \<or> t = tr"
    unfolding httpClientOf_def keepsTransport_def by (metis option.inject)
  with tr show ?thesis by auto
qed

lemma connectClients_client:
  assumes "connectClients w cfg caPool kubeconfigPath = Inr (r, d)"
  shows "\<exists>rc t. BuildRESTConfig w cfg caPool kubeconfigPath = Inr rc \<and> httpClientOf w rc t \<and>
    fwNewClient w rc t = Inr r \<and> fwNewDiscovery w rc t = Inr d"
  using assms by (auto simp: connectClients_def httpClientOf_def split: sum.splits option.splits)

text \<open>Where the reader of an active cluster comes from\<close>

lemma ActiveClusters_origin:
  assumes "fc \<in> set (ActiveClusters (ManagerStart w ticks m))"
  shows "\<exists>cfg \<in> set (mgConfigs m). \<exists>v \<in> set (w # ticks). \<exists>rc t r d.
    ciName fc = ccEndpoint cfg \<and> ciClient fc = Some r \<and> ciDiscovery fc = Some d \<and>
    BuildRESTConfig v cfg (mgCaPool m) (mgKubeconfigPath m) = Inr rc \<and> httpClientOf v rc t \<and>
    fwNewClient v rc t = Inr r \<and> fwNewDiscovery v rc t = Inr d"
proof -
  let ?cs = "\<lambda>cfg. List.map_filter (\<lambda>v. case connectClients v cfg (mgCaPool m) (mgKubeconfigPath m) of
      Inl _ \<Rightarrow> None | Inr cs \<Rightarrow> Some cs) (w # ticks)"
  from assms obtain cfg where cfg: "cfg \<in> set (mgConfigs m)" "(case ?cs cfg of [] \<Rightarrow> None
      | (c, dc) # _ \<Rightarrow> Some \<lparr>ciName = ccEndpoint cfg, ciClient = Some c, ciDiscovery = Some dc\<rparr>) = Some fc"
    unfolding ActiveClusters_started set_map_filter_iff by blast
  from cfg(2) obtain r d rest where conn: "?cs cfg = (r, d) # rest"
    and fc: "ciName fc = ccEndpoint cfg" "ciClient fc = Some r" "ciDiscovery fc = Some d"
    by (cases "?cs cfg") (auto simp del: map_filter_simps)
  from conn have "(r, d) \<in> set (?cs cfg)" by simp
  then obtain v where v: "v \<in> set (w # ticks)"
    "(case connectClients v cfg (mgCaPool m) (mgKubeconfigPath m) of
      Inl _ \<Rightarrow> None | Inr cs \<Rightarrow> Some cs) = Some (r, d)"
    unfolding set_map_filter_iff by blast
  then have "connectClients v cfg (mgCaPool m) (mgKubeconfigPath m) = Inr (r, d)"
    by (cases "connectClients v cfg (mgCaPool m) (mgKubeconfigPath m)") auto
  from connectClients_client [OF this] v(1) cfg(1) fc show ?thesis by blast
qed

subsection \<open>Properties\<close>

text \<open>
  Parsing the list of clusters succeeds exactly when every non-blank entry is well formed, and
  then yields one configuration per non-blank entry, in order.
\<close>

theorem ParseClusterList_exact:
  "ParseClusterList entries = Inr cfgs \<longleftrightarrow>
     map (\<lambda>e. parseClusterEntry (TrimSpace e)) (filter not_blank entries) = map Inr cfgs"
  by (rule ParseClusterList_Inr)

text \<open>
  Every configuration the parser returns is usable: endpoint and authentication method are not
  blank, and a token scope is present exactly for Azure workload identity.
\<close>

theorem ParseClusterList_wf:
  assumes "ParseClusterList entries = Inr cfgs" and "cfg \<in> set cfgs"
  shows "not_blank (ccEndpoint cfg) \<and> not_blank (ccAuthMethod cfg) \<and>
    (isAzureWorkloadIdentity cfg \<longleftrightarrow> ccAzureScope cfg \<noteq> [])"
proof -
  have "Inr cfg \<in> set (map (\<lambda>e. parseClusterEntry (TrimSpace e)) (filter not_blank entries))"
    unfolding assms(1) [unfolded ParseClusterList_Inr] using assms(2) by simp
  then obtain e where "parseClusterEntry (TrimSpace e) = Inr cfg" by auto
  then show ?thesis by (rule parseClusterEntry_wf)
qed

definition azureCluster :: ClusterConfig where
  "azureCluster = \<lparr>ccEndpoint = ''https://k8s'', ccAuthMethod = authAzureWorkloadIdentity, ccAzureScope = ''api''\<rparr>"

theorem ParseClusterList_wf_witness:
  "ParseClusterList ['' '', ''https://k8s = azure-workload-identity: api''] = Inr [azureCluster] \<and>
   ccAzureScope azureCluster \<noteq> []"
proof -
  have parse: "ParseClusterList ['' '', ''https://k8s = azure-workload-identity: api''] = Inr [azureCluster]"
    by code_simp
  moreover have "azureCluster \<in> set [azureCluster]" "isAzureWorkloadIdentity azureCluster"
    by (simp_all add: isAzureWorkloadIdentity_def azureCluster_def)
  ultimately show ?thesis using ParseClusterList_wf [OF parse] by blast
qed

text \<open>
  Tokens are never served stale. A token that \<open>Token\<close> returns is either fresh from the token
  endpoint, and then it is what the cache holds from now on, or it is the cached one, which is
  still valid for at least thirty more seconds; an error leaves the cache as it was.
\<close>

theorem Token_fresh:
  "case Token w s of
     (Inr token, s') \<Rightarrow>
       (\<exists>c. azCached s = Some c \<and> token = atValue c \<and> awNow w + 30 * second < atExpiresAt c \<and> s' = s) \<or>
       (\<exists>expiry. exchangeToken w s = Inr (token, expiry) \<and>
          s' = s\<lparr>azCached := Some \<lparr>atValue = token, atExpiresAt = expiry\<rparr>\<rparr>)
   | (Inl e, s') \<Rightarrow> exchangeToken w s = Inl e \<and> s' = s"
  by (auto simp: Token_def second_def split: option.split sum.split prod.split)

text \<open>
  C36: the fleet trust store is never bypassed. With a trust store, every REST configuration that
  is built talks to the configured endpoint over a transport whose root CAs are that store,
  whatever the kubeconfig says.
\<close>

theorem BuildRESTConfig_trust:
  assumes "BuildRESTConfig w cfg (Some pool) kubeconfigPath = Inr rc"
  shows "rcHost rc = ccEndpoint cfg \<and> rcTLS rc = emptyTLSClientConfig \<and>
    (\<exists>certs. rcTransport rc = Some (HTTPTransport (Some pool) certs 25 (30 * second)) \<or>
       (\<exists>src. rcTransport rc = Some (BearerTransport src (HTTPTransport (Some pool) certs 25 (30 * second)))))"
  using BuildRESTConfig_host [OF assms] BuildRESTConfig_trusts [OF assms] by (simp add: trusts_only_def)

definition exampleFleetWorld :: FleetWorld where
  "exampleFleetWorld =
     \<lparr>fwGetenv = (\<lambda>name. ''value''), fwHomeFile = ''config'', fwStat = (\<lambda>path. None),
      fwClientConfig = (\<lambda>path ctx. Inl (External ''no context'')),
      fwKeyPair = (\<lambda>c k. Inr (c, k)), fwHTTPClientFor = (\<lambda>rc. Inl (External ''transport set'')),
      fwNewMapper = (\<lambda>rc t. Inr ()), fwNewClient = (\<lambda>rc t. Inr exampleReader),
      fwNewDiscovery = (\<lambda>rc t. Inr (\<lambda>gv. Inr []))\<rparr>"

theorem BuildRESTConfig_trust_witness:
  "\<exists>rc. BuildRESTConfig exampleFleetWorld azureCluster (Some ''fleet'') [] = Inr rc \<and>
     rcHost rc = ''https://k8s''"
proof -
  obtain rc where rc: "BuildRESTConfig exampleFleetWorld azureCluster (Some ''fleet'') [] = Inr rc"
    by (simp add: BuildRESTConfig_def buildAzureRESTConfig_def newAzureWITokenSource_def
        isAzureWorkloadIdentity_def exampleFleetWorld_def azureCluster_def Let_def)
  from BuildRESTConfig_trust [OF rc] have "rcHost rc = ''https://k8s''"
    by (simp add: azureCluster_def)
  with rc show ?thesis by blast
qed

text \<open>
  C35: the manager over its whole life. After the first attempt and any number of ticks, the active
  clusters are, in configuration order, those for which some attempt succeeded, each with the
  clients of its first success; in particular both clients are present.
\<close>

theorem ActiveClusters_ManagerStart:
  "ActiveClusters (ManagerStart w ticks m) =
     List.map_filter (\<lambda>cfg.
       case List.map_filter (\<lambda>v. case connectClients v cfg (mgCaPool m) (mgKubeconfigPath m) of
              Inl _ \<Rightarrow> None | Inr cs \<Rightarrow> Some cs) (w # ticks) of
         [] \<Rightarrow> None
       | (c, dc) # _ \<Rightarrow> Some \<lparr>ciName = ccEndpoint cfg, ciClient = Some c, ciDiscovery = Some dc\<rparr>)
     (mgConfigs m)"
  by (rule ActiveClusters_started)

end
