(* ===== verification/Dashboard.thy ===== *)
theory Dashboard
  imports Collectors Fleet
begin

text \<open>
  \<open>collectDashboard\<close> of \<open>web/dashboard.go\<close> and what it is made of: the run of the local collectors,
  the merge of the peers' dashboards, the merge of foreign clusters, the restriction to replicated
  entries for the sync endpoint, and the ordered, filtered response. The collectors enter through
  the contract \<open>collector_step\<close>; the two merges are proved to keep it too, so that one lemma about
  sequences of steps covers the whole collection.
\<close>

record dashboardCollector =
  dcReader :: Reader
  dcDiscovery :: "Discovery option"
  dcForecastleInstance :: string
  dcLinkGroups :: "LinkGroup list"
  dcStaticLinks :: "StaticLink list"
  dcSyncClient :: "SyncClient option"
  dcForeignClusters :: "Manager option"

definition newDashboardCollector ::
    "Reader \<Rightarrow> Discovery option \<Rightarrow> Options \<Rightarrow> SyncClient option \<Rightarrow> Manager option \<Rightarrow> dashboardCollector" where
  "newDashboardCollector reader discovery options syncClient foreignClusters =
     \<lparr>dcReader = reader, dcDiscovery = discovery,
      dcForecastleInstance = TrimSpace (foInstance (opForecastle options)),
      dcLinkGroups = opLinkGroups options, dcStaticLinks = opStaticLinks options,
      dcSyncClient = syncClient, dcForeignClusters = foreignClusters\<rparr>"

subsection \<open>The local collectors in sequence\<close>

text \<open>A sequence of collectors ends at the first error.\<close>

fun run_steps :: "(dstate \<Rightarrow> outcome) list \<Rightarrow> dstate \<Rightarrow> outcome" where
  "run_steps [] s = (s, None)"
| "run_steps (f # fs) s =
     (case f s of (s', Some e) \<Rightarrow> (s', Some e) | (s', None) \<Rightarrow> run_steps fs s')"

definition whenAvailable ::
    "Discovery option \<Rightarrow> GroupVersion \<Rightarrow> string \<Rightarrow> (dstate \<Rightarrow> outcome) \<Rightarrow> dstate \<Rightarrow> outcome" where
  "whenAvailable d gv kind f s = (if resourceAvailable d gv kind then f s else (s, None))"

text \<open>The loop over the two Traefik groups, left at the first that is available\<close>

fun collectTraefik :: "Discovery option \<Rightarrow> Reader \<Rightarrow> GroupVersion list \<Rightarrow> dstate \<Rightarrow> outcome" where
  "collectTraefik d r [] s = (s, None)"
| "collectTraefik d r (gv # gvs) s =
     (if resourceAvailable d gv ''IngressRoute'' then collectIngressRoutes r gv s
      else collectTraefik d r gvs s)"

definition traefikGVs :: "GroupVersion list" where
  "traefikGVs =
     [\<lparr>gvGroup = ''traefik.io'', gvVersion = ''v1alpha1''\<rparr>,
      \<lparr>gvGroup = ''traefik.containo.us'', gvVersion = ''v1alpha1''\<rparr>]"

definition forecastleGV :: GroupVersion where
  "forecastleGV = \<lparr>gvGroup = ''forecastle.stakater.com'', gvVersion = ''v1alpha1''\<rparr>"

definition gatewayGV :: "string \<Rightarrow> GroupVersion" where
  "gatewayGV version = \<lparr>gvGroup = ''gateway.networking.k8s.io'', gvVersion = version\<rparr>"

definition localSteps :: "unicode \<Rightarrow> string order \<Rightarrow> dashboardCollector \<Rightarrow> (dstate \<Rightarrow> outcome) list" where
  "localSteps U ch c =
     (let r = dcReader c; d = dcDiscovery c in
      [collectBookmarkGroups r,
       whenAvailable d forecastleGV ''ForecastleApp''
         (collectForecastleApps U (ord_at ch 1) r (dcForecastleInstance c)),
       whenAvailable d \<lparr>gvGroup = ''networking.k8s.io'', gvVersion = ''v1''\<rparr> ''Ingress'' (collectIngresses r),
       whenAvailable d (gatewayGV ''v1'') ''HTTPRoute'' (collectHTTPRoutes r),
       whenAvailable d (gatewayGV ''v1'') ''GRPCRoute'' (collectGRPCRoutes r),
       whenAvailable d (gatewayGV ''v1'') ''TLSRoute'' (collectTLSRoutes r),
       whenAvailable d (gatewayGV ''v1alpha2'') ''TCPRoute'' (collectTCPRoutes r),
       collectTraefik d r traefikGVs,
       collectServices r,
       collectEndpointSlices r,
       whenAvailable d \<lparr>gvGroup = ''externaldns.k8s.io'', gvVersion = ''v1alpha1''\<rparr> ''DNSEndpoint''
         (collectDNSEndpoints r),
       collectInfoTiles r])"

definition initialState :: "dashboardCollector \<Rightarrow> dstate" where
  "initialState c = \<lparr>dsGroups = [], dsTiles = [], dsDetails = initLinkGroups (dcLinkGroups c)\<rparr>"

definition collectLocal :: "unicode \<Rightarrow> string order \<Rightarrow> dashboardCollector \<Rightarrow> outcome" where
  "collectLocal U ch c =
     run_steps (localSteps U ch c)
       (collectStaticLinks U (ord_at ch 0) (dcStaticLinks c) (initialState c))"

subsection \<open>Data of peers and of foreign clusters\<close>

definition remoteDetails ::
    "string \<Rightarrow> (string, DashboardLinkGroup) gomap \<Rightarrow> string \<Rightarrow> DashboardLinkGroup" where
  "remoteDetails source remoteLinkGroups groupName =
     (case map_of remoteLinkGroups groupName of
        Some remoteLG \<Rightarrow>
          \<lparr>lgName = lgName remoteLG, lgPriority = lgPriority remoteLG,
           lgPriorityClass = lgPriorityClass remoteLG, lgDisplayName = lgDisplayName remoteLG,
           lgSource = source, lgProperties = lgProperties remoteLG, lgReplicate = False\<rparr>
      | None \<Rightarrow> mkLinkGroup groupName source)"

definition remoteGroupName :: "DashboardGroup \<Rightarrow> string" where
  "remoteGroupName g = (if dgLinkGroup g = [] then dgName g else dgLinkGroup g)"

definition mergeRemoteGroup ::
    "string \<Rightarrow> (string, DashboardLinkGroup) gomap \<Rightarrow> DashboardGroup \<Rightarrow> dstate \<Rightarrow> dstate" where
  "mergeRemoteGroup source remoteLinkGroups g s =
     (let groupName = remoteGroupName g in
      s\<lparr>dsDetails := (if gm_has (dsDetails s) groupName then dsDetails s
                       else gm_set (dsDetails s) groupName
                              (remoteDetails source remoteLinkGroups groupName)),
        dsGroups := fold (\<lambda>link groups. gm_append groups groupName (link\<lparr>lnSource := source\<rparr>))
                      (dgLinks g) (dsGroups s)\<rparr>)"

definition mergeRemotePeer :: "string \<Rightarrow> DashboardResponse \<Rightarrow> dstate \<Rightarrow> dstate" where
  "mergeRemotePeer peerURL remoteResp s =
     (let source = ''sync:'' @ peerURL;
          remoteLinkGroups = fold (\<lambda>lg m. gm_set m (lgName lg) lg) (drLinkGroups remoteResp) [] in
      fold (mergeRemoteGroup source remoteLinkGroups) (drGroups remoteResp) s)"

definition mergeRemoteData :: "string order \<Rightarrow> SyncClient \<Rightarrow> dstate \<Rightarrow> dstate" where
  "mergeRemoteData ch client s =
     fold (\<lambda>(peerURL, remoteResp). mergeRemotePeer peerURL remoteResp)
       (gm_range ch (GetRemoteData client)) s"

text \<open>Every error is logged and dropped, what was collected before it stays.\<close>

definition collectForeignLinks ::
    "unicode \<Rightarrow> string order \<Rightarrow> Reader \<Rightarrow> Discovery option \<Rightarrow> dstate \<Rightarrow> dstate" where
  "collectForeignLinks U ch r d s =
     fold (\<lambda>f s. fst (f s))
       [collectIngresses r,
        collectServices r,
        whenAvailable d (gatewayGV ''v1'') ''HTTPRoute'' (collectHTTPRoutes r),
        whenAvailable d (gatewayGV ''v1'') ''GRPCRoute'' (collectGRPCRoutes r),
        whenAvailable d (gatewayGV ''v1'') ''TLSRoute'' (collectTLSRoutes r),
        whenAvailable d (gatewayGV ''v1alpha2'') ''TCPRoute'' (collectTCPRoutes r),
        collectTraefik d r traefikGVs,
        whenAvailable d forecastleGV ''ForecastleApp'' (collectForecastleApps U ch r [])] s"

definition mergeForeignGroup ::
    "string \<Rightarrow> (string, DashboardLinkGroup) gomap \<Rightarrow> string \<Rightarrow> DashboardLink list \<Rightarrow> dstate \<Rightarrow> dstate" where
  "mergeForeignGroup source tempGroupDetails groupName foreignLinks s =
     (let replicatedLinks = filterLinksForReplication foreignLinks in
      if replicatedLinks = [] then s
      else
        s\<lparr>dsDetails :=
            (if gm_has (dsDetails s) groupName then dsDetails s
             else gm_set (dsDetails s) groupName
                    (case map_of tempGroupDetails groupName of
                       Some detail \<Rightarrow> detail\<lparr>lgSource := source\<rparr>
                     | None \<Rightarrow> mkLinkGroup groupName source)),
          dsGroups :=
            fold (\<lambda>link groups.
                gm_append groups groupName (link\<lparr>lnSource := source @ '':'' @ lnSource link\<rparr>))
              replicatedLinks (dsGroups s)\<rparr>)"

text \<open>
  A cluster without a client is skipped here; the manager never lists one (see
  \<open>ActiveClusters_ManagerStart\<close>), and calling the nil client would panic.
\<close>

definition mergeForeignCluster ::
    "unicode \<Rightarrow> string order \<Rightarrow> ClusterInfo \<Rightarrow> dstate \<Rightarrow> dstate" where
  "mergeForeignCluster U ch fc s =
     (case ciClient fc of
        None \<Rightarrow> s
      | Some r \<Rightarrow>
          (let source = ''foreign:'' @ ciName fc;
               temp = collectForeignLinks U (ord_at ch 0) r (ciDiscovery fc)
                        \<lparr>dsGroups = [], dsTiles = [], dsDetails = []\<rparr> in
           fold (\<lambda>(groupName, foreignLinks).
               mergeForeignGroup source (dsDetails temp) groupName foreignLinks)
             (gm_range (ord_at ch 1) (dsGroups temp)) s))"

fun mergeForeignClusters :: "unicode \<Rightarrow> string order \<Rightarrow> ClusterInfo list \<Rightarrow> dstate \<Rightarrow> dstate" where
  "mergeForeignClusters U ch [] s = s"
| "mergeForeignClusters U ch (fc # fcs) s =
     mergeForeignClusters U ch fcs (mergeForeignCluster U (ord_at ch (length fcs)) fc s)"

definition mergeForeignClusterData :: "unicode \<Rightarrow> string order \<Rightarrow> Manager \<Rightarrow> dstate \<Rightarrow> dstate" where
  "mergeForeignClusterData U ch m s = mergeForeignClusters U ch (ActiveClusters m) s"

subsection \<open>The dashboard\<close>

definition restrictToReplicated :: "dstate \<Rightarrow> dstate" where
  "restrictToReplicated s =
     s\<lparr>dsGroups := map (\<lambda>(name, ls). (name, filterLinksForReplication ls)) (dsGroups s),
       dsTiles := map (\<lambda>(name, ts). (name, filterTilesForReplication ts)) (dsTiles s)\<rparr>"

definition collectAll ::
    "unicode \<Rightarrow> string order \<Rightarrow> dashboardCollector \<Rightarrow> bool \<Rightarrow> error + dstate" where
  "collectAll U ch c localOnly =
     (case collectLocal U (ord_at ch 0) c of
        (_, Some e) \<Rightarrow> Inl e
      | (s, None) \<Rightarrow>
          (let s = (case dcSyncClient c of
                      Some client \<Rightarrow> if \<not> localOnly then mergeRemoteData (ord_at ch 1) client s else s
                    | None \<Rightarrow> s);
               s = (case dcForeignClusters c of
                      Some m \<Rightarrow> if \<not> localOnly then mergeForeignClusterData U (ord_at ch 2) m s else s
                    | None \<Rightarrow> s) in
           Inr (if localOnly then restrictToReplicated s else s)))"

definition linkLess :: "unicode \<Rightarrow> DashboardLink \<Rightarrow> DashboardLink \<Rightarrow> bool" where
  "linkLess U a b \<longleftrightarrow> ToLower U (lnName a) < ToLower U (lnName b)"

definition tileLess :: "unicode \<Rightarrow> DashboardInfoTile \<Rightarrow> DashboardInfoTile \<Rightarrow> bool" where
  "tileLess U a b \<longleftrightarrow> ToLower U (tlName a) < ToLower U (tlName b)"

definition responseGroup ::
    "unicode \<Rightarrow> string list \<Rightarrow> bool \<Rightarrow> dstate \<Rightarrow> DashboardLinkGroup \<Rightarrow> DashboardGroup option" where
  "responseGroup U userGroups localOnly s g =
     (let ls = filterLinksForGroups (gm_list (dsGroups s) (lgName g)) userGroups;
          groupTiles = gm_list (dsTiles s) (lgName g) in
      if ls = [] \<and> groupTiles = [] \<and> (\<not> localOnly \<or> \<not> lgReplicate g) then None
      else Some \<lparr>dgName = lgDisplayName g, dgLinkGroup = lgName g,
                 dgLinks = stable_sort (linkLess U) ls,
                 dgTiles = stable_sort (tileLess U) groupTiles,
                 dgSource = lgSource g\<rparr>)"

definition buildResponse ::
    "unicode \<Rightarrow> string order \<Rightarrow> string list \<Rightarrow> bool \<Rightarrow> dstate \<Rightarrow> DashboardResponse" where
  "buildResponse U ch userGroups localOnly s =
     (let orderedGroups = sortLinkGroups U ch (dsDetails s) in
      \<lparr>drLinkGroups = orderedGroups,
       drGroups = List.map_filter (responseGroup U userGroups localOnly s) orderedGroups\<rparr>)"

definition collectDashboard ::
    "unicode \<Rightarrow> string order \<Rightarrow> dashboardCollector \<Rightarrow> string list \<Rightarrow> bool \<Rightarrow> error + DashboardResponse" where
  "collectDashboard U ch c userGroups localOnly =
     map_sum id (buildResponse U (ord_at ch 1) userGroups localOnly)
       (collectAll U (ord_at ch 0) c localOnly)"

subsection \<open>Lemmas: sequences of steps keep the contract\<close>

lemma run_steps_collector:
  assumes "\<And>f. f \<in> set fs \<Longrightarrow> collector_step f PL PT"
  shows "collector_step (run_steps fs) PL PT"
proof
  fix s
  show "ds_grows PL PT s (fst (run_steps fs s))"
    using assms
  proof (induction fs arbitrary: s)
    case (Cons f fs)
    obtain s' e where f: "f s = (s', e)" by (cases "f s")
    have "collector_step f PL PT" by (rule Cons.prems) simp
    from collector_step.step_grows [OF this, of s] have "ds_grows PL PT s s'" by (simp add: f)
    moreover have "ds_grows PL PT s' (fst (run_steps fs s'))" using Cons by simp
    ultimately show ?case by (cases e) (auto simp: f intro: ds_grows_trans)
  qed simp
qed

lemma fold_steps_grows:
  assumes "\<And>f. f \<in> set fs \<Longrightarrow> collector_step f PL PT"
  shows "ds_grows PL PT s (fold (\<lambda>f s. fst (f s)) fs s)"
  by (rule ds_grows_fold) (rule collector_step.step_grows [OF assms])

lemma whenAvailable_collector:
  "collector_step f PL PT \<Longrightarrow> collector_step (whenAvailable d gv kind f) PL PT"
  by (simp add: collector_step_def whenAvailable_def)

lemma collectTraefik_collector:
  assumes "\<And>gv. gv \<in> set gvs \<Longrightarrow> collector_step (collectIngressRoutes r gv) PL PT"
  shows "collector_step (collectTraefik d r gvs) PL PT"
  using assms by (induction gvs) (auto simp: collector_step_def)

text \<open>Where the links of one cluster come from\<close>

definition annotatedSources :: "Reader \<Rightarrow> (string \<times> resourceMeta list) list" where
  "annotatedSources r =
     [(''ingress'', map ingressMeta (items_of (rdListIngresses r enabledLabels))),
      (''service'', map serviceMeta (items_of (rdListServices r enabledLabels))),
      (''endpointslice'',
       map (\<lambda>e. resourceMetaFrom (epsMeta e)) (items_of (rdListEndpointSlices r enabledLabels))),
      (''httproute'',
       map hostnamesMeta (routes_of r ''gateway.networking.k8s.io'' ''v1'' ''HTTPRouteList'')),
      (''grpcroute'',
       map hostnamesMeta (routes_of r ''gateway.networking.k8s.io'' ''v1'' ''GRPCRouteList'')),
      (''tlsroute'',
       map hostnamesMeta (routes_of r ''gateway.networking.k8s.io'' ''v1'' ''TLSRouteList'')),
      (''tcproute'', map (\<lambda>u. resourceMetaFrom (uMeta u))
         (routes_of r ''gateway.networking.k8s.io'' ''v1alpha2'' ''TCPRouteList'')),
      (''ingressroute'', concat (map (\<lambda>gv.
         map ingressRouteMeta (routes_of r (gvGroup gv) (gvVersion gv) ''IngressRouteList'')) traefikGVs)),
      (''dnsendpoint'',
       map dnsEndpointMeta (routes_of r ''externaldns.k8s.io'' ''v1alpha1'' ''DNSEndpointList''))]"

definition from_annotated :: "Reader \<Rightarrow> string \<Rightarrow> DashboardLink \<Rightarrow> bool" where
  "from_annotated r g l \<longleftrightarrow> (\<exists>(source, ms) \<in> set (annotatedSources r). from_meta source ms g l)"

definition local_link :: "dashboardCollector \<Rightarrow> string \<Rightarrow> DashboardLink \<Rightarrow> bool" where
  "local_link c g l \<longleftrightarrow>
     from_static (dcStaticLinks c) g l \<or> from_bookmark (dcReader c) g l \<or>
     from_forecastle (dcReader c) (dcForecastleInstance c) g l \<or> from_annotated (dcReader c) g l"

definition foreign_link :: "Reader \<Rightarrow> string \<Rightarrow> DashboardLink \<Rightarrow> bool" where
  "foreign_link r g l \<longleftrightarrow> from_forecastle r [] g l \<or> from_annotated r g l"

lemma from_annotatedI: "(source, ms) \<in> set (annotatedSources r) \<Longrightarrow> from_meta source ms g l \<Longrightarrow> from_annotated r g l"
  by (auto simp: from_annotated_def)

lemma from_meta_subset: "from_meta source ms g l \<Longrightarrow> set ms \<subseteq> set ms' \<Longrightarrow> from_meta source ms' g l"
  by (auto simp: from_meta_def)

lemma annotated_step:
  assumes "collector_step f (from_meta source ms) (\<lambda>_ _. False)"
    and "(source, ms) \<in> set (annotatedSources r)"
  shows "collector_step f (from_annotated r) (\<lambda>_ _. False)"
  by (rule collector_step.step_weaken [OF assms(1)]) (rule from_annotatedI [OF assms(2)])

text \<open>Every annotation-driven collector keeps the contract for \<open>from_annotated\<close>.\<close>

lemma annotated_steps:
  "collector_step (collectIngresses r) (from_annotated r) (\<lambda>_ _. False)"
  "collector_step (collectServices r) (from_annotated r) (\<lambda>_ _. False)"
  "collector_step (collectEndpointSlices r) (from_annotated r) (\<lambda>_ _. False)"
  "collector_step (collectHTTPRoutes r) (from_annotated r) (\<lambda>_ _. False)"
  "collector_step (collectGRPCRoutes r) (from_annotated r) (\<lambda>_ _. False)"
  "collector_step (collectTLSRoutes r) (from_annotated r) (\<lambda>_ _. False)"
  "collector_step (collectTCPRoutes r) (from_annotated r) (\<lambda>_ _. False)"
  "collector_step (collectDNSEndpoints r) (from_annotated r) (\<lambda>_ _. False)"
  by (rule ing.collector_step_axioms [THEN annotated_step] svc.collector_step_axioms [THEN annotated_step]
      eps.collector_step_axioms [THEN annotated_step] http.collector_step_axioms [THEN annotated_step]
      grpc.collector_step_axioms [THEN annotated_step] tls.collector_step_axioms [THEN annotated_step]
      tcp.collector_step_axioms [THEN annotated_step] dns.collector_step_axioms [THEN annotated_step];
      simp add: annotatedSources_def)+

lemma traefik_step:
  "collector_step (collectTraefik d r traefikGVs) (from_annotated r) (\<lambda>_ _. False)"
proof (rule collectTraefik_collector)
  fix gv assume gv: "gv \<in> set traefikGVs"
  show "collector_step (collectIngressRoutes r gv) (from_annotated r) (\<lambda>_ _. False)"
  proof (rule trf.step_weaken)
    fix g l
    assume "from_meta ''ingressroute''
      (map ingressRouteMeta (routes_of r (gvGroup gv) (gvVersion gv) ''IngressRouteList'')) g l"
    then have "from_meta ''ingressroute'' (concat (map (\<lambda>gv. map ingressRouteMeta
      (routes_of r (gvGroup gv) (gvVersion gv) ''IngressRouteList'')) traefikGVs)) g l"
      by (rule from_meta_subset) (use gv in auto)
    then show "from_annotated r g l" by (rule from_annotatedI [rotated]) (simp add: annotatedSources_def)
  qed
qed

lemma step_mono:
  assumes "collector_step f PL PT" and "\<And>g l. PL g l \<Longrightarrow> PL' g l" and "\<And>g t. PT g t \<Longrightarrow> PT' g t"
  shows "collector_step f PL' PT'"
  by (rule collector_step.step_weaken [OF assms])

lemma localSteps_collector:
  "f \<in> set (localSteps U ch c) \<Longrightarrow> collector_step f (local_link c) (from_infotile (dcReader c))"
proof -
  let ?P = "local_link c" and ?T = "from_infotile (dcReader c)"
  have ann: "collector_step f ?P ?T" if "collector_step f (from_annotated (dcReader c)) (\<lambda>_ _. False)" for f
    by (rule step_mono [OF that]) (simp_all add: local_link_def)
  have bm: "collector_step (collectBookmarkGroups (dcReader c)) ?P ?T"
    by (rule bm.step_weaken) (simp_all add: local_link_def)
  have fct: "collector_step (collectForecastleApps U (ord_at ch 1) (dcReader c) (dcForecastleInstance c)) ?P ?T"
    by (rule fct.step_weaken) (simp_all add: local_link_def)
  have tile: "collector_step (collectInfoTiles (dcReader c)) ?P ?T"
    by (rule tile.step_weaken) simp_all
  show "f \<in> set (localSteps U ch c) \<Longrightarrow> collector_step f ?P ?T"
    using bm fct tile annotated_steps [THEN ann] traefik_step [THEN ann]
    by (auto simp: localSteps_def Let_def intro: whenAvailable_collector)
qed

lemma static_grows:
  "ds_grows (local_link c) PT s (collectStaticLinks U ch (dcStaticLinks c) s)"
  by (rule ds_grows_mono [OF links_added_grows [OF collectStaticLinks_added [OF subset_refl]]])
    (simp_all add: local_link_def)

lemma collectLocal_grows:
  "ds_grows (local_link c) (from_infotile (dcReader c)) (initialState c) (fst (collectLocal U ch c))"
  unfolding collectLocal_def
  by (rule ds_grows_trans [OF static_grows
        collector_step.step_grows [OF run_steps_collector [OF localSteps_collector]]])

subsection \<open>Lemmas: the initial state and the merges\<close>

definition named_by_key :: "(string, DashboardLinkGroup) gomap \<Rightarrow> bool" where
  "named_by_key m \<longleftrightarrow> (\<forall>k d. map_of m k = Some d \<longrightarrow> lgName d = k)"

lemma named_by_key_set: "named_by_key m \<Longrightarrow> lgName d = k \<Longrightarrow> named_by_key (gm_set m k d)"
  by (simp add: named_by_key_def)

lemma initLinkGroups_ok: "gm_wf (initLinkGroups gs) \<and> named_by_key (initLinkGroups gs)"
proof -
  have step: "gm_wf (initLinkGroup g m) \<and> named_by_key (initLinkGroup g m)"
    if "gm_wf m" "named_by_key m" for g m
    using that by (simp add: initLinkGroup_def Let_def named_by_key_set)
  have "gm_wf (fold initLinkGroup gs m) \<and> named_by_key (fold initLinkGroup gs m)"
    if "gm_wf m" "named_by_key m" for m
    using that by (induction gs arbitrary: m) (simp_all add: step)
  from this [of "[]"] show ?thesis by (simp add: initLinkGroups_def named_by_key_def)
qed

lemma initialState_wf: "ds_wf (initialState c)"
  using initLinkGroups_ok [of "dcLinkGroups c"]
  by (auto simp: ds_wf_def initialState_def named_by_key_def gm_keys_def)

lemma gm_list_fold_append:
  "gm_list (fold (\<lambda>x m. gm_append m k (f x)) xs m) g = gm_list m g @ (if g = k then map f xs else [])"
  by (induction xs arbitrary: m) (auto simp: gm_list_append)

lemma gm_wf_fold_append: "gm_wf m \<Longrightarrow> gm_wf (fold (\<lambda>x m. gm_append m k (f x)) xs m)"
  by (induction xs arbitrary: m) auto

lemma gm_keys_fold_append:
  "set (gm_keys (fold (\<lambda>x m. gm_append m k (f x)) xs m)) \<subseteq> insert k (set (gm_keys m))"
proof (induction xs arbitrary: m)
  case (Cons x xs)
  show ?case using Cons.IH [of "gm_append m k (f x)"] by (auto simp: gm_keys_append)
qed auto

text \<open>Both merges add links to one group, after making sure that it has details.\<close>

definition appendLinks ::
    "string \<Rightarrow> DashboardLinkGroup \<Rightarrow> (DashboardLink \<Rightarrow> DashboardLink) \<Rightarrow> DashboardLink list \<Rightarrow> dstate \<Rightarrow> dstate" where
  "appendLinks k d f ls s =
     s\<lparr>dsDetails := (if gm_has (dsDetails s) k then dsDetails s else gm_set (dsDetails s) k d),
       dsGroups := fold (\<lambda>link groups. gm_append groups k (f link)) ls (dsGroups s)\<rparr>"

lemma appendLinks_wf:
  assumes "ds_wf s" and "lgName d = k"
  shows "ds_wf (appendLinks k d f ls s)"
proof -
  let ?D = "dsDetails (appendLinks k d f ls s)"
  have D: "?D = (if gm_has (dsDetails s) k then dsDetails s else gm_set (dsDetails s) k d)"
    by (simp add: appendLinks_def)
  have "set (gm_keys ?D) = insert k (set (gm_keys (dsDetails s)))"
    by (auto simp: D gm_keys_set gm_has_iff)
  moreover have "gm_wf ?D" "\<forall>j e. map_of ?D j = Some e \<longrightarrow> lgName e = j"
    using assms by (auto simp: D ds_wf_def)
  moreover have "gm_wf (dsGroups (appendLinks k d f ls s))"
    using assms(1) by (simp add: appendLinks_def ds_wf_def gm_wf_fold_append)
  moreover have "set (gm_keys (dsGroups (appendLinks k d f ls s))) \<subseteq> insert k (set (gm_keys (dsGroups s)))"
    using gm_keys_fold_append [of k f ls "dsGroups s"] by (simp add: appendLinks_def)
  moreover have "dsTiles (appendLinks k d f ls s) = dsTiles s"
    by (simp add: appendLinks_def)
  ultimately show ?thesis
    using assms(1) unfolding ds_wf_def by simp blast
qed

lemma appendLinks_grows:
  assumes "lgName d = k" and "\<And>l. l \<in> set ls \<Longrightarrow> PL k (f l)"
  shows "ds_grows PL PT s (appendLinks k d f ls s)"
proof -
  have "\<exists>new. links (appendLinks k d f ls s) g = links s g @ new \<and> list_all (PL g) new" for g
    using assms(2) by (auto simp: appendLinks_def gm_list_fold_append list_all_iff)
  moreover have "tiles (appendLinks k d f ls s) = tiles s"
    by (simp add: appendLinks_def)
  moreover have "set (gm_keys (dsDetails s)) \<subseteq> set (gm_keys (dsDetails (appendLinks k d f ls s)))"
    by (auto simp: appendLinks_def gm_keys_set)
  ultimately show ?thesis using appendLinks_wf [OF _ assms(1)] by (simp add: ds_grows_def)
qed

definition from_peer :: "SyncClient \<Rightarrow> string \<Rightarrow> DashboardLink \<Rightarrow> bool" where
  "from_peer client g l \<longleftrightarrow>
     (\<exists>peer resp grp link. map_of (GetRemoteData client) peer = Some resp \<and> grp \<in> set (drGroups resp) \<and>
        g = remoteGroupName grp \<and> link \<in> set (dgLinks grp) \<and> l = link\<lparr>lnSource := ''sync:'' @ peer\<rparr>)"

lemma mergeRemoteGroup_appendLinks:
  "mergeRemoteGroup source rlg g s =
     appendLinks (remoteGroupName g) (remoteDetails source rlg (remoteGroupName g))
       (\<lambda>link. link\<lparr>lnSource := source\<rparr>) (dgLinks g) s"
  by (simp add: mergeRemoteGroup_def appendLinks_def Let_def)

lemma remoteDetails_name: "named_by_key rlg \<Longrightarrow> lgName (remoteDetails source rlg k) = k"
  by (auto simp: remoteDetails_def named_by_key_def split: option.split)

lemma named_by_key_fold: "named_by_key m \<Longrightarrow> named_by_key (fold (\<lambda>lg m. gm_set m (lgName lg) lg) lgs m)"
  by (induction lgs arbitrary: m) (auto intro: named_by_key_set)

lemma named_by_key_Nil [simp]: "named_by_key []"
  by (simp add: named_by_key_def)

lemma mergeRemotePeer_grows:
  assumes "map_of (GetRemoteData client) peer = Some resp"
  shows "ds_grows (from_peer client) PT s (mergeRemotePeer peer resp s)"
  unfolding mergeRemotePeer_def Let_def mergeRemoteGroup_appendLinks
proof (rule ds_grows_fold)
  fix g s assume "g \<in> set (drGroups resp)"
  then show "ds_grows (from_peer client) PT s
      (appendLinks (remoteGroupName g)
        (remoteDetails (''sync:'' @ peer)
          (fold (\<lambda>lg m. gm_set m (lgName lg) lg) (drLinkGroups resp) []) (remoteGroupName g))
        (\<lambda>link. link\<lparr>lnSource := ''sync:'' @ peer\<rparr>) (dgLinks g) s)"
    using assms
    by (intro appendLinks_grows remoteDetails_name named_by_key_fold) (auto simp: from_peer_def)
qed

interpretation remote: collector_step "\<lambda>s. (mergeRemoteData ch client s, None)" "from_peer client"
    "\<lambda>_ _. False" for ch client
proof unfold_locales
  fix s
  show "ds_grows (from_peer client) (\<lambda>_ _. False) s (fst (mergeRemoteData ch client s, None))"
    unfolding mergeRemoteData_def fst_conv
    by (rule ds_grows_fold) (auto intro: mergeRemotePeer_grows dest: gm_range_map_of)
qed

lemma collectForeignLinks_grows:
  "ds_grows (foreign_link r) (\<lambda>_ _. False) s (collectForeignLinks U ch r d s)"
proof -
  let ?P = "foreign_link r" and ?T = "\<lambda>_ _. False"
  have ann: "collector_step f ?P ?T" if "collector_step f (from_annotated r) (\<lambda>_ _. False)" for f
    by (rule step_mono [OF that]) (simp_all add: foreign_link_def)
  have fct: "collector_step (collectForecastleApps U ch r []) ?P ?T"
    by (rule fct.step_weaken) (simp_all add: foreign_link_def)
  show ?thesis
    unfolding collectForeignLinks_def
    using fct annotated_steps [THEN ann] traefik_step [THEN ann]
    by (intro fold_steps_grows) (auto intro: whenAvailable_collector)
qed

definition from_foreign :: "Manager \<Rightarrow> string \<Rightarrow> DashboardLink \<Rightarrow> bool" where
  "from_foreign m g l \<longleftrightarrow>
     (\<exists>fc r l0. fc \<in> set (ActiveClusters m) \<and> ciClient fc = Some r \<and> foreign_link r g l0 \<and>
        lnReplicate l0 \<and> l = l0\<lparr>lnSource := ''foreign:'' @ ciName fc @ '':'' @ lnSource l0\<rparr>)"

lemma mergeForeignGroup_appendLinks:
  "mergeForeignGroup source details k ls s =
     (if filterLinksForReplication ls = [] then s
      else appendLinks k (case map_of details k of Some d \<Rightarrow> d\<lparr>lgSource := source\<rparr> | None \<Rightarrow> mkLinkGroup k source)
             (\<lambda>link. link\<lparr>lnSource := source @ '':'' @ lnSource link\<rparr>) (filterLinksForReplication ls) s)"
  by (simp add: mergeForeignGroup_def appendLinks_def Let_def)

lemma mergeForeignCluster_grows:
  assumes "fc \<in> set (ActiveClusters m)"
  shows "ds_grows (from_foreign m) (\<lambda>_ _. False) s (mergeForeignCluster U ch fc s)"
proof (cases "ciClient fc")
  case (Some r)
  define temp where "temp = collectForeignLinks U (ord_at ch 0) r (ciDiscovery fc)
      \<lparr>dsGroups = [], dsTiles = [], dsDetails = []\<rparr>"
  have "ds_wf \<lparr>dsGroups = [], dsTiles = [], dsDetails = []\<rparr>"
    by (simp add: ds_wf_def gm_keys_def)
  with collectForeignLinks_grows [of r _ U "ord_at ch 0" "ciDiscovery fc"]
  have wf: "ds_wf temp" and new: "\<And>g. list_all (foreign_link r g) (links temp g)"
    unfolding temp_def ds_grows_def by fastforce+
  have "ds_grows (from_foreign m) (\<lambda>_ _. False) s
      (mergeForeignGroup (''foreign:'' @ ciName fc) (dsDetails temp) k ls s)"
    if "(k, ls) \<in> set (gm_range (ord_at ch 1) (dsGroups temp))" for k ls s
  proof -
    from gm_range_map_of [OF that] new [of k] have "list_all (foreign_link r k) ls"
      by (simp add: gm_list_def)
    then have "from_foreign m k (l\<lparr>lnSource := (''foreign:'' @ ciName fc) @ '':'' @ lnSource l\<rparr>)"
      if "l \<in> set (filterLinksForReplication ls)" for l
      using assms Some that unfolding from_foreign_def list_all_iff filterLinksForReplication_def
      by (intro exI [of _ fc] exI [of _ r] exI [of _ l]) auto
    moreover have "lgName (case map_of (dsDetails temp) k of
        Some d \<Rightarrow> d\<lparr>lgSource := ''foreign:'' @ ciName fc\<rparr> | None \<Rightarrow> mkLinkGroup k (''foreign:'' @ ciName fc)) = k"
      using wf by (auto simp: ds_wf_def split: option.split)
    ultimately show ?thesis
      unfolding mergeForeignGroup_appendLinks by (auto intro: appendLinks_grows)
  qed
  then show ?thesis
    unfolding mergeForeignCluster_def Some Let_def temp_def [symmetric] option.case
    by (intro ds_grows_fold) auto
qed (simp add: mergeForeignCluster_def)

lemma mergeForeignClusters_grows:
  "set fcs \<subseteq> set (ActiveClusters m) \<Longrightarrow>
     ds_grows (from_foreign m) (\<lambda>_ _. False) s (mergeForeignClusters U ch fcs s)"
proof (induction fcs arbitrary: s)
  case (Cons fc fcs)
  have "ds_grows (from_foreign m) (\<lambda>_ _. False) s (mergeForeignCluster U (ord_at ch (length fcs)) fc s)"
    by (rule mergeForeignCluster_grows) (use Cons.prems in simp)
  also have "ds_grows (from_foreign m) (\<lambda>_ _. False) \<dots>
      (mergeForeignClusters U ch fcs (mergeForeignCluster U (ord_at ch (length fcs)) fc s))"
    using Cons by simp
  finally show ?case by simp
qed simp

interpretation foreign: collector_step "\<lambda>s. (mergeForeignClusterData U ch m s, None)" "from_foreign m"
    "\<lambda>_ _. False" for U ch m
  by unfold_locales (simp add: mergeForeignClusterData_def mergeForeignClusters_grows)

subsection \<open>Lemmas: the collected state\<close>

lemma map_of_map_snd: "map_of (map (\<lambda>(k, v). (k, f v)) m) k = map_option f (map_of m k)"
  by (induction m) auto

lemma links_restrict: "links (restrictToReplicated s) g = filterLinksForReplication (links s g)"
  by (simp add: restrictToReplicated_def gm_list_def map_of_map_snd filterLinksForReplication_def
      split: option.split)

lemma tiles_restrict: "tiles (restrictToReplicated s) g = filterTilesForReplication (tiles s g)"
  by (simp add: restrictToReplicated_def gm_list_def map_of_map_snd filterTilesForReplication_def
      split: option.split)

lemma gm_keys_map: "gm_keys (map (\<lambda>(k, v). (k, f v)) m) = gm_keys m"
  by (auto simp: gm_keys_def)

lemma restrict_wf: "ds_wf s \<Longrightarrow> ds_wf (restrictToReplicated s)"
  by (simp add: restrictToReplicated_def ds_wf_def gm_wf_def gm_keys_map)

definition any_link :: "dashboardCollector \<Rightarrow> bool \<Rightarrow> string \<Rightarrow> DashboardLink \<Rightarrow> bool" where
  "any_link c localOnly g l \<longleftrightarrow>
     local_link c g l \<or>
     \<not> localOnly \<and> (\<exists>client. dcSyncClient c = Some client \<and> from_peer client g l) \<or>
     \<not> localOnly \<and> (\<exists>m. dcForeignClusters c = Some m \<and> from_foreign m g l)"

text \<open>The two merges as one step\<close>

definition mergeOthers ::
    "unicode \<Rightarrow> string order \<Rightarrow> dashboardCollector \<Rightarrow> dstate \<Rightarrow> dstate" where
  "mergeOthers U ch c s =
     (let s = (case dcSyncClient c of
                 Some client \<Rightarrow> mergeRemoteData (ord_at ch 1) client s | None \<Rightarrow> s) in
      case dcForeignClusters c of
        Some m \<Rightarrow> mergeForeignClusterData U (ord_at ch 2) m s | None \<Rightarrow> s)"

lemma collectAll_eq:
  "collectAll U ch c localOnly =
     (case collectLocal U (ord_at ch 0) c of
        (_, Some e) \<Rightarrow> Inl e
      | (s, None) \<Rightarrow> Inr (if localOnly then restrictToReplicated s else mergeOthers U ch c s))"
  by (auto simp: collectAll_def mergeOthers_def Let_def split: prod.split option.split)

lemma mergeOthers_grows:
  "ds_grows (\<lambda>g l. (\<exists>client. dcSyncClient c = Some client \<and> from_peer client g l) \<or>
      (\<exists>m. dcForeignClusters c = Some m \<and> from_foreign m g l)) (\<lambda>_ _. False) s (mergeOthers U ch c s)"
  (is "ds_grows ?P ?T s _")
proof -
  let ?s = "case dcSyncClient c of Some client \<Rightarrow> mergeRemoteData (ord_at ch 1) client s | None \<Rightarrow> s"
  have "ds_grows ?P ?T s ?s"
    by (auto split: option.split intro!: ds_grows_mono [OF remote.step_grows [simplified]])
  also have "ds_grows ?P ?T ?s (mergeOthers U ch c s)"
    unfolding mergeOthers_def Let_def
    by (auto split: option.split intro!: ds_grows_mono [OF foreign.step_grows [simplified]])
  finally show ?thesis .
qed

lemma grows_all:
  assumes "ds_grows PL PT s s'" and "list_all (PL g) (links s g)"
  shows "list_all (PL g) (links s' g)"
proof -
  obtain new where "links s' g = links s g @ new" "list_all (PL g) new"
    using assms(1) unfolding ds_grows_def by blast
  with assms(2) show ?thesis by simp
qed

lemma grows_all_tiles:
  assumes "ds_grows PL PT s s'" and "list_all (PT g) (tiles s g)"
  shows "list_all (PT g) (tiles s' g)"
proof -
  obtain new where "tiles s' g = tiles s g @ new" "list_all (PT g) new"
    using assms(1) unfolding ds_grows_def by blast
  with assms(2) show ?thesis by simp
qed

lemma collectLocal_state:
  shows "ds_wf (fst (collectLocal U ch c))"
    and "list_all (local_link c g) (links (fst (collectLocal U ch c)) g)"
    and "list_all (from_infotile (dcReader c) g) (tiles (fst (collectLocal U ch c)) g)"
proof -
  note grows = collectLocal_grows [of c U ch]
  show "ds_wf (fst (collectLocal U ch c))"
    using grows initialState_wf by (simp add: ds_grows_def)
  show "list_all (local_link c g) (links (fst (collectLocal U ch c)) g)"
    by (rule grows_all [OF grows]) (simp add: initialState_def)
  show "list_all (from_infotile (dcReader c) g) (tiles (fst (collectLocal U ch c)) g)"
    by (rule grows_all_tiles [OF grows]) (simp add: initialState_def)
qed

lemma collectAll_state:
  assumes "collectAll U ch c localOnly = Inr s"
  shows "ds_wf s"
    and "list_all (any_link c localOnly g) (links s g)"
    and "list_all (from_infotile (dcReader c) g) (tiles s g)"
    and "localOnly \<Longrightarrow> list_all lnReplicate (links s g) \<and> list_all tlReplicate (tiles s g)"
proof -
  obtain t where t: "collectLocal U (ord_at ch 0) c = (t, None)"
    and s: "s = (if localOnly then restrictToReplicated t else mergeOthers U ch c t)"
    using assms by (auto simp: collectAll_eq split: prod.splits option.splits)
  note loc = collectLocal_state [where U = U and ch = "ord_at ch 0" and c = c, unfolded t fst_conv]
  note grows = mergeOthers_grows [of c t U ch]
  show "ds_wf s"
    using loc(1) grows by (simp add: s restrict_wf ds_grows_def)
  show "localOnly \<Longrightarrow> list_all lnReplicate (links s g) \<and> list_all tlReplicate (tiles s g)"
    by (simp add: s links_restrict tiles_restrict filterLinksForReplication_def
        filterTilesForReplication_def list_all_iff)
  show "list_all (any_link c localOnly g) (links s g)"
  proof (cases localOnly)
    case True
    then show ?thesis
      using loc(2) [of g] by (auto simp: s links_restrict filterLinksForReplication_def any_link_def list_all_iff)
  next
    case False
    have "ds_grows (any_link c localOnly) (\<lambda>_ _. False) t s"
      using ds_grows_mono [OF grows, of "any_link c localOnly" "\<lambda>_ _. False"] False
      by (simp add: s any_link_def)
    moreover have "list_all (any_link c localOnly g) (links t g)"
      using loc(2) [of g] by (auto simp: any_link_def list_all_iff)
    ultimately show ?thesis by (rule grows_all)
  qed
  show "list_all (from_infotile (dcReader c) g) (tiles s g)"
  proof (cases localOnly)
    case True
    then show ?thesis
      using loc(3) [of g] by (auto simp: s tiles_restrict filterTilesForReplication_def list_all_iff)
  next
    case False
    have "ds_grows (\<lambda>_ _. True) (from_infotile (dcReader c)) t s"
      using ds_grows_mono [OF grows, of "\<lambda>_ _. True" "from_infotile (dcReader c)"] False by (simp add: s)
    then show ?thesis using loc(3) by (rule grows_all_tiles)
  qed
qed

subsection \<open>Lemmas: the response\<close>

interpretation lno: keyed_order "\<lambda>_. True" "linkLess U" "\<lambda>l. ToLower U (lnName l)" for U
  by unfold_locales (simp add: linkLess_def)

interpretation tlo: keyed_order "\<lambda>_. True" "tileLess U" "\<lambda>t. ToLower U (tlName t)" for U
  by unfold_locales (simp add: tileLess_def)

lemma responseGroup_linkGroup: "responseGroup U ug lo s d = Some g \<Longrightarrow> dgLinkGroup g = lgName d"
  by (auto simp: responseGroup_def Let_def split: if_splits)

lemma responseGroup_Some:
  "responseGroup U ug lo s d = Some g \<Longrightarrow>
     dgLinks g = stable_sort (linkLess U) (filterLinksForGroups (links s (lgName d)) ug) \<and>
     dgTiles g = stable_sort (tileLess U) (tiles s (lgName d))"
  by (auto simp: responseGroup_def Let_def split: if_splits)

lemma responseGroup_None:
  "responseGroup U ug lo s d = None \<Longrightarrow>
     filterLinksForGroups (links s (lgName d)) ug = [] \<and> tiles s (lgName d) = []"
  by (auto simp: responseGroup_def Let_def split: if_splits)

lemma map_filter_filter_None:
  "(\<And>x y. x \<in> set xs \<Longrightarrow> f x = Some y \<Longrightarrow> \<not> P y) \<Longrightarrow> filter P (List.map_filter f xs) = []"
  by (induction xs) (auto split: option.split)

lemma response_contents:
  assumes "distinct (map lgName og)"
  shows "concat (map dgLinks (filter (\<lambda>g. dgLinkGroup g = k) (List.map_filter (responseGroup U ug lo s) og))) =
      (if k \<in> lgName ` set og then stable_sort (linkLess U) (filterLinksForGroups (links s k) ug) else []) \<and>
    concat (map dgTiles (filter (\<lambda>g. dgLinkGroup g = k) (List.map_filter (responseGroup U ug lo s) og))) =
      (if k \<in> lgName ` set og then stable_sort (tileLess U) (tiles s k) else [])"
  using assms
proof (induction og)
  case (Cons d og)
  have none: "filter (\<lambda>g. dgLinkGroup g = lgName d) (List.map_filter (responseGroup U ug lo s) og) = []"
    using Cons.prems by (intro map_filter_filter_None) (auto dest!: responseGroup_linkGroup)
  show ?case
  proof (cases "k = lgName d")
    case True
    then show ?thesis
      using none responseGroup_Some [of U ug lo s d] responseGroup_None [of U ug lo s d]
        responseGroup_linkGroup [of U ug lo s d]
      by (cases "responseGroup U ug lo s d") simp_all
  next
    case False
    then have "filter (\<lambda>g. dgLinkGroup g = k) (List.map_filter (responseGroup U ug lo s) (d # og)) =
        filter (\<lambda>g. dgLinkGroup g = k) (List.map_filter (responseGroup U ug lo s) og)"
      by (auto split: option.split dest!: responseGroup_linkGroup)
    with Cons False show ?thesis by (simp del: map_filter_simps)
  qed
qed simp

lemma details_names:
  assumes "ds_wf s"
  shows "map (lgName \<circ> snd) (dsDetails s) = gm_keys (dsDetails s)"
proof -
  have "lgName d = k" if "(k, d) \<in> set (dsDetails s)" for k d
    using assms that by (auto simp: ds_wf_def gm_wf_def gm_keys_def)
  then show ?thesis by (auto simp: gm_keys_def)
qed

lemma sorted_names:
  assumes "ds_wf s" and "range_order ch"
  shows "mset (map lgName (sortLinkGroups U ch (dsDetails s))) = mset (gm_keys (dsDetails s))"
proof -
  have "mset (map lgName (sortLinkGroups U ch (dsDetails s))) = image_mset lgName (mset (map snd (dsDetails s)))"
    using assms by (simp add: mset_sortLinkGroups ds_wf_def)
  also have "\<dots> = mset (gm_keys (dsDetails s))"
    unfolding details_names [OF assms(1), symmetric] by (simp add: multiset.map_comp)
  finally show ?thesis .
qed

lemma sorted_names_distinct:
  "ds_wf s \<Longrightarrow> range_order ch \<Longrightarrow> distinct (map lgName (sortLinkGroups U ch (dsDetails s)))"
  using mset_eq_imp_distinct_iff [OF sorted_names] by (simp add: ds_wf_def gm_wf_def)

lemma sorted_names_set:
  "ds_wf s \<Longrightarrow> range_order ch \<Longrightarrow>
     lgName ` set (sortLinkGroups U ch (dsDetails s)) = set (gm_keys (dsDetails s))"
  using mset_eq_setD [OF sorted_names] by simp

lemma not_in_details: "ds_wf s \<Longrightarrow> k \<notin> set (gm_keys (dsDetails s)) \<Longrightarrow> links s k = [] \<and> tiles s k = []"
  by (auto simp: ds_wf_def gm_has_iff intro!: gm_list_not_has)

lemma buildResponse_contents:
  assumes "ds_wf s" and "range_order ch"
  shows "concat (map dgLinks (filter (\<lambda>g. dgLinkGroup g = k) (drGroups (buildResponse U ch ug lo s)))) =
      stable_sort (linkLess U) (filterLinksForGroups (links s k) ug)"
    and "concat (map dgTiles (filter (\<lambda>g. dgLinkGroup g = k) (drGroups (buildResponse U ch ug lo s)))) =
      stable_sort (tileLess U) (tiles s k)"
  using response_contents [OF sorted_names_distinct [OF assms], of k U ug lo] not_in_details [OF assms(1), of k]
  by (auto simp: buildResponse_def Let_def sorted_names_set [OF assms] filterLinksForGroups_eq)

lemma buildResponse_distinct:
  assumes "ds_wf s" and "range_order ch"
  shows "distinct (map dgLinkGroup (drGroups (buildResponse U ch ug lo s)))"
proof -
  have "distinct (map dgLinkGroup (List.map_filter (responseGroup U ug lo s) og))"
    if "distinct (map lgName og)" for og
    using that
  proof (induction og)
    case (Cons d og)
    have "dgLinkGroup g \<noteq> lgName d" if "g \<in> set (List.map_filter (responseGroup U ug lo s) og)" for g
      using Cons.prems that by (auto simp: set_map_filter_iff dest!: responseGroup_linkGroup)
    with Cons show ?case by (auto split: option.split dest!: responseGroup_linkGroup)
  qed simp
  then show ?thesis by (simp add: buildResponse_def Let_def sorted_names_distinct [OF assms])
qed

lemma collectDashboard_Inr:
  "collectDashboard U ch c ug lo = Inr resp \<longleftrightarrow>
     (\<exists>s. collectAll U (ord_at ch 0) c lo = Inr s \<and> resp = buildResponse U (ord_at ch 1) ug lo s)"
  by (cases "collectAll U (ord_at ch 0) c lo") (auto simp: collectDashboard_def)

text \<open>An export lists every link group of the instance, whether anything in it is replicated or not.\<close>

lemma export_link_groups:
  assumes "collectDashboard U ch c ug True = Inr resp"
  shows "drLinkGroups resp =
    sortLinkGroups U (ord_at ch 1) (dsDetails (fst (collectLocal U (ord_at (ord_at ch 0) 0) c)))"
  using assms
  by (auto simp: collectDashboard_Inr collectAll_def buildResponse_def restrictToReplicated_def Let_def
      split: prod.splits option.splits)

lemma buildResponse_group:
  assumes "grp \<in> set (drGroups (buildResponse U ch ug lo s))"
  shows "set (dgLinks grp) = set (filterLinksForGroups (links s (dgLinkGroup grp)) ug)"
    and "set (dgTiles grp) = set (tiles s (dgLinkGroup grp))"
proof -
  obtain d where "responseGroup U ug lo s d = Some grp"
    using assms by (auto simp: buildResponse_def Let_def set_map_filter_iff)
  then show "set (dgLinks grp) = set (filterLinksForGroups (links s (dgLinkGroup grp)) ug)"
    and "set (dgTiles grp) = set (tiles s (dgLinkGroup grp))"
    using responseGroup_Some [of U ug lo s d grp] responseGroup_linkGroup [of U ug lo s d grp] by simp_all
qed

lemma collectDashboard_member:
  assumes "collectDashboard U ch c ug lo = Inr resp" and "grp \<in> set (drGroups resp)"
  shows "l \<in> set (dgLinks grp) \<Longrightarrow>
      any_link c lo (dgLinkGroup grp) l \<and> (lo \<longrightarrow> lnReplicate l) \<and>
      linkAllowedForGroups l (filter (\<lambda>g. g \<noteq> []) (map TrimSpace ug))"
    and "t \<in> set (dgTiles grp) \<Longrightarrow>
      from_infotile (dcReader c) (dgLinkGroup grp) t \<and> (lo \<longrightarrow> tlReplicate t)"
proof -
  obtain s where s: "collectAll U (ord_at ch 0) c lo = Inr s" "resp = buildResponse U (ord_at ch 1) ug lo s"
    using assms(1) by (auto simp: collectDashboard_Inr)
  note grp = buildResponse_group [OF assms(2) [unfolded s(2)]] and st = collectAll_state [OF s(1)]
  show "l \<in> set (dgLinks grp) \<Longrightarrow>
      any_link c lo (dgLinkGroup grp) l \<and> (lo \<longrightarrow> lnReplicate l) \<and>
      linkAllowedForGroups l (filter (\<lambda>g. g \<noteq> []) (map TrimSpace ug))"
    using st(2,4) by (auto simp: grp filterLinksForGroups_eq list_all_iff)
  show "t \<in> set (dgTiles grp) \<Longrightarrow>
      from_infotile (dcReader c) (dgLinkGroup grp) t \<and> (lo \<longrightarrow> tlReplicate t)"
    using st(3,4) by (auto simp: grp list_all_iff)
qed

lemma any_link_bookmark:
  assumes "any_link c lo g l" and "lnSource l = ''bookmark''"
  shows "from_bookmark (dcReader c) g l"
proof -
  have "\<not> from_annotated (dcReader c) g l"
    using assms(2)
    by (auto simp: from_annotated_def annotatedSources_def from_meta_def linkOf_def mkLink_def)
  moreover have "\<not> from_static (dcStaticLinks c) g l" "\<not> from_forecastle (dcReader c) inst g l"
    "\<not> from_peer client g l" "\<not> from_foreign m g l" for inst client m
    using assms(2)
    by (auto simp: from_static_def from_forecastle_def forecastleLink_def mkLink_def from_peer_def
        from_foreign_def)
  ultimately show ?thesis using assms(1) by (auto simp: any_link_def local_link_def)
qed

subsection \<open>Lemmas: errors\<close>

text \<open>
  The errors of the lists that a dashboard needs, in order: \<open>required\<close> is the error of a list,
  \<open>optional\<close> what is left of it for a kind that may be missing.
\<close>

definition required :: "error + 'a \<Rightarrow> error option" where
  "required result = (case result of Inl e \<Rightarrow> Some e | Inr _ \<Rightarrow> None)"

definition optional :: "Reader \<Rightarrow> error + 'a \<Rightarrow> error option" where
  "optional r result = Option.bind (required result) (rdIgnoreNotFound r)"

definition listErrors :: "Reader \<Rightarrow> Discovery option \<Rightarrow> error option list" where
  "listErrors r d =
     (let available = resourceAvailable d;
          kind = (\<lambda>g v k. rdListUnstructured r \<lparr>gvkGroup = g, gvkVersion = v, gvkKind = k\<rparr> [(labelEnabled, ''true'')]);
          gateway = ''gateway.networking.k8s.io'';
          group = (\<lambda>g v. \<lparr>gvGroup = g, gvVersion = v\<rparr>) in
      [required (rdListBookmarkGroups r),
       required (rdListBookmarks r),
       (if available (group ''forecastle.stakater.com'' ''v1alpha1'') ''ForecastleApp''
        then optional r (rdListForecastleApps r) else None),
       (if available (group ''networking.k8s.io'' ''v1'') ''Ingress''
        then required (rdListIngresses r [(labelEnabled, ''true'')]) else None),
       (if available (group gateway ''v1'') ''HTTPRoute'' then optional r (kind gateway ''v1'' ''HTTPRouteList'') else None),
       (if available (group gateway ''v1'') ''GRPCRoute'' then optional r (kind gateway ''v1'' ''GRPCRouteList'') else None),
       (if available (group gateway ''v1'') ''TLSRoute'' then optional r (kind gateway ''v1'' ''TLSRouteList'') else None),
       (if available (group gateway ''v1alpha2'') ''TCPRoute'' then optional r (kind gateway ''v1alpha2'' ''TCPRouteList'') else None),
       (if available (group ''traefik.io'' ''v1alpha1'') ''IngressRoute''
        then optional r (kind ''traefik.io'' ''v1alpha1'' ''IngressRouteList'')
        else if available (group ''traefik.containo.us'' ''v1alpha1'') ''IngressRoute''
        then optional r (kind ''traefik.containo.us'' ''v1alpha1'' ''IngressRouteList'') else None),
       required (rdListServices r [(labelEnabled, ''true'')]),
       required (rdListEndpointSlices r [(labelEnabled, ''true'')]),
       (if available (group ''externaldns.k8s.io'' ''v1alpha1'') ''DNSEndpoint''
        then optional r (kind ''externaldns.k8s.io'' ''v1alpha1'' ''DNSEndpointList'') else None),
       map_option (\<lambda>e. Errorf ''list InfoTiles: %w'' [] (Some e)) (required (rdListInfoTiles r))])"

definition firstError :: "error option list \<Rightarrow> error option" where
  "firstError es = (case List.map_filter id es of [] \<Rightarrow> None | e # _ \<Rightarrow> Some e)"

lemma firstError_simps [simp]:
  "firstError [] = None" "firstError (None # es) = firstError es" "firstError (Some e # es) = Some e"
  by (simp_all add: firstError_def)

lemma firstError_single [simp]: "firstError [x] = x"
  by (cases x) auto

lemma run_steps_error:
  assumes "\<And>s. snd (f s) = x" and "\<And>s. snd (run_steps fs s) = firstError es"
  shows "snd (run_steps (f # fs) s) = firstError (x # es)"
  using assms(1) [of s] assms(2) by (cases "f s"; cases x) auto

lemma run_steps_error2:
  assumes "\<And>s. snd (f s) = firstError [x, y]" and "\<And>s. snd (run_steps fs s) = firstError es"
  shows "snd (run_steps (f # fs) s) = firstError (x # y # es)"
  using assms(1) [of s] assms(2) by (cases "f s"; cases x; cases y) auto

lemma collector_errors:
  "snd (collectBookmarkGroups r s) = firstError [required (rdListBookmarkGroups r), required (rdListBookmarks r)]"
  "snd (collectForecastleApps U ch r i s) = optional r (rdListForecastleApps r)"
  "snd (collectIngresses r s) = required (rdListIngresses r enabledLabels)"
  "snd (collectHTTPRoutes r s) = optional r (rdListUnstructured r
     \<lparr>gvkGroup = ''gateway.networking.k8s.io'', gvkVersion = ''v1'', gvkKind = ''HTTPRouteList''\<rparr> enabledLabels)"
  "snd (collectGRPCRoutes r s) = optional r (rdListUnstructured r
     \<lparr>gvkGroup = ''gateway.networking.k8s.io'', gvkVersion = ''v1'', gvkKind = ''GRPCRouteList''\<rparr> enabledLabels)"
  "snd (collectTLSRoutes r s) = optional r (rdListUnstructured r
     \<lparr>gvkGroup = ''gateway.networking.k8s.io'', gvkVersion = ''v1'', gvkKind = ''TLSRouteList''\<rparr> enabledLabels)"
  "snd (collectTCPRoutes r s) = optional r (rdListUnstructured r
     \<lparr>gvkGroup = ''gateway.networking.k8s.io'', gvkVersion = ''v1alpha2'', gvkKind = ''TCPRouteList''\<rparr> enabledLabels)"
  "snd (collectIngressRoutes r gv s) = optional r (rdListUnstructured r
     \<lparr>gvkGroup = gvGroup gv, gvkVersion = gvVersion gv, gvkKind = ''IngressRouteList''\<rparr> enabledLabels)"
  "snd (collectServices r s) = required (rdListServices r enabledLabels)"
  "snd (collectEndpointSlices r s) = required (rdListEndpointSlices r enabledLabels)"
  "snd (collectDNSEndpoints r s) = optional r (rdListUnstructured r
     \<lparr>gvkGroup = ''externaldns.k8s.io'', gvkVersion = ''v1alpha1'', gvkKind = ''DNSEndpointList''\<rparr> enabledLabels)"
  "snd (collectInfoTiles r s) =
     map_option (\<lambda>e. Errorf ''list InfoTiles: %w'' [] (Some e)) (required (rdListInfoTiles r))"
             apply (simp_all only: optional_def required_def)
             apply (simp add: collectBookmarkGroups_def Let_def split: sum.split)
            apply (simp add: collectForecastleApps_def split: sum.split)
           apply (simp add: collectIngresses_def split: sum.split)
          apply (simp add: collectHTTPRoutes_def split: sum.split)
         apply (simp add: collectGRPCRoutes_def split: sum.split)
        apply (simp add: collectTLSRoutes_def split: sum.split)
       apply (simp add: collectTCPRoutes_def split: sum.split)
      apply (simp add: collectIngressRoutes_def split: sum.split)
     apply (simp add: collectServices_def split: sum.split)
    apply (simp add: collectEndpointSlices_def split: sum.split)
   apply (simp add: collectDNSEndpoints_def split: sum.split)
  apply (simp add: collectInfoTiles_def split: sum.split)
  done

lemma snd_whenAvailable:
  "snd (f s) = x \<Longrightarrow> snd (whenAvailable d gv kind f s) = (if resourceAvailable d gv kind then x else None)"
  by (simp add: whenAvailable_def)

lemma collectLocal_error: "snd (collectLocal U ch c) = firstError (listErrors (dcReader c) (dcDiscovery c))"
  unfolding collectLocal_def localSteps_def listErrors_def Let_def enabledLabels_def [symmetric]
    forecastleGV_def gatewayGV_def
  by (intro run_steps_error2 run_steps_error snd_whenAvailable)
    (simp_all only: collector_errors run_steps.simps snd_conv firstError_simps,
     simp add: traefikGVs_def collector_errors)

subsection \<open>A concrete instance\<close>

text \<open>
  A cluster with three bookmarks (one unreachable, one restricted to a group), an info tile and an
  annotated ingress, a peer and a foreign cluster, on which the properties below are exercised.
\<close>

definition demoUnicode :: unicode where
  "demoUnicode = \<lparr>uToLower = id, uToUpper = id, uEqualFold = (=)\<rparr>"

definition demoOrder :: "string order" where
  "demoOrder = (\<lambda>p ks. ks)"

lemma range_order_demo [simp]: "range_order demoOrder"
  by (simp add: demoOrder_def)

definition demoMeta :: "string \<Rightarrow> (string, string) gomap \<Rightarrow> ObjectMeta" where
  "demoMeta name ann = \<lparr>omNamespace = ''apps'', omName = name, omAnnotations = ann\<rparr>"

definition demoBookmark :: "string \<Rightarrow> bool \<Rightarrow> bool option \<Rightarrow> string list \<Rightarrow> Bookmark" where
  "demoBookmark name repl reachable gs =
     \<lparr>bmMeta = demoMeta name [],
      bmSpec = \<lparr>bsGroup = ''tools'', bsName = name, bsURL = ''https://x'', bsURLFrom = None,
                bsTarget = [], bsIcon = [], bsNetworkRestricted = False, bsReplicate = repl,
                bsGroups = gs, bsProperties = []\<rparr>,
      bmStatus = \<lparr>bstURLReachable = reachable, bstLastURLCheckAt = None, bstURLCheckError = [],
                  bstLastSyncedAt = None, bstConditions = []\<rparr>\<rparr>"

definition demoTile :: InfoTile where
  "demoTile =
     \<lparr>itMeta = demoMeta ''news'' [],
      itSpec = \<lparr>isName = ''news'', isGroup = ''tools'', isIcon = [], isURL = [], isTarget = [],
                isSource = [], isInterval = None, isReplicate = True, isHTTPRequest = None,
                isProcessor = []\<rparr>,
      itStatus = \<lparr>istContent = ''hello'', istLastFetchedAt = None, istLastError = []\<rparr>\<rparr>"

definition demoReader :: Reader where
  "demoReader =
     \<lparr>rdListBookmarkGroups = Inr [],
      rdListBookmarks = Inr [demoBookmark ''wiki'' True (Some True) [],
        demoBookmark ''git'' False (Some True) [''devs''], demoBookmark ''down'' True (Some False) []],
      rdListInfoTiles = Inr [demoTile],
      rdListForecastleApps = Inr [],
      rdListIngresses = (\<lambda>_. Inr
        [\<lparr>ingMeta = demoMeta ''shop'' [(annotationReplicate, ''true'')], ingRuleHosts = [''shop.example'']\<rparr>]),
      rdListServices = (\<lambda>_. Inr []),
      rdListEndpointSlices = (\<lambda>_. Inr []),
      rdListUnstructured = (\<lambda>_ _. Inl (External ''not found'')),
      rdGetIngress = (\<lambda>_ _. Inl (External ''not found'')),
      rdGetService = (\<lambda>_ _. Inl (External ''not found'')),
      rdGetUnstructured = (\<lambda>_ _ _. Inl (External ''not found'')),
      rdIgnoreNotFound = (\<lambda>_. None)\<rparr>"

definition demoPeer :: DashboardResponse where
  "demoPeer =
     \<lparr>drLinkGroups = [mkLinkGroup ''apps'' ''local''],
      drGroups = [\<lparr>dgName = ''apps'', dgLinkGroup = ''apps'',
        dgLinks = [mkLink ''remote'' ''https://r'' ''_self'' [] ''ingress'' [] False], dgTiles = [],
        dgSource = ''local''\<rparr>]\<rparr>"

definition demoSync :: SyncClient where
  "demoSync =
     \<lparr>scOptions = \<lparr>soBindAddress = [], soURLs = [''https://peer''], soSRVRecords = [],
        soTLS = \<lparr>stCA = [], stCert = [], stKey = [], stAuthCert = [], stAuthKey = []\<rparr>\<rparr>,
      scHTTPClient = None, scCache = [(''https://peer'', demoPeer)]\<rparr>"

definition demoManager :: Manager where
  "demoManager =
     \<lparr>mgConfigs = [], mgCaPool = None, mgKubeconfigPath = [],
      mgHandles = [\<lparr>chCfg = \<lparr>ccEndpoint = ''https://k8s'', ccAuthMethod = ''ctx'', ccAzureScope = []\<rparr>,
        chClient = Some demoReader, chDiscovery = None, chReady = True\<rparr>]\<rparr>"

definition demoCollector :: dashboardCollector where
  "demoCollector =
     \<lparr>dcReader = demoReader,
      dcDiscovery = Some (\<lambda>gv. if gvGroup gv = ''networking.k8s.io'' then Inr [''Ingress'']
                              else Inl (External ''no such group'')),
      dcForecastleInstance = [], dcLinkGroups = [], dcStaticLinks = [],
      dcSyncClient = Some demoSync, dcForeignClusters = Some demoManager\<rparr>"

definition demoTools :: "DashboardLink list \<Rightarrow> DashboardGroup" where
  "demoTools ls =
     \<lparr>dgName = ''tools'', dgLinkGroup = ''tools'', dgLinks = ls,
      dgTiles = [\<lparr>tlName = ''news'', tlIcon = [], tlURL = [], tlTarget = ''_self'', tlSource = [],
                  tlContent = ''hello'', tlReplicate = True\<rparr>],
      dgSource = ''local''\<rparr>"

definition demoApps :: "DashboardLink list \<Rightarrow> DashboardGroup" where
  "demoApps ls = \<lparr>dgName = ''apps'', dgLinkGroup = ''apps'', dgLinks = ls, dgTiles = [], dgSource = ''local''\<rparr>"

definition demoLink :: DashboardLink where
  "demoLink = mkLink ''git'' ''https://x'' ''_self'' [] ''bookmark'' [''devs''] False"

definition demoWiki :: DashboardLink where
  "demoWiki = mkLink ''wiki'' ''https://x'' ''_self'' [] ''bookmark'' [] True"

definition demoShop :: "string \<Rightarrow> DashboardLink" where
  "demoShop source = mkLink ''shop'' ''https://shop.example'' ''_self'' [] source [] True"

definition demoResponse :: DashboardResponse where
  "demoResponse =
     \<lparr>drLinkGroups = [mkLinkGroup ''apps'' ''local'', mkLinkGroup ''tools'' ''local''],
      drGroups =
        [demoApps [mkLink ''remote'' ''https://r'' ''_self'' [] ''sync:https://peer'' [] False,
           demoShop ''ingress'', demoShop ''foreign:https://k8s:ingress''],
         demoTools [demoLink, demoWiki]]\<rparr>"

definition demoExport :: DashboardResponse where
  "demoExport =
     \<lparr>drLinkGroups = [mkLinkGroup ''apps'' ''local'', mkLinkGroup ''tools'' ''local''],
      drGroups = [demoApps [demoShop ''ingress''], demoTools [demoWiki]]\<rparr>"

lemma demo_run:
  "collectDashboard demoUnicode demoOrder demoCollector [''devs''] False = Inr demoResponse"
  by code_simp

lemma demo_run_export:
  "collectDashboard demoUnicode demoOrder demoCollector [''devs''] True = Inr demoExport"
  by code_simp

lemma demo_group:
  "demoTools [demoLink, demoWiki] \<in> set (drGroups demoResponse)"
  "demoLink \<in> set (dgLinks (demoTools [demoLink, demoWiki]))"
  by (simp_all add: demoResponse_def demoTools_def)

lemma demo_export:
  "demoTools [demoWiki] \<in> set (drGroups demoExport)"
  by (simp add: demoExport_def)

subsection \<open>Properties\<close>

text \<open>
  C2: authorisation. A link in a dashboard is unrestricted, or one of its required groups is among
  the user's groups (trimmed and not empty), or the caller is the sync server, whose group list
  holds the wildcard.
\<close>

theorem collectDashboard_authorised:
  assumes "collectDashboard U ch c userGroups localOnly = Inr resp"
    and "grp \<in> set (drGroups resp)" and "l \<in> set (dgLinks grp)"
  shows "lnGroups l = [] \<or> allLinkGroupsWildcard \<in> TrimSpace ` set userGroups \<or>
    (\<exists>g \<in> set (lnGroups l). g \<noteq> [] \<and> g \<in> TrimSpace ` set userGroups)"
  using collectDashboard_member(1) [OF assms] by (auto simp: linkAllowedForGroups_iff)

theorem collectDashboard_authorised_witness:
  "demoLink \<in> set (dgLinks (demoTools [demoLink, demoWiki])) \<and> lnGroups demoLink = [''devs''] \<and>
   ''devs'' \<in> TrimSpace ` {''devs''}"
proof -
  have "TrimSpace ''devs'' = ''devs''" "allLinkGroupsWildcard \<noteq> ''devs''" by code_simp+
  moreover have "lnGroups demoLink = [''devs'']" by (simp add: demoLink_def mkLink_def)
  ultimately show ?thesis
    using collectDashboard_authorised [OF demo_run demo_group] demo_group(2) by simp
qed

text \<open>
  C12: completeness and order. No link group appears twice in a dashboard, and under every name the
  dashboard holds exactly the collected links of that name that the user may see, sorted stably by
  lower-case name, and all collected tiles, sorted likewise; nothing is lost, repeated or moved to
  another group.
\<close>

theorem collectDashboard_complete:
  assumes "range_order ch" and "collectDashboard U ch c userGroups localOnly = Inr resp"
  shows "\<exists>s. collectAll U (ord_at ch 0) c localOnly = Inr s \<and> ds_wf s \<and>
    distinct (map dgLinkGroup (drGroups resp)) \<and>
    (\<forall>k. let gs = filter (\<lambda>g. dgLinkGroup g = k) (drGroups resp) in
       concat (map dgLinks gs) =
         sort_key (\<lambda>l. ToLower U (lnName l)) (filterLinksForGroups (links s k) userGroups) \<and>
       concat (map dgTiles gs) = sort_key (\<lambda>t. ToLower U (tlName t)) (tiles s k))"
proof -
  obtain s where s: "collectAll U (ord_at ch 0) c localOnly = Inr s"
      "resp = buildResponse U (ord_at ch 1) userGroups localOnly s"
    using assms(2) by (auto simp: collectDashboard_Inr)
  have wf: "ds_wf s" and ch: "range_order (ord_at ch 1)"
    using collectAll_state(1) [OF s(1)] assms(1) by auto
  show ?thesis
    using s wf ch
    by (auto simp: Let_def buildResponse_distinct buildResponse_contents list_all_iff
        lno.stable_sort_sort_key tlo.stable_sort_sort_key intro!: exI [of _ s])
qed

theorem collectDashboard_complete_witness:
  "distinct (map dgLinkGroup (drGroups demoResponse)) \<and> length (drGroups demoResponse) = 2"
proof -
  have "length (drGroups demoResponse) = 2" by code_simp
  then show ?thesis using collectDashboard_complete [OF range_order_demo demo_run] by blast
qed

text \<open>
  C13: the links and tiles that peers get. The groups in the dashboard of the sync endpoint hold only links and
  tiles that are marked for replication, and only such that were collected from this instance's own
  configuration and cluster. (The list of link groups beside them is not restricted, see
  \<open>export_link_groups\<close>.)
\<close>

theorem collectDashboard_export:
  assumes "collectDashboard U ch c userGroups True = Inr resp" and "grp \<in> set (drGroups resp)"
  shows "(\<forall>l \<in> set (dgLinks grp). lnReplicate l \<and> local_link c (dgLinkGroup grp) l) \<and>
    (\<forall>t \<in> set (dgTiles grp). tlReplicate t \<and> from_infotile (dcReader c) (dgLinkGroup grp) t)"
  using collectDashboard_member [OF assms] by (auto simp: any_link_def)

theorem collectDashboard_export_witness:
  "local_link demoCollector ''tools'' demoWiki \<and> from_infotile demoReader ''tools'' (infoTile demoTile)"
proof -
  have "dgTiles (demoTools [demoWiki]) = [infoTile demoTile]" by code_simp
  then show ?thesis
    using collectDashboard_export [OF demo_run_export demo_export]
    by (simp add: demoTools_def demoCollector_def)
qed

text \<open>
  C14: no sync cycles. What an instance exports to its peers does not depend on what it received
  from them, nor on foreign clusters.
\<close>

theorem collectDashboard_local_independent:
  "collectDashboard U ch (c\<lparr>dcSyncClient := sc, dcForeignClusters := fm\<rparr>) userGroups True =
     collectDashboard U ch c userGroups True"
proof -
  have "collectLocal U ch (c\<lparr>dcSyncClient := sc, dcForeignClusters := fm\<rparr>) = collectLocal U ch c" for ch
    by (simp add: collectLocal_def localSteps_def initialState_def)
  then show ?thesis by (simp add: collectDashboard_def collectAll_eq split: prod.split option.split)
qed

text \<open>
  C21: errors. A dashboard is refused exactly when one of the lists it needs fails, and the error is that of
  the first list in the order of the source: the bookmark groups, the bookmarks, then each optional
  kind that discovery offers (of the two groups of Traefik the first available), services and endpoint
  slices in between, and the tiles last. Of the optional kinds except ingresses an error that
  \<open>client.IgnoreNotFound\<close> drops does not count. Links in the configuration, peers, foreign clusters and the
  groups of the user have no influence.
\<close>

theorem collectDashboard_error:
  "collectDashboard U ch c userGroups localOnly = Inl e \<longleftrightarrow>
     (\<exists>rest. List.map_filter id (listErrors (dcReader c) (dcDiscovery c)) = e # rest)"
proof -
  have "collectDashboard U ch c userGroups localOnly = Inl e \<longleftrightarrow> snd (collectLocal U (ord_at (ord_at ch 0) 0) c) = Some e"
    by (auto simp: collectDashboard_def collectAll_eq split: prod.split option.split)
  then show ?thesis unfolding collectLocal_error firstError_def by (auto split: list.splits)
qed

text \<open>
  C20: merging. Peers and foreign clusters only append: in a merged state the links of every group begin with the
  local ones, unchanged and in order. Each further link is one of the cached dashboard of some peer, from
  the group of that name, and is stamped with that peer, or one that a collector found in an active foreign
  cluster, marked for replication there and stamped with that cluster; it is otherwise
  unchanged. Tiles are the local ones.
\<close>

theorem collectAll_local_first:
  assumes "collectAll U ch c False = Inr s"
  shows "\<exists>t. collectLocal U (ord_at ch 0) c = (t, None) \<and>
    (\<exists>new. links s g = links t g @ new \<and>
       (\<forall>l \<in> set new.
          (\<exists>client peer resp grp l0. dcSyncClient c = Some client \<and> map_of (GetRemoteData client) peer = Some resp \<and>
             grp \<in> set (drGroups resp) \<and> g = remoteGroupName grp \<and> l0 \<in> set (dgLinks grp) \<and>
             l = l0\<lparr>lnSource := ''sync:'' @ peer\<rparr>) \<or>
          (\<exists>m fc r l0. dcForeignClusters c = Some m \<and> fc \<in> set (ActiveClusters m) \<and> ciClient fc = Some r \<and>
             foreign_link r g l0 \<and> lnReplicate l0 \<and>
             l = l0\<lparr>lnSource := ''foreign:'' @ ciName fc @ '':'' @ lnSource l0\<rparr>))) \<and>
    tiles s g = tiles t g"
proof -
  obtain t where t: "collectLocal U (ord_at ch 0) c = (t, None)" and s: "s = mergeOthers U ch c t"
    using assms by (auto simp: collectAll_eq split: prod.splits option.splits)
  note grows = mergeOthers_grows [of c t U ch, folded s, unfolded ds_grows_def]
  obtain new where new: "links s g = links t g @ new"
    and P: "list_all (\<lambda>l. (\<exists>client. dcSyncClient c = Some client \<and> from_peer client g l) \<or>
      (\<exists>m. dcForeignClusters c = Some m \<and> from_foreign m g l)) new"
    using grows by blast
  have "tiles s g = tiles t g" using grows by (auto simp: list_all_iff)
  with t new P show ?thesis
    by (intro exI [of _ t] exI [of _ new] conjI) (simp_all only: list_all_iff from_peer_def from_foreign_def, blast)
qed

theorem collectAll_local_first_witness:
  "\<exists>s t new. collectAll demoUnicode demoOrder demoCollector False = Inr s \<and>
     collectLocal demoUnicode (ord_at demoOrder 0) demoCollector = (t, None) \<and>
     links s ''apps'' = links t ''apps'' @ new \<and> length new = 2"
proof -
  have eq: "(case collectAll demoUnicode demoOrder demoCollector False of
      Inl _ \<Rightarrow> 0 | Inr s \<Rightarrow> length (links s ''apps'')) = 3" by code_simp
  have len: "length (links (fst (collectLocal demoUnicode (ord_at demoOrder 0) demoCollector)) ''apps'') = 1"
    by code_simp
  from eq obtain s where s: "collectAll demoUnicode demoOrder demoCollector False = Inr s"
    by (auto split: sum.splits)
  obtain t new where t: "collectLocal demoUnicode (ord_at demoOrder 0) demoCollector = (t, None)"
    and new: "links s ''apps'' = links t ''apps'' @ new"
    using collectAll_local_first [OF s, of "''apps''"] by blast
  then have "length new = 2" using eq len s by simp
  with s t new show ?thesis by blast
qed

text \<open>
  Only reachable bookmarks are shown. A link with source \<open>bookmark\<close> stems from a bookmark whose
  URL the controller has confirmed reachable, and carries its name, trimmed URL and groups.
\<close>

theorem collectDashboard_bookmarks:
  assumes "collectDashboard U ch c userGroups localOnly = Inr resp"
    and "grp \<in> set (drGroups resp)" and "l \<in> set (dgLinks grp)" and "lnSource l = ''bookmark''"
  shows "\<exists>b \<in> set (items_of (rdListBookmarks (dcReader c))).
    bstURLReachable (bmStatus b) = Some True \<and> dgLinkGroup grp = TrimSpace (bsGroup (bmSpec b)) \<and>
    lnName l = bsName (bmSpec b) \<and> lnURL l = TrimSpace (bsURL (bmSpec b)) \<and>
    lnGroups l = normalizedGroups (AStrs (bsGroups (bmSpec b)))"
proof -
  have "any_link c localOnly (dgLinkGroup grp) l"
    using collectDashboard_member(1) [OF assms(1-3)] by simp
  with any_link_bookmark [OF this assms(4)] show ?thesis
    by (auto simp: from_bookmark_def bookmarkLink_def mkLink_def)
qed

theorem collectDashboard_bookmarks_witness:
  "list_ex (\<lambda>b. bstURLReachable (bmStatus b) = Some True \<and> bsName (bmSpec b) = ''git'')
     (items_of (rdListBookmarks (dcReader demoCollector)))"
proof -
  have "lnSource demoLink = ''bookmark''" "lnName demoLink = ''git''"
    by (simp_all add: demoLink_def mkLink_def)
  with collectDashboard_bookmarks [OF demo_run demo_group this(1)] show ?thesis
    by (auto simp: list_ex_iff)
qed

end
