(* ===== verification/Auth.thy ===== *)
theory Auth
  imports Dashboard_Data
begin

text \<open>
  \<open>web/auth.go\<close>: session cookies signed with an HMAC, bearer tokens checked at the OIDC userinfo
  endpoint, and the cached reachability of the issuer. Base64 is modelled in full, so the round trip
  of a cookie is proved down to its characters. The HMAC, the JSON codec, the clock and HTTP are
  fields of an \<open>AuthWorld\<close>; no property of the HMAC is assumed. The locale \<open>signed_token\<close> is what
  the session code relies on.
\<close>

subsection \<open>Base64, URL alphabet without padding\<close>

definition b64alphabet :: string where
  "b64alphabet = ''ABCDEFGHIJKLMNOPQRSTUVWXYZabcdefghijklmnopqrstuvwxyz0123456789-_''"

definition b64char :: "nat \<Rightarrow> char" where
  "b64char n = b64alphabet ! (n mod 64)"

definition b64val :: "char \<Rightarrow> nat option" where
  "b64val c = map_option fst (find (\<lambda>(i, d). d = c) (enumerate 0 b64alphabet))"

fun EncodeToString :: "string \<Rightarrow> string" where
  "EncodeToString [] = []"
| "EncodeToString [a] = [b64char (byte a div 4), b64char (byte a mod 4 * 16)]"
| "EncodeToString [a, b] =
     [b64char (byte a div 4), b64char (byte a mod 4 * 16 + byte b div 16), b64char (byte b mod 16 * 4)]"
| "EncodeToString (a # b # c # rest) =
     [b64char (byte a div 4), b64char (byte a mod 4 * 16 + byte b div 16),
      b64char (byte b mod 16 * 4 + byte c div 64), b64char (byte c mod 64)] @ EncodeToString rest"

text \<open>The decoder skips line breaks and, not being strict, ignores the unused bits at the end.\<close>

fun b64bytes :: "nat list \<Rightarrow> string option" where
  "b64bytes [] = Some []"
| "b64bytes [w] = None"
| "b64bytes [w, x] = Some [char_of (w * 4 + x div 16)]"
| "b64bytes [w, x, y] = Some [char_of (w * 4 + x div 16), char_of (x mod 16 * 16 + y div 4)]"
| "b64bytes (w # x # y # z # rest) =
     map_option (\<lambda>bs. char_of (w * 4 + x div 16) # char_of (x mod 16 * 16 + y div 4) #
        char_of (y mod 4 * 64 + z) # bs) (b64bytes rest)"

definition DecodeString :: "string \<Rightarrow> error + string" where
  "DecodeString s =
     (case those (map b64val (filter (\<lambda>c. c \<noteq> CHR 0x0A \<and> c \<noteq> CHR 0x0D) s)) of
        None \<Rightarrow> Inl (External ''illegal base64 data'')
      | Some ns \<Rightarrow>
          (case b64bytes ns of None \<Rightarrow> Inl (External ''illegal base64 data'') | Some bs \<Rightarrow> Inr bs))"

subsection \<open>Types\<close>

definition sessionCookieName :: string where
  "sessionCookieName = ''cupboard_userinfo''"

definition sessionTTL :: duration where
  "sessionTTL = 24 * 3600 * second"

definition issuerCheckTTL :: duration where
  "issuerCheckTTL = 30 * second"

type_synonym userinfo = "(string \<times> any) list option"

record sessionPayload =
  spExpiresAt :: int
  spUserInfo :: userinfo
  spGroups :: "string list"

record authSession =
  ssUserInfo :: userinfo
  ssGroups :: "string list"

text \<open>The zero time, before any check, is \<open>None\<close>: \<open>now.Sub\<close> of it saturates far above the TTL.\<close>

record authService =
  asEnabled :: bool
  asCookieName :: string
  asSecret :: string
  asIssuerURL :: string
  asClientID :: string
  asRedirectPath :: string
  asScopes :: string
  asUserInfoEndpointOverride :: string
  asCachedUserInfoEP :: string
  asCachedIssuerReachable :: bool
  asCachedIssuerCheckedAt :: "time option"
  asCachedIssuerForURL :: string
  asCachedDiscoveryForURL :: string

record authConfigResponse =
  acEnabled :: bool
  acIssuerURL :: string
  acOpenIDConfigurationURL :: string
  acClientID :: string
  acRedirectPath :: string
  acScopes :: string

record Request =
  reqMethod :: string
  reqPath :: string
  reqHost :: string
  reqTLS :: bool
  reqHeader :: "string \<Rightarrow> string"
  reqCookie :: "string \<Rightarrow> string option"

record Cookie =
  ckName :: string
  ckValue :: string
  ckPath :: string
  ckMaxAge :: int
  ckHttpOnly :: bool
  ckSameSiteLax :: bool

text \<open>
  \<open>xwDo\<close> is a GET request to a URL with an \<open>Authorization\<close> header (\<open>[]\<close> is none): status code and
  body; \<open>xwUserInfo\<close>, \<open>xwDiscovery\<close>, \<open>xwMarshal\<close> and \<open>xwUnmarshal\<close> are the JSON codec at the types
  the code uses.
\<close>

record AuthWorld =
  xwNow :: time
  xwHMAC :: "string \<Rightarrow> string \<Rightarrow> string"
  xwNewRequest :: "string \<Rightarrow> error option"
  xwDo :: "string \<Rightarrow> string \<Rightarrow> error + (int \<times> string)"
  xwUserInfo :: "string \<Rightarrow> error + userinfo"
  xwDiscovery :: "string \<Rightarrow> error + string"
  xwMarshal :: "sessionPayload \<Rightarrow> string"
  xwUnmarshal :: "string \<Rightarrow> error + sessionPayload"

subsection \<open>Signed cookies\<close>

definition signCookie :: "(string \<Rightarrow> string \<Rightarrow> string) \<Rightarrow> string \<Rightarrow> string \<Rightarrow> string" where
  "signCookie hmac payload secret =
     (let payloadEncoded = EncodeToString payload;
          signature = EncodeToString (hmac secret payloadEncoded) in
      payloadEncoded @ ''.'' @ signature)"

definition verifySignedCookie :: "(string \<Rightarrow> string \<Rightarrow> string) \<Rightarrow> string \<Rightarrow> string \<Rightarrow> error + string" where
  "verifySignedCookie hmac v secret =
     (case SplitN2 v ''.'' of
        [payload, signature] \<Rightarrow>
          (case DecodeString signature of
             Inl e \<Rightarrow> Inl e
           | Inr provided \<Rightarrow>
               (if hmac secret payload \<noteq> provided then Inl (Errorf ''invalid cookie signature'' [] None)
                else DecodeString payload))
      | _ \<Rightarrow> Inl (Errorf ''invalid cookie format'' [] None))"

fun firstNonEmptyString :: "string list \<Rightarrow> string" where
  "firstNonEmptyString [] = []"
| "firstNonEmptyString (v # vs) = (if TrimSpace v \<noteq> [] then v else firstNonEmptyString vs)"

definition newAuthService :: "AuthOptions \<Rightarrow> authService" where
  "newAuthService options =
     (let secret = TrimSpace (aoCookieSecret options);
          secret = (if TrimSpace secret = [] then ''local-dev-cookie-secret-change-me'' else secret) in
      \<lparr>asEnabled = aoEnabled options, asCookieName = sessionCookieName, asSecret = secret,
       asIssuerURL = TrimSpace (aoIssuerURL options), asClientID = TrimSpace (aoClientID options),
       asRedirectPath = firstNonEmptyString [aoRedirectPath options, ''/auth/callback''],
       asScopes = firstNonEmptyString [aoScopes options, ''openid profile email''],
       asUserInfoEndpointOverride = TrimSpace (aoUserInfoEndpointURL options),
       asCachedUserInfoEP = [], asCachedIssuerReachable = False, asCachedIssuerCheckedAt = None,
       asCachedIssuerForURL = [], asCachedDiscoveryForURL = []\<rparr>)"

subsection \<open>Sessions\<close>

definition userGroupsFromUserInfo :: "userinfo \<Rightarrow> string list" where
  "userGroupsFromUserInfo userInfo =
     (case userInfo of
        None \<Rightarrow> []
      | Some m \<Rightarrow> normalizedGroups (case map_of m ''groups'' of Some v \<Rightarrow> v | None \<Rightarrow> ANil))"

definition newAuthSession :: "userinfo \<Rightarrow> authSession" where
  "newAuthSession userInfo =
     \<lparr>ssUserInfo = userInfo, ssGroups = userGroupsFromUserInfo userInfo\<rparr>"

definition unixTime :: "time \<Rightarrow> int" where
  "unixTime t = t div second"

definition setSessionCookie :: "AuthWorld \<Rightarrow> authService \<Rightarrow> authSession \<Rightarrow> Cookie" where
  "setSessionCookie w a session =
     (let payload = \<lparr>spExpiresAt = unixTime (xwNow w + sessionTTL), spUserInfo = ssUserInfo session,
                     spGroups = ssGroups session\<rparr> in
      \<lparr>ckName = asCookieName a, ckValue = signCookie (xwHMAC w) (xwMarshal w payload) (asSecret a),
       ckPath = ''/'', ckMaxAge = sessionTTL div second, ckHttpOnly = True, ckSameSiteLax = True\<rparr>)"

definition clearSessionCookie :: "authService \<Rightarrow> Cookie" where
  "clearSessionCookie a =
     \<lparr>ckName = asCookieName a, ckValue = [], ckPath = ''/'', ckMaxAge = -1, ckHttpOnly = True,
      ckSameSiteLax = True\<rparr>"

definition userInfoFromCookie :: "AuthWorld \<Rightarrow> authService \<Rightarrow> Request \<Rightarrow> error + authSession" where
  "userInfoFromCookie w a r =
     (case reqCookie r (asCookieName a) of
        None \<Rightarrow> Inl (External ''http: named cookie not present'')
      | Some v \<Rightarrow>
          (case verifySignedCookie (xwHMAC w) v (asSecret a) of
             Inl e \<Rightarrow> Inl e
           | Inr payloadJSON \<Rightarrow>
               (case xwUnmarshal w payloadJSON of
                  Inl e \<Rightarrow> Inl e
                | Inr payload \<Rightarrow>
                    (if unixTime (xwNow w) > spExpiresAt payload then
                       Inl (Errorf ''session cookie expired'' [] None)
                     else
                       Inr \<lparr>ssUserInfo = spUserInfo payload,
                            ssGroups = (if spGroups payload = [] then userGroupsFromUserInfo (spUserInfo payload)
                                        else spGroups payload)\<rparr>))))"

subsection \<open>Bearer tokens\<close>

definition bearerTokenFromRequest :: "unicode \<Rightarrow> Request \<Rightarrow> string" where
  "bearerTokenFromRequest U r =
     (let authHeader = TrimSpace (reqHeader r ''Authorization'') in
      if authHeader = [] then []
      else
        (case SplitN2 authHeader '' '' of
           [scheme, token] \<Rightarrow> if EqualFold U scheme ''Bearer'' then TrimSpace token else []
         | _ \<Rightarrow> []))"

definition userInfoEndpoint :: "AuthWorld \<Rightarrow> authService \<Rightarrow> (error + string) \<times> authService" where
  "userInfoEndpoint w a =
     (if asCachedUserInfoEP a \<noteq> [] then (Inr (asCachedUserInfoEP a), a)
      else if asUserInfoEndpointOverride a \<noteq> [] then
        (Inr (asUserInfoEndpointOverride a), a\<lparr>asCachedUserInfoEP := asUserInfoEndpointOverride a\<rparr>)
      else if asIssuerURL a = [] then
        (Inl (Errorf ''OIDC_USERINFO_ENDPOINT or OIDC_ISSUER_URL must be configured'' [] None), a)
      else
        (let discoveryURL = TrimRight (asIssuerURL a) CHR ''/'' @ ''/.well-known/openid-configuration'' in
         case xwNewRequest w discoveryURL of
           Some e \<Rightarrow> (Inl e, a)
         | None \<Rightarrow>
             (case xwDo w discoveryURL [] of
                Inl e \<Rightarrow> (Inl e, a)
              | Inr (status, body) \<Rightarrow>
                  (if status \<ge> 400 then (Inl (Errorf ''oidc discovery failed with %d'' [Itoa status] None), a)
                   else
                     (case xwDiscovery w body of
                        Inl e \<Rightarrow> (Inl e, a)
                      | Inr endpoint \<Rightarrow>
                          (if TrimSpace endpoint = [] then
                             (Inl (Errorf ''userinfo_endpoint missing from OIDC discovery'' [] None), a)
                           else (Inr endpoint, a\<lparr>asCachedUserInfoEP := endpoint\<rparr>)))))))"

definition fetchUserInfo :: "AuthWorld \<Rightarrow> authService \<Rightarrow> string \<Rightarrow> (error + userinfo) \<times> authService" where
  "fetchUserInfo w a token =
     (case userInfoEndpoint w a of
        (Inl e, a) \<Rightarrow> (Inl e, a)
      | (Inr endpoint, a) \<Rightarrow>
          (case xwNewRequest w endpoint of
             Some e \<Rightarrow> (Inl e, a)
           | None \<Rightarrow>
               (case xwDo w endpoint (''Bearer '' @ token) of
                  Inl e \<Rightarrow> (Inl e, a)
                | Inr (status, body) \<Rightarrow>
                    (if status \<ge> 400 then
                       (Inl (Errorf ''userinfo request failed with %d: %s'' [Itoa status, TrimSpace body] None), a)
                     else (xwUserInfo w body, a)))))"

text \<open>The result with the service's new state and the cookie that is set, if any\<close>

definition authenticateRequest ::
    "unicode \<Rightarrow> AuthWorld \<Rightarrow> authService \<Rightarrow> Request \<Rightarrow>
      (error + authSession) \<times> authService \<times> Cookie option" where
  "authenticateRequest U w a r =
     (if \<not> asEnabled a then
        (Inr \<lparr>ssUserInfo = Some [(''sub'', AString ''anonymous'')], ssGroups = []\<rparr>, a, None)
      else
        (let token = bearerTokenFromRequest U r in
         if token \<noteq> [] then
           (case fetchUserInfo w a token of
              (Inl e, a) \<Rightarrow> (Inl e, a, None)
            | (Inr userInfo, a) \<Rightarrow>
                (let session = newAuthSession userInfo in
                 (Inr session, a, Some (setSessionCookie w a session))))
         else (userInfoFromCookie w a r, a, None)))"

subsection \<open>The issuer\<close>

definition oidcDiscoveryURL :: "string \<Rightarrow> string" where
  "oidcDiscoveryURL issuerURL =
     (if TrimSpace issuerURL = [] then []
      else TrimRight issuerURL CHR ''/'' @ ''/.well-known/openid-configuration'')"

definition isReachable :: "AuthWorld \<Rightarrow> string \<Rightarrow> bool" where
  "isReachable w rawURL =
     (if TrimSpace rawURL = [] then False
      else
        (case xwNewRequest w rawURL of
           Some _ \<Rightarrow> False
         | None \<Rightarrow>
             (case xwDo w rawURL [] of Inl _ \<Rightarrow> False | Inr (status, _) \<Rightarrow> 200 \<le> status \<and> status < 400)))"

definition issuerAndDiscoveryReachable ::
    "AuthWorld \<Rightarrow> authService \<Rightarrow> string \<Rightarrow> string \<Rightarrow> bool \<times> authService" where
  "issuerAndDiscoveryReachable w a issuerURL discoveryURL =
     (let now = xwNow w in
      if asCachedIssuerForURL a = issuerURL \<and> asCachedDiscoveryForURL a = discoveryURL \<and>
         (case asCachedIssuerCheckedAt a of None \<Rightarrow> False | Some t \<Rightarrow> now - t \<le> issuerCheckTTL)
      then (asCachedIssuerReachable a, a)
      else
        (let reachable = isReachable w issuerURL \<and> isReachable w discoveryURL in
         (reachable,
          a\<lparr>asCachedIssuerForURL := issuerURL, asCachedDiscoveryForURL := discoveryURL,
            asCachedIssuerReachable := reachable, asCachedIssuerCheckedAt := Some now\<rparr>)))"

definition authConfig :: "AuthWorld \<Rightarrow> authService \<Rightarrow> string \<Rightarrow> authConfigResponse \<times> authService" where
  "authConfig w a requestIssuerURL =
     (if \<not> asEnabled a then
        (\<lparr>acEnabled = False, acIssuerURL = [], acOpenIDConfigurationURL = [], acClientID = [],
          acRedirectPath = [], acScopes = []\<rparr>, a)
      else
        (let issuerURL = asIssuerURL a;
             discoveryURL = oidcDiscoveryURL issuerURL;
             (reachable, a') =
               (if issuerURL \<noteq> [] \<and> discoveryURL \<noteq> []
                then issuerAndDiscoveryReachable w a issuerURL discoveryURL else (False, a)) in
         (\<lparr>acEnabled = asEnabled a,
           acIssuerURL = (if reachable then requestIssuerURL else issuerURL),
           acOpenIDConfigurationURL =
             (if reachable then TrimRight requestIssuerURL CHR ''/'' @ ''/.well-known/openid-configuration''
              else discoveryURL),
           acClientID = asClientID a, acRedirectPath = asRedirectPath a, acScopes = asScopes a\<rparr>, a')))"

definition forwardedFirst :: "string \<Rightarrow> string" where
  "forwardedFirst v =
     (case SplitN2 (TrimSpace v) '','' of [] \<Rightarrow> TrimSpace v | p # _ \<Rightarrow> TrimSpace p)"

definition requestBaseURL :: "Request \<Rightarrow> string" where
  "requestBaseURL r =
     (let scheme = forwardedFirst (reqHeader r ''X-Forwarded-Proto'');
          scheme = (if scheme = [] then (if reqTLS r then ''https'' else ''http'') else scheme);
          host = forwardedFirst (reqHeader r ''X-Forwarded-Host'');
          host = (if host = [] then reqHost r else host) in
      scheme @ ''://'' @ host)"

text \<open>
  What \<open>serveOpenIDConfiguration\<close> does with a request: answer by itself, or send it to a URL through a
  reverse proxy. \<open>parse\<close> is the error of \<open>url.Parse\<close>.
\<close>

datatype discoveryReply = DiscoveryError int string | DiscoveryProxy string string

definition serveOpenIDConfiguration ::
    "AuthWorld \<Rightarrow> (string \<Rightarrow> string option) \<Rightarrow> authService \<Rightarrow> Request \<Rightarrow> discoveryReply \<times> authService" where
  "serveOpenIDConfiguration w parse a r =
     (if \<not> asEnabled a then (DiscoveryError 404 ''404 page not found'', a)
      else if asIssuerURL a = [] then (DiscoveryError 503 ''OIDC_ISSUER_URL must be configured'', a)
      else
        (let discoveryURL = oidcDiscoveryURL (asIssuerURL a) in
         case issuerAndDiscoveryReachable w a (asIssuerURL a) discoveryURL of
           (False, a) \<Rightarrow> (DiscoveryError 404 ''404 page not found'', a)
         | (True, a) \<Rightarrow>
             (case parse discoveryURL of
                Some e \<Rightarrow> (DiscoveryError 500 e, a)
              | None \<Rightarrow> (DiscoveryProxy discoveryURL (requestBaseURL r), a))))"

datatype rewriteResult = Rewritten string | RewriteError error | RewritePanic

text \<open>A JSON \<open>null\<close> decodes to a nil map (\<open>None\<close>), and storing into it panics.\<close>

definition rewriteDiscovery ::
    "(string \<Rightarrow> error + (string, any) gomap option) \<Rightarrow> ((string, any) gomap \<Rightarrow> error + string) \<Rightarrow> string \<Rightarrow>
      string \<Rightarrow> rewriteResult" where
  "rewriteDiscovery unmarshal marshal requestIssuerURL body =
     (case unmarshal body of
        Inl _ \<Rightarrow> Rewritten body
      | Inr None \<Rightarrow> RewritePanic
      | Inr (Some payload) \<Rightarrow>
          (case marshal (gm_set payload ''issuer'' (AString requestIssuerURL)) of
             Inl e \<Rightarrow> RewriteError e
           | Inr rewritten \<Rightarrow> Rewritten rewritten))"

text \<open>
  What the reverse proxy makes of its round trip: \<open>ModifyResponse\<close> reads the body and rewrites it, and
  \<open>ErrorHandler\<close> answers 502 for a failed round trip as well as for an error of \<open>ModifyResponse\<close>. A panic
  reaches the HTTP server, which closes the connection without an answer. The round trip gives the
  status and the bytes of the body, which are compressed if the request accepted that and the issuer
  did so: the proxy passes \<open>Accept-Encoding\<close> on.
\<close>

datatype proxied = Proxied int string | ProxyFailed error | ProxyAborted

definition proxyDiscovery ::
    "(string \<Rightarrow> error + (string, any) gomap option) \<Rightarrow> ((string, any) gomap \<Rightarrow> error + string) \<Rightarrow> string \<Rightarrow>
      error + int \<times> (error + string) \<Rightarrow> proxied" where
  "proxyDiscovery unmarshal marshal requestIssuerURL roundTrip =
     (case roundTrip of
        Inl e \<Rightarrow> ProxyFailed e
      | Inr (status, Inl readErr) \<Rightarrow> ProxyFailed readErr
      | Inr (status, Inr body) \<Rightarrow>
          (case rewriteDiscovery unmarshal marshal requestIssuerURL body of
             Rewritten rewritten \<Rightarrow> Proxied status rewritten
           | RewriteError e \<Rightarrow> ProxyFailed e
           | RewritePanic \<Rightarrow> ProxyAborted))"

subsection \<open>Lemmas: base64\<close>

lemma byte_bound: "byte c < 256"
  by (rule nat_of_char_less_256)

lemma b64_tables:
  "list_all (\<lambda>n. b64val (b64alphabet ! n) = Some n) [0..<64]"
  "list_all (\<lambda>n. b64alphabet ! n \<noteq> CHR 0x0A \<and> b64alphabet ! n \<noteq> CHR 0x0D \<and> b64alphabet ! n \<noteq> CHR ''.'') [0..<64]"
  by code_simp+

lemma b64val_b64char [simp]: "n < 64 \<Longrightarrow> b64val (b64char n) = Some n"
  using b64_tables(1) by (simp add: b64char_def list_all_iff)

lemma b64char_plain: "b64char n \<noteq> CHR 0x0A" "b64char n \<noteq> CHR 0x0D" "b64char n \<noteq> CHR ''.''"
proof -
  have "n mod 64 \<in> set [0..<64]" by simp
  then show "b64char n \<noteq> CHR 0x0A" "b64char n \<noteq> CHR 0x0D" "b64char n \<noteq> CHR ''.''"
    using b64_tables(2) unfolding b64char_def list_all_iff by blast+
qed

lemma EncodeToString_plain: "c \<in> set (EncodeToString bs) \<Longrightarrow> c \<noteq> CHR 0x0A \<and> c \<noteq> CHR 0x0D \<and> c \<noteq> CHR ''.''"
  by (induction bs rule: EncodeToString.induct) (auto simp: b64char_plain)

text \<open>The four six-bit values of three bytes and back\<close>

lemma sextets:
  assumes "a < 256" "b < 256" "c < (256 :: nat)"
  shows "a div 4 < 64" "a mod 4 * 16 + b div 16 < 64" "b mod 16 * 4 + c div 64 < 64" "c mod 64 < 64"
    and "a mod 4 * 16 < 64" "b mod 16 * 4 < 64"
    and "a div 4 * 4 + (a mod 4 * 16 + b div 16) div 16 = a"
    and "(a mod 4 * 16 + b div 16) mod 16 * 16 + (b mod 16 * 4 + c div 64) div 4 = b"
    and "(b mod 16 * 4 + c div 64) mod 4 * 64 + c mod 64 = c"
proof -
  have lt: "a div 4 < 64" "b div 16 < 16" "c div 64 < 4" using assms by simp_all
  moreover have "a mod 4 < 4" "b mod 16 < 16" by simp_all
  ultimately show "a div 4 < 64" "a mod 4 * 16 + b div 16 < 64" "b mod 16 * 4 + c div 64 < 64"
    "c mod 64 < 64" "a mod 4 * 16 < 64" "b mod 16 * 4 < 64"
    by simp_all
  show "a div 4 * 4 + (a mod 4 * 16 + b div 16) div 16 = a"
    "(a mod 4 * 16 + b div 16) mod 16 * 16 + (b mod 16 * 4 + c div 64) div 4 = b"
    "(b mod 16 * 4 + c div 64) mod 4 * 64 + c mod 64 = c"
    using lt by simp_all
qed

lemma decode_sextets:
  "those (map b64val (EncodeToString bs)) \<noteq> None \<and>
   b64bytes (the (those (map b64val (EncodeToString bs)))) = Some bs"
proof (induction bs rule: EncodeToString.induct)
  case (2 a)
  show ?case using sextets [OF byte_bound [of a] _ _, of 0 0] by simp
next
  case (3 a b)
  show ?case using sextets [OF byte_bound [of a] byte_bound [of b], of 0] by simp
next
  case (4 a b c rest)
  then obtain ns where "those (map b64val (EncodeToString rest)) = Some ns" "b64bytes ns = Some rest"
    by auto
  then show ?case using sextets [OF byte_bound [of a] byte_bound [of b] byte_bound [of c]] by simp
qed simp

lemma DecodeString_EncodeToString: "DecodeString (EncodeToString bs) = Inr bs"
proof -
  have "filter (\<lambda>c. c \<noteq> CHR 0x0A \<and> c \<noteq> CHR 0x0D) (EncodeToString bs) = EncodeToString bs"
    using EncodeToString_plain by (auto intro!: filter_True)
  then show ?thesis using decode_sextets [of bs] by (auto simp: DecodeString_def)
qed

subsection \<open>Lemmas: signed cookies\<close>

lemma SplitN2_char:
  "SplitN2 v [c] = (if c \<in> set v then [takeWhile (\<lambda>x. x \<noteq> c) v, tl (dropWhile (\<lambda>x. x \<noteq> c) v)] else [v])"
proof (cases "c \<in> set v")
  case True
  then obtain p r where v: "v = p @ c # r" "c \<notin> set p" using split_list_first by fastforce
  then have "takeWhile (\<lambda>x. x \<noteq> c) v = p" "dropWhile (\<lambda>x. x \<noteq> c) v = c # r"
    by (auto simp: takeWhile_append dropWhile_append)
  then show ?thesis using v by (simp add: SplitN2_def Index_char)
next
  case False
  then show ?thesis using Index_char_None [of v c] by (simp add: SplitN2_def)
qed

lemma SplitN2_append: "c \<notin> set p \<Longrightarrow> SplitN2 (p @ c # r) [c] = [p, r]"
  by (simp add: SplitN2_def Index_char)

lemma signCookie_decodes: "verifySignedCookie hmac (signCookie hmac payload secret) secret = Inr payload"
proof -
  have "CHR ''.'' \<notin> set (EncodeToString payload)" using EncodeToString_plain by blast
  then show ?thesis
    by (simp add: verifySignedCookie_def signCookie_def Let_def SplitN2_append DecodeString_EncodeToString)
qed

lemma verifySignedCookie_parts:
  assumes "verifySignedCookie hmac v secret = Inr payload"
  shows "\<exists>body signature. v = body @ ''.'' @ signature \<and> CHR ''.'' \<notin> set body \<and>
    DecodeString signature = Inr (hmac secret body) \<and> DecodeString body = Inr payload"
proof -
  have "CHR ''.'' \<in> set v"
    using assms by (auto simp: verifySignedCookie_def SplitN2_char split: if_splits)
  then obtain body signature where v: "v = body @ CHR ''.'' # signature" "CHR ''.'' \<notin> set body"
    using split_list_first by fastforce
  with assms have "DecodeString signature = Inr (hmac secret body) \<and> DecodeString body = Inr payload"
    by (auto simp: verifySignedCookie_def SplitN2_append split: sum.splits if_splits)
  with v show ?thesis by auto
qed

text \<open>
  What the sessions rely on: a token that was signed verifies to its payload, and only what is
  \<open>valid\<close> verifies. Inside: sealed values come back through any codec that decodes what it encoded.
\<close>

locale signed_token =
  fixes sign :: "string \<Rightarrow> string"
    and verify :: "string \<Rightarrow> error + string"
    and valid :: "string \<Rightarrow> string \<Rightarrow> bool"
  assumes verify_sign: "verify (sign payload) = Inr payload"
    and verify_valid: "verify v = Inr payload \<Longrightarrow> valid v payload"
begin

lemma open_seal:
  assumes "decode (encode x) = Inr x"
  shows "(case verify (sign (encode x)) of Inl e \<Rightarrow> Inl e | Inr d \<Rightarrow> decode d) = Inr x"
  using assms by (simp add: verify_sign)

lemma sign_valid: "valid (sign payload) payload"
  by (rule verify_valid) (rule verify_sign)

lemma sign_inj: "sign p = sign q \<Longrightarrow> p = q"
  by (metis verify_sign sum.inject(2))

end

definition validCookie :: "(string \<Rightarrow> string \<Rightarrow> string) \<Rightarrow> string \<Rightarrow> string \<Rightarrow> string \<Rightarrow> bool" where
  "validCookie hmac secret v payload \<longleftrightarrow>
     (\<exists>body signature. v = body @ ''.'' @ signature \<and> CHR ''.'' \<notin> set body \<and>
        DecodeString signature = Inr (hmac secret body) \<and> DecodeString body = Inr payload)"

interpretation cookie: signed_token "\<lambda>p. signCookie hmac p secret"
    "\<lambda>v. verifySignedCookie hmac v secret" "validCookie hmac secret" for hmac secret
proof
  show "verifySignedCookie hmac (signCookie hmac payload secret) secret = Inr payload" for payload
    by (rule signCookie_decodes)
  show "validCookie hmac secret v payload" if "verifySignedCookie hmac v secret = Inr payload" for v payload
    unfolding validCookie_def by (rule verifySignedCookie_parts [OF that])
qed

lemma userInfoFromCookie_Inr:
  "userInfoFromCookie w a r = Inr session \<longleftrightarrow>
     (\<exists>v d payload. reqCookie r (asCookieName a) = Some v \<and>
        verifySignedCookie (xwHMAC w) v (asSecret a) = Inr d \<and> xwUnmarshal w d = Inr payload \<and>
        unixTime (xwNow w) \<le> spExpiresAt payload \<and>
        session = \<lparr>ssUserInfo = spUserInfo payload,
          ssGroups = (if spGroups payload = [] then userGroupsFromUserInfo (spUserInfo payload)
                      else spGroups payload)\<rparr>)"
proof (cases "reqCookie r (asCookieName a)")
  case (Some v)
  show ?thesis
  proof (cases "verifySignedCookie (xwHMAC w) v (asSecret a)")
    case (Inr d)
    show ?thesis
      by (cases "xwUnmarshal w d") (auto simp: userInfoFromCookie_def Some Inr)
  qed (simp add: userInfoFromCookie_def Some)
qed (simp add: userInfoFromCookie_def)

lemma fetchUserInfo_Inr:
  "fetchUserInfo w a token = (Inr userInfo, a') \<Longrightarrow>
     \<exists>endpoint status body. userInfoEndpoint w a = (Inr endpoint, a') \<and>
       xwDo w endpoint (''Bearer '' @ token) = Inr (status, body) \<and> status < 400 \<and>
       xwUserInfo w body = Inr userInfo"
  by (auto simp: fetchUserInfo_def split: prod.splits sum.splits option.splits if_splits)

lemma userInfoEndpoint_keeps:
  "snd (userInfoEndpoint w a) = a\<lparr>asCachedUserInfoEP := asCachedUserInfoEP (snd (userInfoEndpoint w a))\<rparr>"
  by (simp add: userInfoEndpoint_def Let_def split: option.split sum.split prod.split)

subsection \<open>A concrete instance\<close>

definition exampleSession :: authSession where
  "exampleSession = \<lparr>ssUserInfo = Some [(''sub'', AString ''ann''), (''groups'', AList [AString ''devs''])],
     ssGroups = [''devs'']\<rparr>"

text \<open>A world at a given time, with one user, whose token is \<open>tok\<close>, and a codec for her session\<close>

definition exampleAuthWorld :: "time \<Rightarrow> AuthWorld" where
  "exampleAuthWorld now =
     \<lparr>xwNow = now, xwHMAC = (\<lambda>k m. rev k @ m), xwNewRequest = (\<lambda>url. None),
      xwDo = (\<lambda>url auth. if auth = ''Bearer tok'' \<or> auth = [] then Inr (200, ''ann'')
                         else Inr (401, ''who'')),
      xwUserInfo = (\<lambda>body. Inr (ssUserInfo exampleSession)), xwDiscovery = (\<lambda>body. Inr ''https://idp/me''),
      xwMarshal = (\<lambda>p. ''session of ann''),
      xwUnmarshal = (\<lambda>d. if d = ''session of ann'' then Inr \<lparr>spExpiresAt = 86400,
          spUserInfo = ssUserInfo exampleSession, spGroups = ssGroups exampleSession\<rparr>
        else Inl (External ''unexpected end of JSON input''))\<rparr>"

definition exampleAuth :: authService where
  "exampleAuth = newAuthService \<lparr>aoEnabled = True, aoCookieSecret = ''s3cret'', aoIssuerURL = ''https://idp/'',
     aoClientID = ''cupboard'', aoRedirectPath = [], aoScopes = [], aoUserInfoEndpointURL = []\<rparr>"

definition exampleCookie :: string where
  "exampleCookie = ckValue (setSessionCookie (exampleAuthWorld 0) exampleAuth exampleSession)"

definition exampleRequest :: "string \<Rightarrow> string \<Rightarrow> string \<Rightarrow> Request" where
  "exampleRequest m path auth =
     \<lparr>reqMethod = m, reqPath = path, reqHost = ''cupboard.example'', reqTLS = True,
      reqHeader = (\<lambda>n. if n = ''Authorization'' then auth else []),
      reqCookie = (\<lambda>n. if n = sessionCookieName then Some exampleCookie else None)\<rparr>"

lemma example_cookie:
  "reqCookie (exampleRequest m path auth) (asCookieName exampleAuth) =
     Some (ckValue (setSessionCookie (exampleAuthWorld 0) exampleAuth exampleSession))"
  by (simp add: exampleRequest_def exampleAuth_def newAuthService_def Let_def exampleCookie_def)

subsection \<open>Properties\<close>

text \<open>
  A signed cookie verifies. Whatever the HMAC, verifying what \<open>signCookie\<close> made with the same
  secret returns the payload, byte by byte.
\<close>

theorem signCookie_verifies: "verifySignedCookie hmac (signCookie hmac payload secret) secret = Inr payload"
  by (rule cookie.verify_sign)

text \<open>
  C4: nothing else verifies. A cookie is accepted only if it is a payload and a signature separated
  by the first dot, the decoded signature is the HMAC of the encoded payload under the server's
  secret, and what is returned is the decoded payload.
\<close>

theorem verifySignedCookie_sound:
  assumes "verifySignedCookie hmac v secret = Inr payload"
  shows "\<exists>body signature. v = body @ ''.'' @ signature \<and> CHR ''.'' \<notin> set body \<and>
    DecodeString signature = Inr (hmac secret body) \<and> DecodeString body = Inr payload"
  using cookie.verify_valid [OF assms] by (simp add: validCookie_def)

theorem verifySignedCookie_sound_witness:
  "\<exists>body signature. ''ZGF0YQ.a2V5WkdGMFlR'' = body @ ''.'' @ signature \<and> DecodeString body = Inr ''data''"
proof -
  have "verifySignedCookie (\<lambda>k m. k @ m) ''ZGF0YQ.a2V5WkdGMFlR'' ''key'' = Inr ''data''" by code_simp
  from verifySignedCookie_sound [OF this] show ?thesis by blast
qed

text \<open>
  Without a configured secret the fallback, which is public, signs the sessions: anybody can make a
  cookie that is accepted, with any groups, the wildcard among them.
\<close>

lemma default_secret_forgeable:
  assumes "TrimSpace (aoCookieSecret options) = []"
    and "reqCookie r sessionCookieName = Some (signCookie (xwHMAC w) payloadJSON ''local-dev-cookie-secret-change-me'')"
    and "xwUnmarshal w payloadJSON = Inr payload"
    and "unixTime (xwNow w) \<le> spExpiresAt payload" and "spGroups payload = [allLinkGroupsWildcard]"
  shows "userInfoFromCookie w (newAuthService options) r =
    Inr \<lparr>ssUserInfo = spUserInfo payload, ssGroups = [allLinkGroupsWildcard]\<rparr>"
proof -
  have "asSecret (newAuthService options) = ''local-dev-cookie-secret-change-me''"
    "asCookieName (newAuthService options) = sessionCookieName"
    using assms(1) by (simp_all add: newAuthService_def Let_def)
  then show ?thesis using assms(2-5) by (simp add: userInfoFromCookie_def signCookie_decodes)
qed

lemma cookie_roundtrip:
  assumes "reqCookie r (asCookieName a) = Some (ckValue (setSessionCookie w a session))"
    and "xwHMAC w' = xwHMAC w"
    and "xwUnmarshal w' (xwMarshal w \<lparr>spExpiresAt = unixTime (xwNow w + sessionTTL),
           spUserInfo = ssUserInfo session, spGroups = ssGroups session\<rparr>) =
         Inr \<lparr>spExpiresAt = unixTime (xwNow w + sessionTTL),
           spUserInfo = ssUserInfo session, spGroups = ssGroups session\<rparr>"
  shows "userInfoFromCookie w' a r =
    (if unixTime (xwNow w') \<le> unixTime (xwNow w) + 86400 then
       Inr \<lparr>ssUserInfo = ssUserInfo session,
            ssGroups = (if ssGroups session = [] then userGroupsFromUserInfo (ssUserInfo session)
                        else ssGroups session)\<rparr>
     else Inl (Errorf ''session cookie expired'' [] None))"
proof -
  have "unixTime (xwNow w + sessionTTL) = unixTime (xwNow w) + 86400"
    by (simp add: unixTime_def sessionTTL_def second_def)
  then show ?thesis
    using assms by (simp add: userInfoFromCookie_def setSessionCookie_def Let_def cookie.verify_sign)
qed

text \<open>
  C17: sessions last a day. A session that was put into a cookie at one time is read back at a later
  one, with its groups (or those of the user information, if it had none), until 24 hours have
  passed, and is refused as expired afterwards, provided the JSON codec decodes the payload it
  encoded.
\<close>

theorem session_roundtrip:
  assumes "reqCookie r (asCookieName a) = Some (ckValue (setSessionCookie w a session))"
    and "xwHMAC w' = xwHMAC w"
    and "xwUnmarshal w' (xwMarshal w \<lparr>spExpiresAt = unixTime (xwNow w + sessionTTL),
           spUserInfo = ssUserInfo session, spGroups = ssGroups session\<rparr>) =
         Inr \<lparr>spExpiresAt = unixTime (xwNow w + sessionTTL),
           spUserInfo = ssUserInfo session, spGroups = ssGroups session\<rparr>"
  shows "userInfoFromCookie w' a r =
    (if unixTime (xwNow w') \<le> unixTime (xwNow w) + 86400 then
       Inr \<lparr>ssUserInfo = ssUserInfo session,
            ssGroups = (if ssGroups session = [] then userGroupsFromUserInfo (ssUserInfo session)
                        else ssGroups session)\<rparr>
     else Inl (Errorf ''session cookie expired'' [] None))"
  using assms by (rule cookie_roundtrip)

theorem session_roundtrip_witness:
  "userInfoFromCookie (exampleAuthWorld (3600 * second)) exampleAuth (exampleRequest ''GET'' ''/'' []) =
     Inr exampleSession"
proof -
  have "unixTime (xwNow (exampleAuthWorld 0) + sessionTTL) = 86400"
    "unixTime (xwNow (exampleAuthWorld 0)) = 0" "unixTime (xwNow (exampleAuthWorld (3600 * second))) = 3600"
    by (simp_all add: unixTime_def exampleAuthWorld_def sessionTTL_def second_def)
  then show ?thesis
    using session_roundtrip [OF example_cookie, of "exampleAuthWorld (3600 * second)"]
    by (simp add: exampleAuthWorld_def) (simp add: exampleSession_def)
qed

text \<open>
  C15: authentication fails closed. With authentication enabled a request yields a session only if
  the identity provider accepted its bearer token at the userinfo endpoint, or, without a bearer
  token, if it carries a cookie whose signature verifies and that has not expired.
\<close>

theorem authenticateRequest_sound:
  assumes "asEnabled a" and "authenticateRequest U w a r = (Inr session, a', cookie)"
  shows "(bearerTokenFromRequest U r \<noteq> [] \<and>
      (\<exists>endpoint status body userInfo. userInfoEndpoint w a = (Inr endpoint, a') \<and>
         xwDo w endpoint (''Bearer '' @ bearerTokenFromRequest U r) = Inr (status, body) \<and> status < 400 \<and>
         xwUserInfo w body = Inr userInfo \<and> session = newAuthSession userInfo)) \<or>
    (bearerTokenFromRequest U r = [] \<and> cookie = None \<and> a' = a \<and>
      (\<exists>v d payload. reqCookie r (asCookieName a) = Some v \<and> validCookie (xwHMAC w) (asSecret a) v d \<and>
         xwUnmarshal w d = Inr payload \<and> unixTime (xwNow w) \<le> spExpiresAt payload \<and>
         ssUserInfo session = spUserInfo payload))"
proof (cases "bearerTokenFromRequest U r = []")
  case True
  with assms have "userInfoFromCookie w a r = Inr session \<and> cookie = None \<and> a' = a"
    by (auto simp: authenticateRequest_def Let_def)
  with True show ?thesis
    unfolding userInfoFromCookie_Inr using cookie.verify_valid by fastforce
next
  case False
  with assms obtain userInfo where "fetchUserInfo w a (bearerTokenFromRequest U r) = (Inr userInfo, a')"
    and "session = newAuthSession userInfo"
    by (auto simp: authenticateRequest_def Let_def split: prod.splits sum.splits)
  with False show ?thesis by (auto dest!: fetchUserInfo_Inr)
qed

theorem authenticateRequest_sound_witness:
  "userInfoEndpoint (exampleAuthWorld 0) exampleAuth =
     (Inr ''https://idp/me'', exampleAuth\<lparr>asCachedUserInfoEP := ''https://idp/me''\<rparr>)"
proof -
  let ?U = "\<lparr>uToLower = id, uToUpper = id, uEqualFold = (=)\<rparr>"
  let ?r = "exampleRequest ''GET'' ''/'' ''Bearer tok''"
  have on: "asEnabled exampleAuth" by code_simp
  have tok: "bearerTokenFromRequest ?U ?r = ''tok''" by code_simp
  have url: "fst (userInfoEndpoint (exampleAuthWorld 0) exampleAuth) = Inr ''https://idp/me''"
    by code_simp
  obtain session a' cookie where run:
    "authenticateRequest ?U (exampleAuthWorld 0) exampleAuth ?r = (session, a', cookie)"
    by (metis prod_cases3)
  have "\<not> isl (fst (authenticateRequest ?U (exampleAuthWorld 0) exampleAuth ?r))"
    "asCachedUserInfoEP (fst (snd (authenticateRequest ?U (exampleAuthWorld 0) exampleAuth ?r))) =
       ''https://idp/me''" by code_simp+
  with run obtain s where s: "session = Inr s" and ep: "asCachedUserInfoEP a' = ''https://idp/me''"
    by (cases session) auto
  from authenticateRequest_sound [OF on run [unfolded s]] tok
  obtain endpoint where "userInfoEndpoint (exampleAuthWorld 0) exampleAuth = (Inr endpoint, a')" by auto
  with userInfoEndpoint_keeps [of "exampleAuthWorld 0" exampleAuth] ep url show ?thesis by simp
qed

text \<open>
  Bearer tokens. From a header made of the scheme in any case, a space, and a token that
  begins and ends with a visible character, that token is taken.
\<close>

theorem bearerTokenFromRequest_finds:
  assumes "reqHeader r ''Authorization'' = scheme @ '' '' @ token"
    and "scheme \<in> {''Bearer'', ''bearer'', ''BEARER''}"
    and "token \<noteq> []" "visible (hd token)" "visible (last token)"
  shows "bearerTokenFromRequest U r = token"
proof -
  have "scheme \<noteq> []" "visible (hd scheme)" and space: "CHR '' '' \<notin> set scheme"
    using assms(2) by (auto simp: visible_def)
  moreover have "ascii_lower CHR ''B'' = CHR ''b''" "ascii_lower CHR ''E'' = CHR ''e''"
    "ascii_lower CHR ''A'' = CHR ''a''" "ascii_lower CHR ''R'' = CHR ''r''" by code_simp+
  then have fold: "EqualFold U scheme ''Bearer''"
    using assms(2) by (auto simp: is_ascii_def) (simp_all add: ascii_lower_def)
  ultimately have "TrimSpace (scheme @ '' '' @ token) = scheme @ '' '' @ token"
    using assms(3,5) by (intro TrimSpace_visible) auto
  then show ?thesis
    using fold SplitN2_append [OF space, of token] TrimSpace_visible [OF assms(3-5)]
    by (simp add: bearerTokenFromRequest_def assms(1))
qed

theorem bearerTokenFromRequest_finds_witness:
  "bearerTokenFromRequest \<lparr>uToLower = id, uToUpper = id, uEqualFold = (=)\<rparr>
     (exampleRequest ''GET'' ''/'' ''bearer abc'') = ''abc''"
  by (rule bearerTokenFromRequest_finds [of _ "''bearer''"]) (simp_all add: exampleRequest_def visible_def)

text \<open>
  The issuer check is cached soundly. The answer is that of the last check of the same URLs if
  that is at most thirty seconds old, and otherwise the result of asking both URLs now; in either
  case repeating the question at the same time gives the same answer, whatever the network does
  then, and the configuration of the service is untouched.
\<close>

theorem issuerAndDiscoveryReachable_cached:
  assumes "issuerAndDiscoveryReachable w a issuer discovery = (reachable, a')"
  shows "(if asCachedIssuerForURL a = issuer \<and> asCachedDiscoveryForURL a = discovery \<and>
        (\<exists>t. asCachedIssuerCheckedAt a = Some t \<and> xwNow w - t \<le> issuerCheckTTL)
      then reachable = asCachedIssuerReachable a \<and> a' = a
      else reachable = (isReachable w issuer \<and> isReachable w discovery)) \<and>
    (\<forall>w'. xwNow w' = xwNow w \<longrightarrow> issuerAndDiscoveryReachable w' a' issuer discovery = (reachable, a')) \<and>
    asSecret a' = asSecret a \<and> asEnabled a' = asEnabled a"
proof (cases "asCachedIssuerForURL a = issuer \<and> asCachedDiscoveryForURL a = discovery \<and>
    (\<exists>t. asCachedIssuerCheckedAt a = Some t \<and> xwNow w - t \<le> issuerCheckTTL)")
  case True
  then have "issuerAndDiscoveryReachable v a issuer discovery = (asCachedIssuerReachable a, a)"
    if "xwNow v = xwNow w" for v
    using that by (auto simp: issuerAndDiscoveryReachable_def Let_def)
  with True assms show ?thesis by auto
next
  case False
  let ?b = "a\<lparr>asCachedIssuerForURL := issuer, asCachedDiscoveryForURL := discovery,
    asCachedIssuerReachable := isReachable w issuer \<and> isReachable w discovery,
    asCachedIssuerCheckedAt := Some (xwNow w)\<rparr>"
  from False have "issuerAndDiscoveryReachable w a issuer discovery =
      (isReachable w issuer \<and> isReachable w discovery, ?b)"
    by (auto simp: issuerAndDiscoveryReachable_def Let_def split: option.split)
  moreover have "issuerAndDiscoveryReachable v ?b issuer discovery =
      (isReachable w issuer \<and> isReachable w discovery, ?b)" if "xwNow v = xwNow w" for v
    using that by (simp add: issuerAndDiscoveryReachable_def Let_def issuerCheckTTL_def second_def)
  ultimately show ?thesis using False assms by auto
qed

theorem issuerAndDiscoveryReachable_cached_witness:
  "\<exists>a'. issuerAndDiscoveryReachable (exampleAuthWorld 7) exampleAuth ''https://idp/'' ''https://idp/d'' = (True, a') \<and>
     issuerAndDiscoveryReachable (exampleAuthWorld 7\<lparr>xwDo := (\<lambda>url auth. Inl (External ''down''))\<rparr>) a'
       ''https://idp/'' ''https://idp/d'' = (True, a')"
proof -
  let ?w = "exampleAuthWorld 7" and ?v = "exampleAuthWorld 7\<lparr>xwDo := (\<lambda>url auth. Inl (External ''down''))\<rparr>"
  have "fst (issuerAndDiscoveryReachable ?w exampleAuth ''https://idp/'' ''https://idp/d'') = True"
    by code_simp
  then obtain a' where run:
    "issuerAndDiscoveryReachable ?w exampleAuth ''https://idp/'' ''https://idp/d'' = (True, a')"
    by (cases "issuerAndDiscoveryReachable ?w exampleAuth ''https://idp/'' ''https://idp/d''") simp
  have "issuerAndDiscoveryReachable ?v a' ''https://idp/'' ''https://idp/d'' = (True, a')"
    by (rule issuerAndDiscoveryReachable_cached [OF run, THEN conjunct2, THEN conjunct1, rule_format]) simp
  with run show ?thesis by (intro exI [of _ a'] conjI)
qed

end
