(* ===== verification/Templates.thy ===== *)
theory Templates
  imports Auth
begin

text \<open>
  \<open>web/templates.go\<close> and \<open>readRootAsset\<close> of \<open>web/handler.go\<close>: where the page templates come from, and
  the functions they use. \<open>path.Clean\<close> and \<open>path.Join\<close> are modelled on path segments. A file system is
  a function from paths to read results, the template parser is a parameter.
\<close>

subsection \<open>Paths\<close>

fun cleanSegments :: "bool \<Rightarrow> string list \<Rightarrow> string list \<Rightarrow> string list" where
  "cleanSegments rooted out [] = rev out"
| "cleanSegments rooted out (seg # segs) =
     (if seg = [] \<or> seg = ''.'' then cleanSegments rooted out segs
      else if seg = ''..'' then
        (case out of
           [] \<Rightarrow> cleanSegments rooted (if rooted then [] else [''..'']) segs
         | prev # rest \<Rightarrow>
             if prev = ''..'' then cleanSegments rooted (''..'' # out) segs
             else cleanSegments rooted rest segs)
      else cleanSegments rooted (seg # out) segs)"

definition Clean :: "string \<Rightarrow> string" where
  "Clean p =
     (if p = [] then ''.''
      else
        (let rooted = (hd p = CHR ''/'');
             out = join_with CHR ''/'' (cleanSegments rooted [] (Split p CHR ''/'')) in
         if rooted then CHR ''/'' # out else if out = [] then ''.'' else out))"

definition Join :: "string list \<Rightarrow> string" where
  "Join elems =
     (let es = filter (\<lambda>e. e \<noteq> []) elems in if es = [] then [] else Clean (join_with CHR ''/'' es))"

subsection \<open>Template files\<close>

definition pageTemplateFileNames :: "string list" where
  "pageTemplateFileNames = [''page'', ''header'', ''footer'', ''content'', ''group'', ''link'', ''tile'']"

text \<open>\<open>NotExist\<close> are the errors that match \<open>fs.ErrNotExist\<close>.\<close>

datatype readResult = Contents string | NotExist error | ReadError error

type_synonym filesystem = "string \<Rightarrow> readResult"

definition pageTemplatePath :: "string \<Rightarrow> string \<Rightarrow> error + string" where
  "pageTemplatePath tset name =
     (if Contains tset [CHR 0x5C] then
        Inl (Errorf ''template set %q must use slash-separated paths'' [tset] None)
      else if list_ex (\<lambda>part. part = [] \<or> part = ''.'' \<or> part = ''..'') (Split tset CHR ''/'') then
        Inl (Errorf ''template set %q contains an invalid path segment'' [tset] None)
      else
        (let templatePath = Join [''templates'', tset, name @ ''.tmpl''] in
         if \<not> HasPrefix templatePath ''templates/'' then
           Inl (Errorf ''template path %q escapes templates directory'' [templatePath] None)
         else Inr templatePath))"

fun readCandidates :: "(string \<times> filesystem \<times> string) list \<Rightarrow> (error + string) option" where
  "readCandidates [] = None"
| "readCandidates ((source, fsys, path) # rest) =
     (case fsys path of
        Contents c \<Rightarrow> Some (Inr c)
      | NotExist _ \<Rightarrow> readCandidates rest
      | ReadError e \<Rightarrow> Some (Inl (Errorf ''read %s template %q: %w'' [source, path] (Some e))))"

definition readPageTemplateFile ::
    "filesystem \<Rightarrow> filesystem \<Rightarrow> string \<Rightarrow> string \<Rightarrow> error + string" where
  "readPageTemplateFile filesystemTemplateFS templateFS tset name =
     (case pageTemplatePath tset name of
        Inl e \<Rightarrow> Inl e
      | Inr selectedPath \<Rightarrow>
          (case pageTemplatePath ''default'' name of
             Inl e \<Rightarrow> Inl e
           | Inr defaultPath \<Rightarrow>
               (let candidates =
                      [(''filesystem'', filesystemTemplateFS, selectedPath),
                       (''embedded selected set'', templateFS, selectedPath)] @
                      (if selectedPath \<noteq> defaultPath
                       then [(''embedded default set'', templateFS, defaultPath)] else []) in
                case readCandidates candidates of
                  Some result \<Rightarrow> result
                | None \<Rightarrow>
                    Inl (Errorf
                      ''template %q not found in filesystem set %q, embedded set %q, or embedded default set''
                      [name, tset, tset] None))))"

record pageTemplate =
  ptTemplates :: "(string \<times> string) list"
  ptSet :: string

text \<open>
  \<open>parse\<close> is the error of \<open>Template.Parse\<close> on the text of a named template; the result keeps the
  parsed texts under their names.
\<close>

fun loadTemplates ::
    "filesystem \<Rightarrow> filesystem \<Rightarrow> (string \<Rightarrow> string \<Rightarrow> error option) \<Rightarrow> string \<Rightarrow> string list \<Rightarrow>
      error + (string \<times> string) list" where
  "loadTemplates fsys efs parse tset [] = Inr []"
| "loadTemplates fsys efs parse tset (name # names) =
     (case readPageTemplateFile fsys efs tset name of
        Inl e \<Rightarrow> Inl e
      | Inr contents \<Rightarrow>
          (let target = (if name \<noteq> ''page'' then ''_'' @ name else ''page'') in
           case parse target contents of
             Some e \<Rightarrow> Inl (Errorf ''parse template %q from set %q: %w'' [name, tset] (Some e))
           | None \<Rightarrow>
               (case loadTemplates fsys efs parse tset names of
                  Inl e \<Rightarrow> Inl e
                | Inr rest \<Rightarrow> Inr ((target, contents) # rest))))"

definition loadPageTemplate ::
    "filesystem \<Rightarrow> filesystem \<Rightarrow> (string \<Rightarrow> string \<Rightarrow> error option) \<Rightarrow> string \<Rightarrow> error + pageTemplate" where
  "loadPageTemplate fsys efs parse tset =
     (let selectedSet = TrimSpace tset;
          selectedSet = (if selectedSet = [] then ''default'' else selectedSet) in
      case loadTemplates fsys efs parse selectedSet pageTemplateFileNames of
        Inl e \<Rightarrow> Inl e
      | Inr ts \<Rightarrow> Inr \<lparr>ptTemplates = ts, ptSet = selectedSet\<rparr>)"

definition readRootAsset :: "filesystem \<Rightarrow> filesystem \<Rightarrow> string \<Rightarrow> error + string" where
  "readRootAsset filesystemTemplateFS embeddedFS name =
     (if Contains name ''/'' \<or> Contains name [CHR 0x5C] \<or> name = ''.'' \<or> name = ''..'' then
        Inl (External ''invalid argument'')
      else
        (case filesystemTemplateFS name of
           Contents c \<Rightarrow> Inr c
         | ReadError e \<Rightarrow> Inl e
         | NotExist _ \<Rightarrow>
             (case embeddedFS name of Contents c \<Rightarrow> Inr c | NotExist e \<Rightarrow> Inl e | ReadError e \<Rightarrow> Inl e)))"

subsection \<open>Template functions\<close>

definition isFontAwesomeKey :: "string \<Rightarrow> bool" where
  "isFontAwesomeKey v = HasPrefix (TrimSpace v) ''fa-''"

definition lowerFunc :: "unicode \<Rightarrow> string \<Rightarrow> string" where
  "lowerFunc U v = ToLower U (TrimSpace v)"

text \<open>\<open>parse\<close> is \<open>url.Parse\<close>: \<open>Host\<close> and \<open>Hostname()\<close> of the result\<close>

definition urlHost :: "(string \<Rightarrow> (string \<times> string) option) \<Rightarrow> string \<Rightarrow> string" where
  "urlHost parse v =
     (let raw = TrimSpace v in
      if raw = [] then []
      else
        (case parse raw of
           None \<Rightarrow> raw
         | Some (uhost, hostname) \<Rightarrow>
             (if uhost = [] then raw
              else (let host = TrimPrefix hostname ''www.'' in if host = [] then uhost else host))))"

definition continuation :: "nat \<Rightarrow> nat \<Rightarrow> char \<Rightarrow> bool" where
  "continuation lo hi c \<longleftrightarrow> lo \<le> byte c \<and> byte c \<le> hi"

text \<open>
  \<open>utf8.DecodeRuneInString\<close>: the bytes of the first code point, or nothing for an encoding error (or
  the encoded replacement character, which the caller cannot tell apart).
\<close>

fun firstRune :: "string \<Rightarrow> string option" where
  "firstRune [] = None"
| "firstRune (a # s) =
     (let n = byte a in
      if n < 0x80 then Some [a]
      else if 0xC2 \<le> n \<and> n \<le> 0xDF then
        (case s of b # _ \<Rightarrow> if continuation 0x80 0xBF b then Some [a, b] else None | _ \<Rightarrow> None)
      else if 0xE0 \<le> n \<and> n \<le> 0xEF then
        (case s of
           b # c # _ \<Rightarrow>
             if continuation (if n = 0xE0 then 0xA0 else 0x80) (if n = 0xED then 0x9F else 0xBF) b \<and>
                continuation 0x80 0xBF c \<and> [a, b, c] \<noteq> [CHR 0xEF, CHR 0xBF, CHR 0xBD]
             then Some [a, b, c] else None
         | _ \<Rightarrow> None)
      else if 0xF0 \<le> n \<and> n \<le> 0xF4 then
        (case s of
           b # c # d # _ \<Rightarrow>
             if continuation (if n = 0xF0 then 0x90 else 0x80) (if n = 0xF4 then 0x8F else 0xBF) b \<and>
                continuation 0x80 0xBF c \<and> continuation 0x80 0xBF d
             then Some [a, b, c, d] else None
         | _ \<Rightarrow> None)
      else None)"

definition initialFunc :: "unicode \<Rightarrow> string \<Rightarrow> string" where
  "initialFunc U v =
     (let trimmed = TrimSpace v in
      if trimmed = [] then ''?''
      else (case firstRune trimmed of None \<Rightarrow> ''?'' | Some r \<Rightarrow> ToUpper U r))"

definition iconChar :: "char \<Rightarrow> bool" where
  "iconChar c \<longleftrightarrow> (97 \<le> byte c \<and> byte c \<le> 122) \<or> (48 \<le> byte c \<and> byte c \<le> 57) \<or> c = CHR ''-''"

text \<open>The regular expression \<open>^[a-z0-9-]+$\<close>\<close>

definition iconNamePattern :: "string \<Rightarrow> bool" where
  "iconNamePattern name \<longleftrightarrow> name \<noteq> [] \<and> list_all iconChar name"

definition iconAssetURL :: "string \<Rightarrow> string" where
  "iconAssetURL v =
     (let (pre, name, found) = Cut (TrimSpace v) '':'' in
      if \<not> found \<or> \<not> iconNamePattern name then []
      else if pre = ''lucide'' then ''/static/icons/lucide/'' @ name @ ''.svg''
      else if pre = ''tabler'' then ''/static/icons/tabler/'' @ name @ ''.svg''
      else if pre = ''hero'' then ''/static/icons/heroicons/24/outline/'' @ name @ ''.svg''
      else [])"

subsection \<open>Lemmas\<close>

definition plainSegment :: "string \<Rightarrow> bool" where
  "plainSegment seg \<longleftrightarrow> seg \<noteq> [] \<and> seg \<noteq> ''.'' \<and> seg \<noteq> ''..'' \<and> CHR ''/'' \<notin> set seg"

lemma cleanSegments_plain:
  "list_all plainSegment segs \<Longrightarrow> cleanSegments rooted out segs = rev out @ segs"
  by (induction segs arbitrary: out) (auto simp: plainSegment_def)

lemma hd_join_with: "segs \<noteq> [] \<Longrightarrow> hd segs \<noteq> [] \<Longrightarrow> hd (join_with c segs) = hd (hd segs)"
  by (induction c segs rule: join_with.induct) auto

lemma join_with_ne: "segs \<noteq> [] \<Longrightarrow> hd segs \<noteq> [] \<Longrightarrow> join_with c segs \<noteq> []"
  by (induction c segs rule: join_with.induct) auto

lemma Clean_plain:
  assumes "segs \<noteq> []" "list_all plainSegment segs"
  shows "Clean (join_with CHR ''/'' segs) = join_with CHR ''/'' segs"
proof -
  have "plainSegment (hd segs)" using assms by (cases segs) auto
  then have hd: "hd segs \<noteq> []" "hd (hd segs) \<noteq> CHR ''/''"
    by (auto simp: plainSegment_def dest!: hd_in_set)
  have "Split (join_with CHR ''/'' segs) CHR ''/'' = segs"
    using assms by (intro Split_join) (auto simp: plainSegment_def list_all_iff)
  then show ?thesis
    using assms hd join_with_ne [OF assms(1) hd(1)] hd_join_with [OF assms(1) hd(1), of "CHR ''/''"]
    by (simp add: Clean_def Let_def cleanSegments_plain)
qed

lemma join_with_append:
  "xs \<noteq> [] \<Longrightarrow> ys \<noteq> [] \<Longrightarrow> join_with c (xs @ ys) = join_with c xs @ [c] @ join_with c ys"
proof (induction c xs rule: join_with.induct)
  case (2 c p)
  then show ?case by (cases ys) auto
qed auto

lemma templateName_plain:
  "name \<in> set pageTemplateFileNames \<Longrightarrow> plainSegment (name @ ''.tmpl'')"
  by (auto simp: pageTemplateFileNames_def plainSegment_def)

lemma Split_plain:
  "list_all plainSegment (Split s CHR ''/'') \<longleftrightarrow>
     \<not> list_ex (\<lambda>part. part = [] \<or> part = ''.'' \<or> part = ''..'') (Split s CHR ''/'')"
  by (auto simp: list_all_iff list_ex_iff plainSegment_def dest: Split_parts_no_sep)

lemma templatePath_join:
  assumes "plainSegment (name @ ''.tmpl'')" and "list_all plainSegment (Split tset CHR ''/'')"
  shows "Join [''templates'', tset, name @ ''.tmpl''] = ''templates/'' @ tset @ ''/'' @ name @ ''.tmpl''"
proof -
  let ?segs = "[''templates''] @ Split tset CHR ''/'' @ [name @ ''.tmpl'']"
  have "tset \<noteq> []" using assms(2) by (auto simp: plainSegment_def)
  moreover have eq: "''templates/'' @ tset @ ''/'' @ name @ ''.tmpl'' = join_with CHR ''/'' ?segs"
    using join_with_append [of "[''templates'']" "Split tset CHR ''/'' @ [name @ ''.tmpl'']" "CHR ''/''"]
      join_with_append [of "Split tset CHR ''/''" "[name @ ''.tmpl'']" "CHR ''/''"]
    by simp
  moreover have "list_all plainSegment ?segs" using assms by (simp add: plainSegment_def)
  then have "Clean (join_with CHR ''/'' ?segs) = join_with CHR ''/'' ?segs" by (intro Clean_plain) auto
  ultimately show ?thesis by (simp add: Join_def)
qed

lemma pageTemplatePath_eq:
  assumes "name \<in> set pageTemplateFileNames"
  shows "pageTemplatePath tset name =
    (if CHR 0x5C \<in> set tset then
       Inl (Errorf ''template set %q must use slash-separated paths'' [tset] None)
     else if \<not> list_all plainSegment (Split tset CHR ''/'') then
       Inl (Errorf ''template set %q contains an invalid path segment'' [tset] None)
     else Inr (''templates/'' @ tset @ ''/'' @ name @ ''.tmpl''))"
proof -
  have "Contains tset [CHR 0x5C] \<longleftrightarrow> CHR 0x5C \<in> set tset"
    using Index_char_None [of tset "CHR 0x5C"] by (auto simp: Contains_def)
  then show ?thesis
    using templatePath_join [OF templateName_plain [OF assms], of tset]
    by (simp add: pageTemplatePath_def Split_plain HasPrefix_def)
qed

lemma default_plain: "CHR 0x5C \<notin> set ''default''" "list_all plainSegment (Split ''default'' CHR ''/'')"
  by (simp_all add: plainSegment_def)

definition no_read_error :: "filesystem \<Rightarrow> bool" where
  "no_read_error fsys \<longleftrightarrow> (\<forall>p e. fsys p \<noteq> ReadError e)"

lemma readPageTemplateFile_found:
  assumes "name \<in> set pageTemplateFileNames" and "CHR 0x5C \<notin> set tset"
    and "list_all plainSegment (Split tset CHR ''/'')"
    and "no_read_error fsys" "no_read_error efs"
    and "\<exists>c. efs (''templates/default/'' @ name @ ''.tmpl'') = Contents c"
  shows "\<exists>c. readPageTemplateFile fsys efs tset name = Inr c"
  using assms default_plain
  by (auto simp: readPageTemplateFile_def pageTemplatePath_eq no_read_error_def Let_def
      split: readResult.splits)

lemma loadTemplates_found:
  assumes "set names \<subseteq> set pageTemplateFileNames"
    and "\<And>name. name \<in> set pageTemplateFileNames \<Longrightarrow> \<exists>c. readPageTemplateFile fsys efs tset name = Inr c"
    and "parse = (\<lambda>n c. None)"
  shows "\<exists>ts. loadTemplates fsys efs parse tset names = Inr ts \<and> length ts = length names"
  using assms(1)
proof (induction names)
  case (Cons name names)
  then obtain ts where "loadTemplates fsys efs parse tset names = Inr ts" "length ts = length names"
    by auto
  moreover obtain c where "readPageTemplateFile fsys efs tset name = Inr c"
    using assms(2) [of name] Cons.prems by auto
  ultimately show ?case by (simp add: assms(3) Let_def)
qed simp

subsection \<open>Properties\<close>

text \<open>
  C40: template paths stay inside the templates directory. A set with a backslash, or with an
  empty, \<open>.\<close> or \<open>..\<close> segment, is refused; for any other set the path is exactly
  \<open>templates/\<close>, the set, a slash and the file name, so that cleaning changes nothing and no
  template is read from elsewhere.
\<close>

theorem pageTemplatePath_exact:
  assumes "name \<in> set pageTemplateFileNames"
  shows "pageTemplatePath tset name =
    (if CHR 0x5C \<in> set tset then
       Inl (Errorf ''template set %q must use slash-separated paths'' [tset] None)
     else if \<not> list_all plainSegment (Split tset CHR ''/'') then
       Inl (Errorf ''template set %q contains an invalid path segment'' [tset] None)
     else Inr (''templates/'' @ tset @ ''/'' @ name @ ''.tmpl''))"
  by (rule pageTemplatePath_eq [OF assms])

theorem pageTemplatePath_exact_witness:
  "pageTemplatePath ''a/../../etc'' ''page'' =
     Inl (Errorf ''template set %q contains an invalid path segment'' [''a/../../etc''] None)"
proof -
  have "''page'' \<in> set pageTemplateFileNames" by (simp add: pageTemplateFileNames_def)
  from pageTemplatePath_exact [OF this, of "''a/../../etc''"] show ?thesis
    by (simp add: plainSegment_def)
qed

text \<open>
  Templates always load. If the embedded default set is complete, every file can be read or
  does not exist, and every template parses, then any admissible set name, or a blank one, yields
  all seven templates: files the set lacks come from the default set.
\<close>

theorem loadPageTemplate_succeeds:
  assumes "CHR 0x5C \<notin> set tset" and "TrimSpace tset = tset"
    and "tset = [] \<or> list_all plainSegment (Split tset CHR ''/'')"
    and "no_read_error fsys" "no_read_error efs"
    and "\<And>name. name \<in> set pageTemplateFileNames \<Longrightarrow>
           \<exists>c. efs (''templates/default/'' @ name @ ''.tmpl'') = Contents c"
    and "parse = (\<lambda>n c. None)"
  shows "\<exists>t. loadPageTemplate fsys efs parse tset = Inr t \<and> length (ptTemplates t) = 7 \<and>
    ptSet t = (if tset = [] then ''default'' else tset)"
proof -
  define sel where "sel = (if tset = [] then ''default'' else tset)"
  have sel: "CHR 0x5C \<notin> set sel" "list_all plainSegment (Split sel CHR ''/'')"
    using assms(1,3) default_plain by (auto simp: sel_def)
  have found: "\<exists>c. readPageTemplateFile fsys efs sel name = Inr c"
    if "name \<in> set pageTemplateFileNames" for name
    by (rule readPageTemplateFile_found [OF that sel assms(4,5) assms(6) [OF that]])
  obtain ts where "loadTemplates fsys efs parse sel pageTemplateFileNames = Inr ts"
    and "length ts = length pageTemplateFileNames"
    using loadTemplates_found [OF subset_refl found assms(7)] by auto
  then show ?thesis
    using assms(2) by (auto simp: loadPageTemplate_def Let_def sel_def pageTemplateFileNames_def)
qed

definition exampleFS :: "string \<Rightarrow> filesystem" where
  "exampleFS dir p = (if HasPrefix p dir then Contents p else NotExist (External p))"

lemma exampleFS_ok: "no_read_error (exampleFS dir)"
  by (simp add: no_read_error_def exampleFS_def)

theorem loadPageTemplate_succeeds_witness:
  "\<exists>t. loadPageTemplate (exampleFS ''none/'') (exampleFS ''templates/default/'') (\<lambda>n c. None) ''dark'' = Inr t \<and>
     length (ptTemplates t) = 7 \<and> ptSet t = (if ''dark'' = [] then ''default'' else ''dark'')"
proof (rule loadPageTemplate_succeeds [OF _ _ _ exampleFS_ok exampleFS_ok])
  show "TrimSpace ''dark'' = ''dark''" by code_simp
  show "CHR 0x5C \<notin> set ''dark''" by simp
  show "''dark'' = [] \<or> list_all plainSegment (Split ''dark'' CHR ''/'')"
    by (simp add: plainSegment_def)
  show "\<exists>c. exampleFS ''templates/default/'' (''templates/default/'' @ name @ ''.tmpl'') = Contents c" for name
    by (simp add: exampleFS_def HasPrefix_def)
qed simp

text \<open>
  Icon names cannot leave the icon directories. A URL that \<open>iconAssetURL\<close> returns is one of three
  directories, a non-empty name of lower-case letters, digits and hyphens, and \<open>.svg\<close>.
\<close>

theorem iconAssetURL_safe:
  "iconAssetURL v = [] \<or>
   (\<exists>dir name. dir \<in> {''lucide'', ''tabler'', ''heroicons/24/outline''} \<and> name \<noteq> [] \<and>
      list_all iconChar name \<and> iconAssetURL v = ''/static/icons/'' @ dir @ ''/'' @ name @ ''.svg'')"
proof -
  obtain pre name found where cut: "Cut (TrimSpace v) '':'' = (pre, name, found)"
    by (cases "Cut (TrimSpace v) '':''") auto
  consider "\<not> found \<or> \<not> iconNamePattern name \<or> pre \<notin> {''lucide'', ''tabler'', ''hero''}"
    | "found" "iconNamePattern name" "pre = ''lucide''" | "found" "iconNamePattern name" "pre = ''tabler''"
    | "found" "iconNamePattern name" "pre = ''hero''" by auto
  then show ?thesis
  proof cases
    case 1
    then show ?thesis by (auto simp: iconAssetURL_def cut)
  next
    case 2
    then show ?thesis
      by (intro disjI2 exI [of _ "''lucide''"] exI [of _ name]) (simp add: iconAssetURL_def cut iconNamePattern_def)
  next
    case 3
    then show ?thesis
      by (intro disjI2 exI [of _ "''tabler''"] exI [of _ name]) (simp add: iconAssetURL_def cut iconNamePattern_def)
  next
    case 4
    then show ?thesis
      by (intro disjI2 exI [of _ "''heroicons/24/outline''"] exI [of _ name])
        (simp add: iconAssetURL_def cut iconNamePattern_def)
  qed
qed

end
