(* ===== verification/Notifier.thy ===== *)
theory Notifier
  imports Auth "HOL-Library.Sublist"
begin

text \<open>
  \<open>web/notifier.go\<close>: the WebSocket clients and the loop that tells them about changes. The loop runs beside
  the goroutines of the connections and beside every caller of \<open>Notify\<close>, and all of them share the map of
  clients under a mutex. A function is the list of the instructions it executes (\<open>code\<close>), a goroutine
  is the code it has left, and a step of the program is one instruction of one goroutine, a call of
  \<open>Notify\<close>, a new connection, or a choice of the loop's \<open>select\<close>. A goroutine that has to lock a mutex
  which is held cannot step, so that a deadlock would be a state the loop never leaves. Lemmas: the map is
  touched only under the mutex, the mutex is always released, a signal is never lost, and every
  broadcast reaches all clients of its snapshot.
\<close>

type_synonym conn = nat

datatype message = TextPing | WSPing

subsection \<open>Code\<close>

text \<open>
  \<open>HasClients\<close> is \<open>hasClients := len(n.clients) > 0\<close>, \<open>IfClients\<close> the conditional call of \<open>broadcastPing\<close>,
  \<open>Copy\<close> the loop of \<open>snapshot\<close>, \<open>CloseEach\<close> the loop of \<open>closeAll\<close>, \<open>Read\<close> the loop of a connection
  that reads until an error. A deferred unlock stands at the end.
\<close>

datatype instr = Lock | Unlock | Insert conn | Delete conn | HasClients | IfClients | Copy message
  | WriteMessage message conn | Close conn | CloseEach | Read conn | Return

type_synonym code = "instr list"

definition registerCode :: "conn \<Rightarrow> code" where
  "registerCode c = [Lock, Insert c, Unlock]"

definition unregisterCode :: "conn \<Rightarrow> code" where
  "unregisterCode c = [Lock, Delete c, Unlock]"

definition closeAllCode :: code where
  "closeAllCode = [Lock, CloseEach, Unlock]"

definition snapshotCode :: "message \<Rightarrow> code" where
  "snapshotCode m = [Lock, Copy m, Unlock]"

text \<open>
  \<open>broadcastPing\<close> and \<open>broadcastWSPing\<close> begin with their snapshot; the instruction \<open>Copy\<close> adds the writes to
  the connections it finds.
\<close>

definition broadcastCode :: "message \<Rightarrow> code" where
  "broadcastCode m = snapshotCode m"

text \<open>The branch of the limiter in \<open>Start\<close>, after \<open>pending = false\<close>\<close>

definition limiterCode :: code where
  "limiterCode = [Lock, HasClients, Unlock, IfClients]"

text \<open>What the handler of \<open>/api/dashboard/updates\<close> does with an upgraded connection\<close>

definition connectionCode :: "conn \<Rightarrow> code" where
  "connectionCode c = registerCode c @ [Read c] @ unregisterCode c @ [Close c]"

subsection \<open>State\<close>

datatype agent = Loop | Handler conn

record notifier =
  nfMu :: "agent option"
  nfClients :: "conn list"
  nfNotify :: bool
  nfPending :: bool
  nfHasClients :: bool
  nfLoop :: "code option"
  nfHandlers :: "(conn, code) gomap"
  nfClosed :: "conn list"

text \<open>
  \<open>nfMu\<close> is the holder of the mutex, \<open>nfClients\<close> lists the keys of the map of connections, \<open>nfNotify\<close> says
  whether the channel, which has room for one signal, holds it; \<open>nfPending\<close> and \<open>nfHasClients\<close> are locals of
  \<open>Start\<close>; \<open>nfLoop\<close> is the code \<open>Start\<close> has left before it is back in \<open>select\<close>, and \<open>None\<close> after its return;
  \<open>nfHandlers\<close> has the code left for every connection there has been, and \<open>nfClosed\<close> the connections that
  were closed.
\<close>

definition NewDashboardNotifier :: notifier where
  "NewDashboardNotifier =
     \<lparr>nfMu = None, nfClients = [], nfNotify = False, nfPending = False, nfHasClients = False,
      nfLoop = Some [], nfHandlers = [], nfClosed = []\<rparr>"

text \<open>\<open>parse\<close> is the \<open>Host\<close> of \<open>url.Parse\<close>, or its error.\<close>

definition CheckOrigin :: "unicode \<Rightarrow> (string \<Rightarrow> string option) \<Rightarrow> Request \<Rightarrow> bool" where
  "CheckOrigin U parse r =
     (let origin = reqHeader r ''Origin'' in
      if origin = [] then True
      else (case parse origin of None \<Rightarrow> False | Some host \<Rightarrow> EqualFold U host (reqHost r)))"

definition Notify :: "notifier \<Rightarrow> notifier" where
  "Notify n = n\<lparr>nfNotify := True\<rparr>"

text \<open>What \<open>register\<close>, \<open>unregister\<close> and \<open>closeAll\<close> do to the map\<close>

definition register :: "conn \<Rightarrow> notifier \<Rightarrow> notifier" where
  "register c n = n\<lparr>nfClients := List.insert c (nfClients n)\<rparr>"

definition unregister :: "conn \<Rightarrow> notifier \<Rightarrow> notifier" where
  "unregister c n = n\<lparr>nfClients := removeAll c (nfClients n)\<rparr>"

definition closeAll :: "notifier \<Rightarrow> notifier" where
  "closeAll n = n\<lparr>nfClients := [], nfClosed := nfClients n @ nfClosed n\<rparr>"

subsection \<open>Steps\<close>

datatype act = ALock | AUnlock | AInsert conn | ADelete conn | AHas bool | AIf
  | ACopy message "conn list" | AWrite message conn bool | AClose conn | ACloseEach | ARead bool

text \<open>
  One instruction of a goroutine, with the code it then has left. A snapshot lists the map in an order the
  language leaves open; a broadcast is the last call of its branch, so its writes come after all that
  is left. A write that fails closes and unregisters the connection.
\<close>

inductive exec :: "agent \<Rightarrow> notifier \<Rightarrow> code \<Rightarrow> act \<Rightarrow> notifier \<Rightarrow> code \<Rightarrow> bool" for a where
  lock: "nfMu n = None \<Longrightarrow> exec a n (Lock # k) ALock (n\<lparr>nfMu := Some a\<rparr>) k"
| unlock: "nfMu n \<noteq> None \<Longrightarrow> exec a n (Unlock # k) AUnlock (n\<lparr>nfMu := None\<rparr>) k"
| insert: "exec a n (Insert c # k) (AInsert c) (register c n) k"
| delete: "exec a n (Delete c # k) (ADelete c) (unregister c n) k"
| has: "exec a n (HasClients # k) (AHas (nfClients n \<noteq> [])) (n\<lparr>nfHasClients := (nfClients n \<noteq> [])\<rparr>) k"
| if_clients: "exec a n (IfClients # k) AIf n ((if nfHasClients n then broadcastCode TextPing else []) @ k)"
| copy: "mset cs = mset (nfClients n) \<Longrightarrow>
    exec a n (Copy m # k) (ACopy m cs) n (k @ map (WriteMessage m) cs)"
| written: "exec a n (WriteMessage m c # k) (AWrite m c True) n k"
| write_fails: "exec a n (WriteMessage m c # k) (AWrite m c False) n (Close c # unregisterCode c @ k)"
| close: "exec a n (Close c # k) (AClose c) (n\<lparr>nfClosed := c # nfClosed n\<rparr>) k"
| close_each: "exec a n (CloseEach # k) ACloseEach (closeAll n) k"
| reads: "exec a n (Read c # k) (ARead True) n (Read c # k)"
| read_fails: "exec a n (Read c # k) (ARead False) n k"

datatype event = ENotify | EConnect conn | EHandler conn act
  | EReceive | ELimiter | EPinger | EDone | ELoop act | EReturn

text \<open>\<open>EReceive\<close>, \<open>ELimiter\<close>, \<open>EPinger\<close> and \<open>EDone\<close> are the branches of the loop's \<open>select\<close>.\<close>

inductive nstep :: "notifier \<Rightarrow> event \<Rightarrow> notifier \<Rightarrow> bool" where
  notify: "nstep n ENotify (Notify n)"
| connect: "\<not> gm_has (nfHandlers n) c \<Longrightarrow>
    nstep n (EConnect c) (n\<lparr>nfHandlers := gm_set (nfHandlers n) c (connectionCode c)\<rparr>)"
| handler: "map_of (nfHandlers n) c = Some k \<Longrightarrow> exec (Handler c) n k x n' k' \<Longrightarrow>
    nstep n (EHandler c x) (n'\<lparr>nfHandlers := gm_set (nfHandlers n') c k'\<rparr>)"
| receive: "nfLoop n = Some [] \<Longrightarrow> nfNotify n \<Longrightarrow>
    nstep n EReceive (n\<lparr>nfNotify := False, nfPending := True\<rparr>)"
| limiter_idle: "nfLoop n = Some [] \<Longrightarrow> \<not> nfPending n \<Longrightarrow> nstep n ELimiter n"
| limiter: "nfLoop n = Some [] \<Longrightarrow> nfPending n \<Longrightarrow>
    nstep n ELimiter (n\<lparr>nfPending := False, nfLoop := Some limiterCode\<rparr>)"
| pinger: "nfLoop n = Some [] \<Longrightarrow> nstep n EPinger (n\<lparr>nfLoop := Some (broadcastCode WSPing)\<rparr>)"
| cancelled: "nfLoop n = Some [] \<Longrightarrow> nstep n EDone (n\<lparr>nfLoop := Some (closeAllCode @ [Return])\<rparr>)"
| loop: "nfLoop n = Some k \<Longrightarrow> exec Loop n k x n' k' \<Longrightarrow> nstep n (ELoop x) (n'\<lparr>nfLoop := Some k'\<rparr>)"
| returns: "nfLoop n = Some [Return] \<Longrightarrow> nstep n EReturn (n\<lparr>nfLoop := None\<rparr>)"

inductive nruns :: "notifier \<Rightarrow> event list \<Rightarrow> notifier \<Rightarrow> bool" where
  start: "nruns n [] n"
| more: "nruns n es n' \<Longrightarrow> nstep n' e n'' \<Longrightarrow> nruns n (es @ [e]) n''"

inductive_cases nstep_elims:
  "nstep n ENotify n'" "nstep n (ELoop x) n'" "nstep n (EHandler c x) n'"

inductive_cases exec_elims: "exec a n (x # k) y n' k'" "exec a n [] y n' k'"

inductive_cases exec_copy: "exec a n k (ACopy m cs) n' k'"

inductive_cases exec_none: "exec a n k (AHas False) n' k'"

subsection \<open>Lemmas: the mutex\<close>

lemmas code_defs = registerCode_def unregisterCode_def closeAllCode_def snapshotCode_def broadcastCode_def
  limiterCode_def connectionCode_def

lemmas notifier_ops = Notify_def register_def unregister_def closeAll_def

text \<open>
  Code that locks and unlocks alternately, touches the map only in between, and does everything that may
  take long or lock again outside; \<open>held\<close> says whether its goroutine holds the mutex now.
\<close>

fun guarded :: "bool \<Rightarrow> code \<Rightarrow> bool" where
  "guarded held [] \<longleftrightarrow> \<not> held"
| "guarded held (Lock # k) \<longleftrightarrow> \<not> held \<and> guarded True k"
| "guarded held (Unlock # k) \<longleftrightarrow> held \<and> guarded False k"
| "guarded held (Insert c # k) \<longleftrightarrow> held \<and> guarded held k"
| "guarded held (Delete c # k) \<longleftrightarrow> held \<and> guarded held k"
| "guarded held (HasClients # k) \<longleftrightarrow> held \<and> guarded held k"
| "guarded held (Copy m # k) \<longleftrightarrow> held \<and> guarded held k"
| "guarded held (CloseEach # k) \<longleftrightarrow> held \<and> guarded held k"
| "guarded held (x # k) \<longleftrightarrow> \<not> held \<and> guarded held k"

lemma guarded_append: "guarded held k \<Longrightarrow> guarded False k' \<Longrightarrow> guarded held (k @ k')"
  by (induction held k rule: guarded.induct) auto

lemma guarded_writes [simp]: "guarded False (map (WriteMessage m) cs)"
  by (induction cs) auto

lemma exec_guarded:
  assumes "exec a n k x n' k'" and "guarded (nfMu n = Some a) k"
  shows "guarded (nfMu n' = Some a) k' \<and> (\<forall>b. b \<noteq> a \<longrightarrow> (nfMu n' = Some b) = (nfMu n = Some b))"
  using assms
  by (induction rule: exec.induct) (auto simp: notifier_ops code_defs intro: guarded_append)

lemma exec_keeps:
  "exec a n k x n' k' \<Longrightarrow> nfNotify n' = nfNotify n \<and> nfPending n' = nfPending n \<and> nfLoop n' = nfLoop n \<and>
     nfHandlers n' = nfHandlers n \<and> set (nfClosed n) \<subseteq> set (nfClosed n') \<and>
     (distinct (nfClients n) \<longrightarrow> distinct (nfClients n'))"
  by (induction rule: exec.induct) (auto simp: notifier_ops distinct_removeAll)

text \<open>After every look at the number of clients comes the conditional broadcast.\<close>

fun paired :: "code \<Rightarrow> bool" where
  "paired [] \<longleftrightarrow> True"
| "paired (x # k) \<longleftrightarrow> (x = HasClients \<longrightarrow> IfClients \<in> set k) \<and> paired k"

lemma paired_append: "paired k \<Longrightarrow> paired k' \<Longrightarrow> paired (k @ k')"
  by (induction k) auto

lemma paired_writes [simp]: "paired (map (WriteMessage m) cs)"
  by (induction cs) auto

lemma exec_paired: "exec a n k x n' k' \<Longrightarrow> paired k \<Longrightarrow> paired k'"
  by (induction rule: exec.induct) (auto simp: code_defs intro: paired_append)

lemma exec_no_insert: "exec a n k x n' k' \<Longrightarrow> \<forall>c. Insert c \<notin> set k \<Longrightarrow> Insert c \<notin> set k'"
  by (induction rule: exec.induct) (auto simp: code_defs split: if_splits)

text \<open>The goroutine of a connection goes through its code, and has no business with the locals of the loop.\<close>

lemma exec_connection:
  "exec a n k x n' k' \<Longrightarrow> suffix k (connectionCode c) \<Longrightarrow>
     suffix k' (connectionCode c) \<and> nfHasClients n' = nfHasClients n"
  by (induction rule: exec.induct)
    (auto simp: notifier_ops connectionCode_def registerCode_def unregisterCode_def suffix_Cons dest: suffix_ConsD)

text \<open>The invariant\<close>

definition nf_ok :: "notifier \<Rightarrow> bool" where
  "nf_ok n \<longleftrightarrow> distinct (nfClients n) \<and>
     (case nfLoop n of
        None \<Rightarrow> nfMu n \<noteq> Some Loop
      | Some k \<Rightarrow> guarded (nfMu n = Some Loop) k \<and> paired k \<and> (\<forall>c. Insert c \<notin> set k)) \<and>
     (\<forall>c k. map_of (nfHandlers n) c = Some k \<longrightarrow>
        suffix k (connectionCode c) \<and> guarded (nfMu n = Some (Handler c)) k) \<and>
     (\<forall>c. nfMu n = Some (Handler c) \<longrightarrow> map_of (nfHandlers n) c \<noteq> None)"

lemma nf_ok_new: "nf_ok NewDashboardNotifier"
  by (simp add: nf_ok_def NewDashboardNotifier_def)

lemma nf_ok_loop:
  assumes "nf_ok n" and "nfLoop n = Some k" and "exec Loop n k x n' k'"
  shows "nf_ok (n'\<lparr>nfLoop := Some k'\<rparr>)"
proof -
  have "guarded (nfMu n = Some Loop) k" using assms(1,2) by (simp add: nf_ok_def)
  from exec_guarded [OF assms(3) this] exec_keeps [OF assms(3)] exec_paired [OF assms(3)]
    exec_no_insert [OF assms(3)] assms(1,2)
  show ?thesis by (auto simp: nf_ok_def)
qed

lemma nf_ok_handler:
  assumes "nf_ok n" and "map_of (nfHandlers n) c = Some k" and "exec (Handler c) n k x n' k'"
  shows "nf_ok (n'\<lparr>nfHandlers := gm_set (nfHandlers n') c k'\<rparr>)"
proof -
  have "guarded (nfMu n = Some (Handler c)) k" and suf: "suffix k (connectionCode c)"
    using assms(1,2) by (auto simp: nf_ok_def)
  from exec_guarded [OF assms(3) this(1)] exec_keeps [OF assms(3)] exec_connection [OF assms(3) suf] assms(1,2)
  show ?thesis by (auto simp: nf_ok_def split: option.splits)
qed

lemma nstep_ok: "nstep n e n' \<Longrightarrow> nf_ok n \<Longrightarrow> nf_ok n'"
proof (induction rule: nstep.induct)
  case (connect n c)
  then show ?case by (auto simp: nf_ok_def gm_has_def code_defs split: option.splits)
next
  case (handler n c k x n' k')
  then show ?case by (intro nf_ok_handler)
next
  case (loop n k x n' k')
  then show ?case by (intro nf_ok_loop)
qed (auto simp: nf_ok_def notifier_ops code_defs split: option.splits)

lemma nruns_ok: "nruns n es n' \<Longrightarrow> nf_ok n \<Longrightarrow> nf_ok n'"
  by (induction rule: nruns.induct) (auto intro: nstep_ok)

lemma nruns_trans: "nruns n2 es2 n3 \<Longrightarrow> nruns n1 es1 n2 \<Longrightarrow> nruns n1 (es1 @ es2) n3"
proof (induction rule: nruns.induct)
  case (more n es n' e n'')
  from nruns.more [OF more.IH [OF more.prems] more.hyps(2)] show ?case by simp
qed simp

lemma nruns_step: "nstep n e n' \<Longrightarrow> nruns n [e] n'"
  using nruns.more [OF nruns.start] by fastforce

lemma nruns_Cons: "nstep n e n' \<Longrightarrow> nruns n' es n'' \<Longrightarrow> nruns n (e # es) n''"
  using nruns_trans [OF _ nruns_step] by fastforce

subsection \<open>Lemmas: signals and broadcasts\<close>

text \<open>What the loop has left to do for a signal, or has done for it in a run\<close>

definition answered :: "event list \<Rightarrow> notifier \<Rightarrow> bool" where
  "answered es n \<longleftrightarrow>
     (\<exists>k. nfLoop n = Some k \<and>
        (HasClients \<in> set k \<or> IfClients \<in> set k \<and> nfHasClients n \<or> Copy TextPing \<in> set k)) \<or>
     ELoop (AHas False) \<in> set es \<or>
     (\<exists>es1 cs es2. es = es1 @ ELoop (ACopy TextPing cs) # es2 \<and>
        (\<forall>c \<in> set cs. (\<exists>ok. ELoop (AWrite TextPing c ok) \<in> set es2) \<or>
           (\<exists>k. nfLoop n = Some k \<and> WriteMessage TextPing c \<in> set k)))"

lemma exec_has:
  "exec a n k x n' k' \<Longrightarrow> paired k \<Longrightarrow> HasClients \<in> set k \<Longrightarrow>
     HasClients \<in> set k' \<or> x = AHas False \<or> IfClients \<in> set k' \<and> nfHasClients n'"
  by (induction rule: exec.induct) auto

lemma exec_if:
  "exec a n k x n' k' \<Longrightarrow> IfClients \<in> set k \<Longrightarrow> nfHasClients n \<Longrightarrow>
     x = AHas False \<or> IfClients \<in> set k' \<and> nfHasClients n' \<or> Copy TextPing \<in> set k'"
  by (induction rule: exec.induct) (auto simp: notifier_ops code_defs)

lemma exec_Copy:
  "exec a n k x n' k' \<Longrightarrow> Copy m \<in> set k \<Longrightarrow>
     Copy m \<in> set k' \<or> (\<exists>cs. x = ACopy m cs \<and> (\<forall>c \<in> set cs. WriteMessage m c \<in> set k'))"
  by (induction rule: exec.induct) auto

lemma exec_Write:
  "exec a n k x n' k' \<Longrightarrow> WriteMessage m c \<in> set k \<Longrightarrow>
     WriteMessage m c \<in> set k' \<or> x = AWrite m c True \<or> x = AWrite m c False \<and> Close c \<in> set k'"
  by (induction rule: exec.induct) auto

lemma exec_Close:
  "exec a n k x n' k' \<Longrightarrow> Close c \<in> set k \<Longrightarrow> Close c \<in> set k' \<or> c \<in> set (nfClosed n')"
  by (induction rule: exec.induct) (auto simp: closeAll_def)

lemma exec_snapshot: "exec a n k (ACopy m cs) n' k' \<Longrightarrow> set cs = set (nfClients n) \<and> set (map (WriteMessage m) cs) \<subseteq> set k'"
  by (auto elim!: exec_copy dest: mset_eq_setD)

lemma exec_nobody: "exec a n k (AHas False) n' k' \<Longrightarrow> nfClients n = []"
  by (auto elim: exec_none)

lemma answered_loop:
  assumes "nfLoop n = Some k" and "exec Loop n k x n' k'" and "paired k" and "answered es n"
  shows "answered (es @ [ELoop x]) (n'\<lparr>nfLoop := Some k'\<rparr>)"
proof -
  from assms(1,4) consider "HasClients \<in> set k" | "IfClients \<in> set k" "nfHasClients n" | "Copy TextPing \<in> set k"
    | "ELoop (AHas False) \<in> set es"
    | es1 cs es2 where "es = es1 @ ELoop (ACopy TextPing cs) # es2"
        "\<forall>c \<in> set cs. (\<exists>ok. ELoop (AWrite TextPing c ok) \<in> set es2) \<or> WriteMessage TextPing c \<in> set k"
    unfolding answered_def by auto
  then show ?thesis
  proof cases
    case 1
    from exec_has [OF assms(2,3) this] show ?thesis by (auto simp: answered_def)
  next
    case 2
    from exec_if [OF assms(2) this] show ?thesis by (auto simp: answered_def)
  next
    case 3
    from exec_Copy [OF assms(2) this] show ?thesis unfolding answered_def by fastforce
  next
    case 4
    then show ?thesis by (simp add: answered_def)
  next
    case 5
    have "(\<exists>ok. ELoop (AWrite TextPing c ok) \<in> set (es2 @ [ELoop x])) \<or> WriteMessage TextPing c \<in> set k'"
      if "c \<in> set cs" for c
      using 5(2) that exec_Write [OF assms(2), of TextPing c] by auto
    then have "\<exists>es1 cs es2'. es @ [ELoop x] = es1 @ ELoop (ACopy TextPing cs) # es2' \<and>
        (\<forall>c \<in> set cs. (\<exists>ok. ELoop (AWrite TextPing c ok) \<in> set es2') \<or>
          (\<exists>k''. nfLoop (n'\<lparr>nfLoop := Some k'\<rparr>) = Some k'' \<and> WriteMessage TextPing c \<in> set k''))"
      using 5(1) by (intro exI [of _ es1] exI [of _ cs] exI [of _ "es2 @ [ELoop x]"]) auto
    then show ?thesis by (simp add: answered_def)
  qed
qed

lemma answered_mono:
  assumes "answered es n" and "nfHasClients n' = nfHasClients n"
    and "nfLoop n' = nfLoop n \<or> nfLoop n = Some [] \<or> nfLoop n = Some [Return]"
  shows "answered (es @ [e]) n'"
proof -
  have "\<exists>es1 cs es2'. es @ [e] = es1 @ ELoop (ACopy TextPing cs) # es2' \<and>
      (\<forall>c \<in> set cs. (\<exists>ok. ELoop (AWrite TextPing c ok) \<in> set es2') \<or>
        (\<exists>k. nfLoop n' = Some k \<and> WriteMessage TextPing c \<in> set k))"
    if "es = es1 @ ELoop (ACopy TextPing cs) # es2" "\<forall>c \<in> set cs. (\<exists>ok. ELoop (AWrite TextPing c ok) \<in> set es2) \<or>
        (\<exists>k. nfLoop n = Some k \<and> WriteMessage TextPing c \<in> set k)" for es1 cs es2
    using that assms(3) by (intro exI [of _ es1] exI [of _ cs] exI [of _ "es2 @ [e]"]) auto
  then show ?thesis using assms unfolding answered_def by fastforce
qed

lemma signal_step:
  assumes "nstep n e n'" and "nf_ok n" and "nfNotify n \<or> nfPending n \<or> answered es n"
  shows "nfNotify n' \<or> nfPending n' \<or> answered (es @ [e]) n'"
  using assms
proof (induction rule: nstep.induct)
  case (loop n k x n' k')
  have "paired k" using loop by (simp add: nf_ok_def)
  then show ?case using answered_loop [OF loop.hyps] exec_keeps [OF loop.hyps(2)] loop.prems(2) by auto
next
  case (handler n c k x n' k')
  have "suffix k (connectionCode c)" using handler by (auto simp: nf_ok_def)
  then have "nfHasClients n' = nfHasClients n" using exec_connection [OF handler.hyps(2)] by blast
  then show ?case using answered_mono [of es n] exec_keeps [OF handler.hyps(2)] handler.prems(2) by auto
next
  case (limiter n)
  have "answered (es @ [ELimiter]) (n\<lparr>nfPending := False, nfLoop := Some limiterCode\<rparr>)"
    by (simp add: answered_def limiterCode_def)
  then show ?case by blast
qed (auto simp: Notify_def intro: answered_mono)

lemma signal_run:
  assumes "nruns n es n'" and "nf_ok n" and "nfNotify n \<or> nfPending n"
  shows "nfNotify n' \<or> nfPending n' \<or> answered es n'"
  using assms
proof (induction rule: nruns.induct)
  case (more n es n' e n'')
  from signal_step [OF more.hyps(2) nruns_ok [OF more.hyps(1) more.prems(1)]] more.IH more.prems show ?case by blast
qed blast

text \<open>A connection of a snapshot: still to be written to, written to, or closed after a failed write\<close>

definition reached :: "message \<Rightarrow> conn \<Rightarrow> event list \<Rightarrow> notifier \<Rightarrow> bool" where
  "reached m c es n \<longleftrightarrow>
     (\<exists>k. nfLoop n = Some k \<and> WriteMessage m c \<in> set k) \<or> ELoop (AWrite m c True) \<in> set es \<or>
     ELoop (AWrite m c False) \<in> set es \<and>
       ((\<exists>k. nfLoop n = Some k \<and> Close c \<in> set k) \<or> c \<in> set (nfClosed n))"

lemma reached_step:
  assumes "nstep n e n'" and "reached m c es n"
  shows "reached m c (es @ [e]) n'"
  using assms
proof (induction rule: nstep.induct)
  case (loop n k x n' k')
  then show ?case
    using exec_Write [OF loop.hyps(2), of m c] exec_Close [OF loop.hyps(2), of c] exec_keeps [OF loop.hyps(2)]
    by (auto simp: reached_def)
next
  case (handler n c k x n' k')
  then show ?case using exec_keeps [OF handler.hyps(2)] by (auto simp: reached_def)
qed (auto simp: reached_def Notify_def)

lemma reached_run: "nruns n es n' \<Longrightarrow> reached m c [] n \<Longrightarrow> reached m c es n'"
  by (induction rule: nruns.induct) (auto intro: reached_step)

text \<open>Broadcasts the loop has in hand\<close>

definition owed :: "code \<Rightarrow> nat" where
  "owed k = count_list k IfClients + count_list k (Copy TextPing)"

lemma owed_simps [simp]:
  "owed [] = 0" "owed (k @ k') = owed k + owed k'" "owed (x # k) = (if x = IfClients \<or> x = Copy TextPing then 1 else 0) + owed k"
  by (auto simp: owed_def)

lemma owed_writes [simp]: "owed (map (WriteMessage m) cs) = 0"
  by (induction cs) auto

fun is_broadcast :: "event \<Rightarrow> bool" where
  "is_broadcast (ELoop (ACopy m cs)) \<longleftrightarrow> m = TextPing"
| "is_broadcast e \<longleftrightarrow> False"

definition broadcasts :: "event list \<Rightarrow> nat" where
  "broadcasts es = length (filter is_broadcast es)"

lemma broadcasts_simps [simp]:
  "broadcasts [] = 0" "broadcasts (es @ [e]) = broadcasts es + (if is_broadcast e then 1 else 0)"
  by (simp_all add: broadcasts_def)

lemma exec_owed: "exec a n k x n' k' \<Longrightarrow> owed k' + (if is_broadcast (ELoop x) then 1 else 0) \<le> owed k"
  by (induction rule: exec.induct) (auto simp: code_defs)

definition owing :: "notifier \<Rightarrow> nat" where
  "owing n = (case nfLoop n of None \<Rightarrow> 0 | Some k \<Rightarrow> owed k)"

lemma nruns_owing:
  "nruns n es n' \<Longrightarrow> n = NewDashboardNotifier \<Longrightarrow>
     broadcasts es + owing n' \<le> count_list es ELimiter \<and>
     broadcasts es + owing n' + of_bool (nfNotify n') + of_bool (nfPending n') \<le> count_list es ENotify"
proof (induction rule: nruns.induct)
  case (more n es n' e n'')
  from more.hyps(2) more.IH [OF more.prems] show ?case
  proof (induction rule: nstep.induct)
    case (handler n c k x n' k')
    then show ?case using exec_keeps [OF handler.hyps(2)] by (auto simp: owing_def)
  next
    case (loop n k x n' k')
    then show ?case using exec_owed [OF loop.hyps(2)] exec_keeps [OF loop.hyps(2)] by (auto simp: owing_def split: if_splits)
  qed (auto simp: owing_def Notify_def code_defs)
qed (simp add: owing_def NewDashboardNotifier_def)

subsection \<open>Lemmas: progress\<close>

text \<open>Whoever holds the mutex for a connection is about to release it.\<close>

lemma holder_code:
  assumes "suffix k (connectionCode c)" and "guarded True k"
  shows "(\<exists>k'. k = Unlock # k') \<or> (\<exists>x k'. k = x # Unlock # k' \<and> (x = Insert c \<or> x = Delete c))"
  using assms by (auto simp: code_defs suffix_Cons)

definition free :: "notifier \<Rightarrow> bool" where
  "free n \<longleftrightarrow> (\<forall>c. nfMu n \<noteq> Some (Handler c))"

lemma handler_step:
  assumes "map_of (nfHandlers n) c = Some k" and "exec (Handler c) n k x n' k'"
  shows "nruns n [EHandler c x] (n'\<lparr>nfHandlers := gm_set (nfHandlers n') c k'\<rparr>)"
  by (rule nruns_step [OF nstep.handler [OF assms]])

lemma mutex_released:
  assumes "nf_ok n"
  shows "\<exists>es n'. nruns n es n' \<and> (\<forall>e \<in> set es. \<exists>c x. e = EHandler c x \<and> nfMu n = Some (Handler c)) \<and>
    free n' \<and> nfLoop n' = nfLoop n \<and> nfNotify n' = nfNotify n \<and> nfPending n' = nfPending n"
proof (cases "free n")
  case True
  then show ?thesis using nruns.start by (intro exI [of _ "[]"] exI [of _ n]) simp
next
  case False
  then obtain c where c: "nfMu n = Some (Handler c)" by (auto simp: free_def)
  with assms obtain k where k: "map_of (nfHandlers n) c = Some k" "suffix k (connectionCode c)" "guarded True k"
    by (fastforce simp: nf_ok_def)
  have unlocked: "\<exists>n'. nruns m [EHandler c AUnlock] n' \<and> free n' \<and> nfLoop n' = nfLoop m \<and>
      nfNotify n' = nfNotify m \<and> nfPending n' = nfPending m"
    if "map_of (nfHandlers m) c = Some (Unlock # k')" "nfMu m = Some (Handler c)" for m k'
  proof -
    have "nfMu m \<noteq> None" using that(2) by simp
    from handler_step [OF that(1) exec.unlock [OF this]] show ?thesis
      by (intro exI conjI, assumption) (auto simp: free_def)
  qed
  from holder_code [OF k(2,3)] consider (last) k' where "k = Unlock # k'"
    | (inside) x k' where "k = x # Unlock # k'" "x = Insert c \<or> x = Delete c" by blast
  then show ?thesis
  proof cases
    case last
    with unlocked [of n k'] k(1) c obtain n' where "nruns n [EHandler c AUnlock] n'" "free n'" "nfLoop n' = nfLoop n"
      "nfNotify n' = nfNotify n" "nfPending n' = nfPending n" by auto
    with c show ?thesis by (intro exI [of _ "[EHandler c AUnlock]"] exI [of _ n']) auto
  next
    case inside
    then obtain y n1 where y: "exec (Handler c) n k y n1 (Unlock # k')"
      "n1 = register c n \<or> n1 = unregister c n"
      using exec.insert [of "Handler c" n c "Unlock # k'"] exec.delete [of "Handler c" n c "Unlock # k'"] by blast
    let ?n1 = "n1\<lparr>nfHandlers := gm_set (nfHandlers n1) c (Unlock # k')\<rparr>"
    have "nfMu ?n1 = Some (Handler c)" "nfLoop ?n1 = nfLoop n" "nfNotify ?n1 = nfNotify n" "nfPending ?n1 = nfPending n"
      using y(2) c by (auto simp: notifier_ops)
    moreover from this(1) unlocked [of ?n1 k'] obtain n2 where "nruns ?n1 [EHandler c AUnlock] n2" "free n2"
      "nfLoop n2 = nfLoop ?n1" "nfNotify n2 = nfNotify ?n1" "nfPending n2 = nfPending ?n1" by auto
    ultimately show ?thesis
      using nruns_trans [OF _ handler_step [OF k(1) y(1)]] c
      by (intro exI [of _ "[EHandler c y] @ [EHandler c AUnlock]"] exI [of _ n2]) auto
  qed
qed

text \<open>
  The loop gets through its code, and writes to everybody it has to write to. The weight of its code
  goes down with every instruction.
\<close>

fun weight :: "nat \<Rightarrow> code \<Rightarrow> nat" where
  "weight N [] = 0"
| "weight N (Copy m # k) = N + 1 + weight N k"
| "weight N (IfClients # k) = N + 4 + weight N k"
| "weight N (x # k) = 1 + weight N k"

lemma weight_append [simp]: "weight N (k @ k') = weight N k + weight N k'"
  by (induction N k rule: weight.induct) auto

lemma weight_writes [simp]: "weight N (map (WriteMessage m) cs) = length cs"
  by (induction cs) auto

lemma weight_mono: "N \<le> N' \<Longrightarrow> weight N k \<le> weight N' k"
  by (induction N k rule: weight.induct) auto

lemma loop_exec:
  assumes "nf_ok n" and "free n" and "nfLoop n = Some (x # k)" and "x \<noteq> Return"
  shows "\<exists>y n' k'. exec Loop n (x # k) y n' k' \<and> free n' \<and>
    weight (length (nfClients n')) k' < weight (length (nfClients n)) (x # k) \<and>
    set (nfClients n') \<subseteq> set (nfClients n) \<and>
    (Return \<in> set k' \<longrightarrow> Return \<in> set k) \<and> (\<forall>m c. y \<noteq> AWrite m c False)"
proof -
  have g: "guarded (nfMu n = Some Loop) (x # k)" "\<forall>c. x \<noteq> Insert c" using assms(1,3) by (auto simp: nf_ok_def)
  have less: "weight N' k < Suc (weight N k)" if "N' \<le> N" for N N' using weight_mono [OF that, of k] by simp
  show ?thesis
  proof (cases x)
    case Lock
    then have "nfMu n = None" using g(1) assms(2) by (cases "nfMu n"; cases "the (nfMu n)") (auto simp: free_def)
    from exec.lock [OF this, of Loop k] show ?thesis unfolding Lock by (intro exI conjI, assumption) (auto simp: free_def)
  next
    case Unlock
    then have "nfMu n \<noteq> None" using g(1) by simp
    from exec.unlock [OF this, of Loop k] show ?thesis unfolding Unlock by (intro exI conjI, assumption) (auto simp: free_def)
  next
    case (Delete c)
    show ?thesis unfolding Delete
      by (intro exI conjI, rule exec.delete) (use assms(2) in \<open>auto simp: free_def unregister_def less length_removeAll_less_eq\<close>)
  next
    case HasClients
    show ?thesis unfolding HasClients by (intro exI conjI, rule exec.has) (use assms(2) in \<open>auto simp: free_def\<close>)
  next
    case IfClients
    show ?thesis unfolding IfClients
      by (intro exI conjI, rule exec.if_clients) (use assms(2) in \<open>auto simp: code_defs split: if_splits\<close>)
  next
    case (Copy m)
    show ?thesis unfolding Copy
      by (intro exI conjI, rule exec.copy [OF refl]) (use assms(2) in auto)
  next
    case (WriteMessage m c)
    show ?thesis unfolding WriteMessage by (intro exI conjI, rule exec.written) (use assms(2) in auto)
  next
    case (Close c)
    show ?thesis unfolding Close by (intro exI conjI, rule exec.close) (use assms(2) in \<open>auto simp: free_def\<close>)
  next
    case CloseEach
    show ?thesis unfolding CloseEach
      by (intro exI conjI, rule exec.close_each) (use assms(2) in \<open>auto simp: free_def closeAll_def less\<close>)
  next
    case (Read c)
    show ?thesis unfolding Read by (intro exI conjI, rule exec.read_fails) (use assms(2) in auto)
  qed (use g(2) assms(4) in auto)
qed

lemma loop_drains:
  "nf_ok n \<Longrightarrow> free n \<Longrightarrow> nfLoop n = Some k \<Longrightarrow> Return \<notin> set k \<Longrightarrow>
     \<exists>es n'. nruns n es n' \<and> (\<forall>e \<in> set es. \<exists>x. e = ELoop x) \<and> nfLoop n' = Some [] \<and> free n' \<and> nf_ok n' \<and>
       nfNotify n' = nfNotify n \<and> nfPending n' = nfPending n \<and> set (nfClients n') \<subseteq> set (nfClients n) \<and>
       (\<forall>m c. WriteMessage m c \<in> set k \<or> Copy m \<in> set k \<and> c \<in> set (nfClients n') \<longrightarrow>
          ELoop (AWrite m c True) \<in> set es) \<and>
       (HasClients \<in> set k \<or> IfClients \<in> set k \<and> nfHasClients n \<longrightarrow>
          (\<forall>c \<in> set (nfClients n'). ELoop (AWrite TextPing c True) \<in> set es))"
proof (induction "weight (length (nfClients n)) k" arbitrary: n k rule: less_induct)
  case less
  show ?case
  proof (cases k)
    case Nil
    then show ?thesis using less.prems nruns.start by (intro exI [of _ "[]"] exI [of _ n]) auto
  next
    case (Cons x k1)
    from loop_exec [OF less.prems(1,2), of x k1] less.prems(3,4) Cons obtain y n1 k' where
      y: "exec Loop n k y n1 k'" "free n1" "weight (length (nfClients n1)) k' < weight (length (nfClients n)) k"
        "set (nfClients n1) \<subseteq> set (nfClients n)" "Return \<notin> set k'" "\<forall>m c. y \<noteq> AWrite m c False" by auto
    let ?n1 = "n1\<lparr>nfLoop := Some k'\<rparr>"
    have step: "nstep n (ELoop y) ?n1" by (rule nstep.loop [OF less.prems(3) y(1)])
    have "free ?n1" "nfLoop ?n1 = Some k'" using y(2) by (simp_all add: free_def)
    moreover have "nf_ok ?n1" by (rule nstep_ok [OF step less.prems(1)])
    moreover have "weight (length (nfClients ?n1)) k' < weight (length (nfClients n)) k" using y(3) by simp
    moreover note less.hyps [of ?n1 k']
    ultimately obtain es n' where r: "nruns ?n1 es n'" "\<forall>e \<in> set es. \<exists>x. e = ELoop x" "nfLoop n' = Some []" "free n'"
      "nf_ok n'" "nfNotify n' = nfNotify ?n1" "nfPending n' = nfPending ?n1" "set (nfClients n') \<subseteq> set (nfClients ?n1)"
      and w: "\<forall>m c. WriteMessage m c \<in> set k' \<or> Copy m \<in> set k' \<and> c \<in> set (nfClients n') \<longrightarrow>
          ELoop (AWrite m c True) \<in> set es"
      and h: "HasClients \<in> set k' \<or> IfClients \<in> set k' \<and> nfHasClients ?n1 \<longrightarrow>
          (\<forall>c \<in> set (nfClients n'). ELoop (AWrite TextPing c True) \<in> set es)"
      using y(5) by blast
    have "ELoop (AWrite m c True) \<in> set (ELoop y # es)" if "WriteMessage m c \<in> set k" for m c
      using exec_Write [OF y(1) that] y(6) w by auto
    moreover have "ELoop (AWrite m c True) \<in> set (ELoop y # es)" if "Copy m \<in> set k" "c \<in> set (nfClients n')" for m c
    proof -
      have "c \<in> set cs" if "y = ACopy m' cs" for m' cs
        using exec_snapshot [OF y(1) [unfolded that]] r(8) y(4) \<open>c \<in> set (nfClients n')\<close> by auto
      then show ?thesis using exec_Copy [OF y(1) that(1)] w that(2) by auto
    qed
    moreover have "\<forall>c \<in> set (nfClients n'). ELoop (AWrite TextPing c True) \<in> set (ELoop y # es)"
      if "HasClients \<in> set k \<or> IfClients \<in> set k \<and> nfHasClients n"
    proof (cases "y = AHas False")
      case True
      then have "set (nfClients n') = {}" using exec_nobody [of Loop n k n1 k'] y(1,4) r(8) by simp
      then show ?thesis by simp
    next
      case False
      have "paired k" using less.prems(1,3) by (simp add: nf_ok_def)
      with that False exec_has [OF y(1)] exec_if [OF y(1)]
      have "HasClients \<in> set k' \<or> IfClients \<in> set k' \<and> nfHasClients n1 \<or> Copy TextPing \<in> set k'" by blast
      then show ?thesis using h w by auto
    qed
    moreover have "\<forall>e \<in> set (ELoop y # es). \<exists>x. e = ELoop x" using r(2) by simp
    moreover have "nfNotify n' = nfNotify n" "nfPending n' = nfPending n" "set (nfClients n') \<subseteq> set (nfClients n)"
      using r(6-8) y(4) exec_keeps [OF y(1)] by auto
    ultimately show ?thesis using nruns_Cons [OF step r(1)] r(3-5) by blast
  qed
qed

lemma select_pings:
  assumes "nf_ok n" and "free n" and "nfLoop n = Some []" and "nfNotify n \<or> nfPending n"
  shows "\<exists>es n'. nruns n es n' \<and> (\<forall>e \<in> set es. e = EReceive \<or> e = ELimiter \<or> (\<exists>x. e = ELoop x)) \<and>
    nfLoop n' = Some [] \<and> \<not> nfNotify n' \<and> \<not> nfPending n' \<and>
    (\<forall>c \<in> set (nfClients n'). ELoop (AWrite TextPing c True) \<in> set es)"
proof -
  obtain es1 n1 where 1: "nruns n es1 n1" "set es1 \<subseteq> {EReceive}" "nfPending n1" "\<not> nfNotify n1" "nfLoop n1 = Some []"
    "free n1"
  proof (cases "nfNotify n")
    case True
    from nruns_step [OF nstep.receive [OF assms(3) True]] show thesis
      by (rule that) (use assms in \<open>auto simp: free_def\<close>)
  next
    case False
    show thesis by (rule that [OF nruns.start]) (use False assms in auto)
  qed
  let ?n2 = "n1\<lparr>nfPending := False, nfLoop := Some limiterCode\<rparr>"
  have run: "nruns n (es1 @ [ELimiter]) ?n2" by (rule nruns.more [OF 1(1) nstep.limiter [OF 1(5,3)]])
  have "Return \<notin> set limiterCode" "HasClients \<in> set limiterCode" by (simp_all add: limiterCode_def)
  with loop_drains [OF nruns_ok [OF run assms(1)], of limiterCode] 1(4,6)
  obtain es2 n' where 2: "nruns ?n2 es2 n'" "\<forall>e \<in> set es2. \<exists>x. e = ELoop x" "nfLoop n' = Some []"
    "\<not> nfNotify n'" "\<not> nfPending n'" "\<forall>c \<in> set (nfClients n'). ELoop (AWrite TextPing c True) \<in> set es2"
    by (auto simp: free_def)
  from nruns_trans [OF 2(1) run] 1(2) 2 show ?thesis
    by (intro exI [of _ "(es1 @ [ELimiter]) @ es2"] exI [of _ n']) auto
qed

subsection \<open>Properties\<close>

text \<open>
  C5: no notification is lost. After a call of \<open>Notify\<close> in any reachable state, whatever happens next: when
  the loop is in its \<open>select\<close>, then a signal is still waiting there, in the channel or as \<open>pending\<close>, or since
  the call the loop has found no client at all, or it has taken a snapshot of the clients and
  written the ping to every connection in it.
\<close>

theorem Notify_not_lost:
  assumes "nruns NewDashboardNotifier es0 n" and "nstep n ENotify n1" and "nruns n1 es n2" and "nfLoop n2 = Some []"
  shows "nfNotify n2 \<or> nfPending n2 \<or> ELoop (AHas False) \<in> set es \<or>
    (\<exists>es1 cs es2. es = es1 @ ELoop (ACopy TextPing cs) # es2 \<and>
      (\<forall>c \<in> set cs. \<exists>ok. ELoop (AWrite TextPing c ok) \<in> set es2))"
proof -
  have "nfNotify n1" using assms(2) by (auto elim: nstep_elims simp: Notify_def)
  moreover have "nf_ok n1" by (rule nstep_ok [OF assms(2) nruns_ok [OF assms(1) nf_ok_new]])
  ultimately have "nfNotify n2 \<or> nfPending n2 \<or> answered es n2" using signal_run [OF assms(3)] by blast
  then show ?thesis using assms(4) by (auto simp: answered_def)
qed

theorem Notify_not_lost_witness: "nfNotify (Notify NewDashboardNotifier)"
  using Notify_not_lost [OF nruns.start nstep.notify nruns.start]
  by (simp add: Notify_def NewDashboardNotifier_def)

text \<open>
  C23: the loop never hangs. In every reachable state in which it is not on its way out and a signal is
  waiting, wherever it is in its code and whoever holds the mutex, the loop can get back to its \<open>select\<close> with
  the signal consumed and a ping written to every connection that is then registered. For that it
  needs nobody but itself and, if the goroutine of a connection holds the mutex, that goroutine: no
  schedule leads into a deadlock.
\<close>

theorem notifier_progress:
  assumes "nruns NewDashboardNotifier es n" and "nfLoop n = Some k" and "Return \<notin> set k"
    and "nfNotify n \<or> nfPending n"
  shows "\<exists>es' n'. nruns n es' n' \<and>
    (\<forall>e \<in> set es'. e = EReceive \<or> e = ELimiter \<or> (\<exists>x. e = ELoop x) \<or>
       (\<exists>c x. e = EHandler c x \<and> nfMu n = Some (Handler c))) \<and>
    nfLoop n' = Some [] \<and> \<not> nfNotify n' \<and> \<not> nfPending n' \<and>
    (\<forall>c \<in> set (nfClients n'). ELoop (AWrite TextPing c True) \<in> set es')"
proof -
  have ok: "nf_ok n" by (rule nruns_ok [OF assms(1) nf_ok_new])
  from mutex_released [OF this] obtain es1 n1 where 1: "nruns n es1 n1"
    "\<forall>e \<in> set es1. \<exists>c x. e = EHandler c x \<and> nfMu n = Some (Handler c)" "free n1" "nfLoop n1 = nfLoop n"
    "nfNotify n1 = nfNotify n" "nfPending n1 = nfPending n" by (elim exE conjE) (rule that)
  have ok1: "nf_ok n1" by (rule nruns_ok [OF 1(1) ok])
  from loop_drains [OF ok1 1(3)] 1(4) assms(2,3) obtain es2 n2 where 2: "nruns n1 es2 n2"
    "\<forall>e \<in> set es2. \<exists>x. e = ELoop x" "nfLoop n2 = Some []" "free n2" "nf_ok n2" "nfNotify n2 = nfNotify n1"
    "nfPending n2 = nfPending n1" by fastforce
  from select_pings [OF 2(5,4,3)] assms(4) 1(5,6) 2(6,7) obtain es3 n3 where 3: "nruns n2 es3 n3"
    "\<forall>e \<in> set es3. e = EReceive \<or> e = ELimiter \<or> (\<exists>x. e = ELoop x)" "nfLoop n3 = Some []" "\<not> nfNotify n3"
    "\<not> nfPending n3" "\<forall>c \<in> set (nfClients n3). ELoop (AWrite TextPing c True) \<in> set es3" by auto
  have "nruns n ((es1 @ es2) @ es3) n3" by (rule nruns_trans [OF 3(1) nruns_trans [OF 2(1) 1(1)]])
  then show ?thesis using 1(2) 2(2) 3(2-6) by (intro exI [of _ "(es1 @ es2) @ es3"] exI [of _ n3]) auto
qed

text \<open>A state in which the goroutine of a connection holds the mutex and a signal waits\<close>

definition busyNotifier :: notifier where
  "busyNotifier = NewDashboardNotifier\<lparr>nfMu := Some (Handler 3), nfNotify := True,
     nfHandlers := [(3, [Insert 3, Unlock, Read 3] @ unregisterCode 3 @ [Close 3])]\<rparr>"

lemma busyNotifier_reached: "nruns NewDashboardNotifier [EConnect 3, EHandler 3 ALock, ENotify] busyNotifier"
proof -
  let ?n1 = "NewDashboardNotifier\<lparr>nfHandlers := gm_set [] 3 (connectionCode 3)\<rparr>"
  have "nstep NewDashboardNotifier (EConnect 3) ?n1"
    using nstep.connect [of NewDashboardNotifier 3] by (simp add: NewDashboardNotifier_def gm_has_def)
  moreover have "exec (Handler 3) ?n1 (connectionCode 3) ALock (?n1\<lparr>nfMu := Some (Handler 3)\<rparr>)
      ([Insert 3, Unlock, Read 3] @ unregisterCode 3 @ [Close 3])"
    using exec.lock [of ?n1] by (simp add: connectionCode_def registerCode_def NewDashboardNotifier_def)
  from nstep.handler [OF _ this] have "nstep ?n1 (EHandler 3 ALock) (busyNotifier\<lparr>nfNotify := False\<rparr>)"
    by (simp add: busyNotifier_def NewDashboardNotifier_def gm_set_def)
  moreover have "nstep (busyNotifier\<lparr>nfNotify := False\<rparr>) ENotify busyNotifier"
    using nstep.notify [of "busyNotifier\<lparr>nfNotify := False\<rparr>"] by (simp add: Notify_def busyNotifier_def NewDashboardNotifier_def)
  ultimately show ?thesis by (blast intro: nruns_Cons nruns.start)
qed

theorem notifier_progress_witness:
  "\<exists>es' n'. nruns busyNotifier es' n' \<and> nfLoop n' = Some [] \<and> \<not> nfNotify n' \<and>
     (\<forall>c \<in> set (nfClients n'). ELoop (AWrite TextPing c True) \<in> set es')"
  using notifier_progress [OF busyNotifier_reached, of "[]"] by (force simp: busyNotifier_def NewDashboardNotifier_def)

text \<open>
  C22: a broadcast reaches everybody. When the loop, having taken a snapshot, is back in its \<open>select\<close>, with
  connections coming and going meanwhile, then every connection that was registered at the snapshot has been
  written the message since, or a write to it failed and the connection was closed.
\<close>

theorem broadcast_reaches:
  assumes "nstep n (ELoop (ACopy m cs)) n1" and "nruns n1 es n2" and "nfLoop n2 = Some []" and "c \<in> set (nfClients n)"
  shows "ELoop (AWrite m c True) \<in> set es \<or> ELoop (AWrite m c False) \<in> set es \<and> c \<in> set (nfClosed n2)"
proof -
  from assms(1) obtain k n' k' where "exec Loop n k (ACopy m cs) n' k'" "n1 = n'\<lparr>nfLoop := Some k'\<rparr>"
    by (auto elim: nstep_elims)
  with exec_snapshot [OF this(1)] assms(4) have "reached m c [] n1" by (auto simp: reached_def)
  from reached_run [OF assms(2) this] assms(3) show ?thesis by (auto simp: reached_def)
qed

theorem broadcast_reaches_witness:
  "\<exists>n. nruns (NewDashboardNotifier\<lparr>nfClients := [7], nfLoop := Some [WriteMessage TextPing 7]\<rparr>) [ELoop (AWrite TextPing 7 True)] n \<and>
     (ELoop (AWrite TextPing 7 True) \<in> set [ELoop (AWrite TextPing 7 True)] \<or> 7 \<in> set (nfClosed n))"
proof -
  let ?n = "NewDashboardNotifier\<lparr>nfClients := [7], nfLoop := Some [Copy TextPing]\<rparr>"
  let ?n1 = "NewDashboardNotifier\<lparr>nfClients := [7], nfLoop := Some [WriteMessage TextPing 7]\<rparr>"
  have "exec Loop ?n [Copy TextPing] (ACopy TextPing [7]) ?n [WriteMessage TextPing 7]"
    using exec.copy [of "[7]" ?n Loop TextPing "[]"] by simp
  from nstep.loop [OF _ this] have snap: "nstep ?n (ELoop (ACopy TextPing [7])) ?n1" by simp
  from nstep.loop [OF _ exec.written [of Loop ?n1 TextPing 7 "[]"]]
  have "nruns ?n1 [ELoop (AWrite TextPing 7 True)] (?n1\<lparr>nfLoop := Some []\<rparr>)" by (intro nruns_step) simp
  from this broadcast_reaches [OF snap this, of 7] show ?thesis by auto
qed

text \<open>
  Broadcasts are limited: there have been no more broadcasts of a change than the limiter has ticked, and no
  more than \<open>Notify\<close> was called.
\<close>

theorem broadcasts_limited:
  assumes "nruns NewDashboardNotifier es n"
  shows "broadcasts es \<le> count_list es ELimiter \<and> broadcasts es \<le> count_list es ENotify"
  using nruns_owing [OF assms refl] by auto

text \<open>
  C24: no data race on the clients. A goroutine that reads or writes the map holds the mutex, in every reachable
  state, and so nobody else is at the map then.
\<close>

fun touches :: "act \<Rightarrow> bool" where
  "touches (AInsert c) \<longleftrightarrow> True"
| "touches (ADelete c) \<longleftrightarrow> True"
| "touches (AHas b) \<longleftrightarrow> True"
| "touches (ACopy m cs) \<longleftrightarrow> True"
| "touches ACloseEach \<longleftrightarrow> True"
| "touches x \<longleftrightarrow> False"

lemma exec_touches: "exec a n k x n' k' \<Longrightarrow> guarded (nfMu n = Some a) k \<Longrightarrow> touches x \<Longrightarrow> nfMu n = Some a"
  by (induction rule: exec.induct) auto

theorem clients_guarded:
  assumes "nruns NewDashboardNotifier es n" and "touches x"
  shows "(nstep n (ELoop x) n1 \<longrightarrow> nfMu n = Some Loop) \<and> (nstep n (EHandler c x) n1 \<longrightarrow> nfMu n = Some (Handler c))"
proof (intro conjI impI)
  have ok: "nf_ok n" by (rule nruns_ok [OF assms(1) nf_ok_new])
  {
    assume "nstep n (ELoop x) n1"
    then show "nfMu n = Some Loop"
      by (rule nstep_elims) (rule exec_touches [OF _ _ assms(2)], assumption, use ok in \<open>simp add: nf_ok_def\<close>)
  next
    assume "nstep n (EHandler c x) n1"
    then show "nfMu n = Some (Handler c)"
      by (rule nstep_elims) (rule exec_touches [OF _ _ assms(2)], assumption, use ok in \<open>simp add: nf_ok_def\<close>)
  }
qed

theorem clients_guarded_witness:
  "touches (AInsert 3) \<and> (\<exists>n. nstep busyNotifier (EHandler 3 (AInsert 3)) n) \<and> nfMu busyNotifier = Some (Handler 3)"
proof -
  let ?k = "[Unlock, Read 3] @ unregisterCode 3 @ [Close 3]"
  have "map_of (nfHandlers busyNotifier) 3 = Some (Insert 3 # ?k)" by (simp add: busyNotifier_def)
  from nstep.handler [OF this exec.insert] have "\<exists>n. nstep busyNotifier (EHandler 3 (AInsert 3)) n" by blast
  moreover from this clients_guarded [OF busyNotifier_reached, of "AInsert 3" _ 3]
  have "nfMu busyNotifier = Some (Handler 3)" by auto
  ultimately show ?thesis by simp
qed

end
