(* ===== verification/Http_Handler.thy ===== *)
theory Http_Handler
  imports Dashboard Templates Notifier
begin

text \<open>
  \<open>web/handler.go\<close> and the sync handler of \<open>web/sync.go\<close>: which request reaches which handler, and what
  the handlers answer. A handler maps the server's state and a request to a reply and the new state
  (the authentication caches and the notifier's connections). The embedded files and their file
  servers, the upgrade of WebSocket connections, the rendering of templates and the JSON codec are
  fields of a \<open>HandlerWorld\<close>. A JSON body is the value that is encoded.
\<close>

subsection \<open>Types\<close>

record pageTemplateData =
  pdTitle :: string
  pdFaviconURL :: string
  pdContentLayout :: string
  pdGroups :: "DashboardGroup list"

datatype body =
    BText string
  | BSession authSession
  | BDashboard DashboardResponse
  | BHTML string
  | BFile string
  | BRedirect string
  | BProxied string
  | BAborted
  | BJSON any
  | BUpgraded conn
  | BEmpty

record Reply =
  rpStatus :: int
  rpBody :: body
  rpCookie :: "Cookie option"

definition reply :: "int \<Rightarrow> body \<Rightarrow> Reply" where
  "reply status b = \<lparr>rpStatus = status, rpBody = b, rpCookie = None\<rparr>"

definition httpError :: "string \<Rightarrow> int \<Rightarrow> Reply" where
  "httpError text status = reply status (BText text)"

definition methodNotAllowed :: Reply where
  "methodNotAllowed = httpError ''Method Not Allowed'' 405"

definition unauthorized :: Reply where
  "unauthorized = httpError ''Unauthorized'' 401"

text \<open>
  \<open>hwErrorText\<close> is \<open>Error()\<close>; \<open>hwReadFile\<close> and \<open>hwStat\<close> read the embedded frontend; \<open>hwUpgrade\<close> is the
  upgrader apart from its \<open>CheckOrigin\<close>; \<open>hwParseURL\<close> and \<open>hwParseHost\<close> are the error and the host of
  \<open>url.Parse\<close>; \<open>hwRender\<close> executes the page template; \<open>hwFileServer\<close> and \<open>hwStaticServer\<close> are the file
  servers of the directories \<open>dist\<close> and \<open>static\<close> that the build embeds, on the path they are asked for;
  \<open>hwRoundTrip\<close> is the transport of the reverse proxy for a target URL, with the status and the body it
  reads; \<open>hwUnmarshal\<close> and \<open>hwMarshal\<close> are the JSON codec for objects.
\<close>

record HandlerWorld =
  hwAuth :: AuthWorld
  hwUnicode :: unicode
  hwOrder :: "string order"
  hwErrorText :: "error \<Rightarrow> string"
  hwReadFile :: "string \<Rightarrow> error + string"
  hwStat :: filesystem
  hwParseURL :: "string \<Rightarrow> string option"
  hwParseHost :: "string \<Rightarrow> string option"
  hwMarshalConfig :: "authConfigResponse \<Rightarrow> error + string"
  hwRender :: "pageTemplate \<Rightarrow> pageTemplateData \<Rightarrow> error + string"
  hwUpgrade :: "Request \<Rightarrow> conn option"
  hwFileServer :: "string \<Rightarrow> Reply"
  hwStaticServer :: "string \<Rightarrow> Reply"
  hwRoundTrip :: "string \<Rightarrow> Request \<Rightarrow> error + int \<times> (error + string)"
  hwUnmarshal :: "string \<Rightarrow> error + (string, any) gomap option"
  hwMarshal :: "(string, any) gomap \<Rightarrow> error + string"

record Server =
  svAuth :: authService
  svNotifier :: notifier
  svCollector :: dashboardCollector
  svOptions :: Options
  svTemplate :: pageTemplate

type_synonym handler = "HandlerWorld \<Rightarrow> Server \<Rightarrow> Request \<Rightarrow> Reply \<times> Server"

subsection \<open>Handlers\<close>

definition sessionHandler :: handler where
  "sessionHandler w s r =
     (if \<not> asEnabled (svAuth s) then
        (reply 200 (BSession \<lparr>ssUserInfo = Some [(''sub'', AString ''anonymous'')], ssGroups = []\<rparr>), s)
      else if reqMethod r = ''GET'' then
        (case userInfoFromCookie (hwAuth w) (svAuth s) r of
           Inl _ \<Rightarrow> (unauthorized, s)
         | Inr session \<Rightarrow> (reply 200 (BSession session), s))
      else if reqMethod r = ''POST'' then
        (let token = bearerTokenFromRequest (hwUnicode w) r in
         if token = [] then (httpError ''missing bearer token'' 401, s)
         else
           (case fetchUserInfo (hwAuth w) (svAuth s) token of
              (Inl e, a) \<Rightarrow> (httpError (hwErrorText w e) 401, s\<lparr>svAuth := a\<rparr>)
            | (Inr userInfo, a) \<Rightarrow>
                (let session = newAuthSession userInfo in
                 ((reply 200 (BSession session))\<lparr>rpCookie := Some (setSessionCookie (hwAuth w) a session)\<rparr>,
                  s\<lparr>svAuth := a\<rparr>))))
      else if reqMethod r = ''DELETE'' then
        ((reply 204 BEmpty)\<lparr>rpCookie := Some (clearSessionCookie (svAuth s))\<rparr>, s)
      else (methodNotAllowed, s))"

text \<open>The session in the request's context, if any, is an argument.\<close>

definition dashboardHandler :: "authSession option \<Rightarrow> handler" where
  "dashboardHandler ctx w s r =
     (if reqMethod r \<noteq> ''GET'' then (methodNotAllowed, s)
      else
        (let userGroups = (case ctx of Some session \<Rightarrow> ssGroups session | None \<Rightarrow> []) in
         case collectDashboard (hwUnicode w) (hwOrder w) (svCollector s) userGroups False of
           Inl e \<Rightarrow> (httpError (hwErrorText w e) 500, s)
         | Inr payload \<Rightarrow> (reply 200 (BDashboard payload), s)))"

definition requireAuthentication :: "(authSession option \<Rightarrow> handler) \<Rightarrow> handler" where
  "requireAuthentication next w s r =
     (case authenticateRequest (hwUnicode w) (hwAuth w) (svAuth s) r of
        (Inl _, a, _) \<Rightarrow> (unauthorized, s\<lparr>svAuth := a\<rparr>)
      | (Inr session, a, cookie) \<Rightarrow>
          (case next (Some session) w (s\<lparr>svAuth := a\<rparr>) r of (rp, s') \<Rightarrow> (rp\<lparr>rpCookie := cookie\<rparr>, s')))"

definition apiDashboard :: handler where
  "apiDashboard w s r =
     (if asEnabled (svAuth s) then requireAuthentication dashboardHandler w s r
      else dashboardHandler None w s r)"

text \<open>
  The handler registers the connection; the goroutine it starts, which reads from the connection and unregisters
  it at the first error, is the rest of \<open>connectionCode\<close> in \<open>Notifier\<close>. \<open>Upgrade(w, r, nil)\<close> writes the reply 101
  itself, without the headers set on \<open>w\<close>, so that a renewed cookie is lost there; its error replies carry them.
\<close>

definition upgradeHandler :: "Cookie option \<Rightarrow> handler" where
  "upgradeHandler cookie w s r =
     (case hwUpgrade w r of
        None \<Rightarrow> ((reply 400 BEmpty)\<lparr>rpCookie := cookie\<rparr>, s)
      | Some conn \<Rightarrow>
          (if \<not> CheckOrigin (hwUnicode w) (hwParseHost w) r then
             ((reply 403 BEmpty)\<lparr>rpCookie := cookie\<rparr>, s)
           else
             (reply 101 (BUpgraded conn),
              s\<lparr>svNotifier := register conn (svNotifier s)\<rparr>)))"

definition updatesHandler :: handler where
  "updatesHandler w s r =
     (if reqMethod r \<noteq> ''GET'' then (methodNotAllowed, s)
      else if asEnabled (svAuth s) then
        (case authenticateRequest (hwUnicode w) (hwAuth w) (svAuth s) r of
           (Inl _, a, _) \<Rightarrow> (unauthorized, s\<lparr>svAuth := a\<rparr>)
         | (Inr _, a, cookie) \<Rightarrow> upgradeHandler cookie w (s\<lparr>svAuth := a\<rparr>) r)
      else upgradeHandler None w s r)"

text \<open>\<open>bytes.Replace\<close> with a limit of one\<close>

definition replaceFirst :: "string \<Rightarrow> string \<Rightarrow> string \<Rightarrow> string" where
  "replaceFirst s old new =
     (case Index s old of None \<Rightarrow> s | Some i \<Rightarrow> take i s @ new @ drop (i + length old) s)"

definition injectAuthConfig ::
    "(authConfigResponse \<Rightarrow> error + string) \<Rightarrow> string \<Rightarrow> authConfigResponse \<Rightarrow> error + string" where
  "injectAuthConfig marshal index config =
     (case marshal config of
        Inl e \<Rightarrow> Inl e
      | Inr configJSON \<Rightarrow>
          (let injection = [CHR 0x0A] @ ''    <script>window.config = '' @ configJSON @ '';</script>'' in
           if \<not> Contains index ''</head>'' then Inl (Errorf ''index.html is missing </head>'' [] None)
           else Inr (replaceFirst index ''</head>'' (injection @ ''</head>''))))"

definition frontendIndexHandler :: handler where
  "frontendIndexHandler w s r =
     (if reqMethod r \<noteq> ''GET'' then (methodNotAllowed, s)
      else
        (case hwReadFile w ''index.html'' of
           Inl e \<Rightarrow> (httpError (hwErrorText w e) 500, s)
         | Inr index \<Rightarrow>
             (case authConfig (hwAuth w) (svAuth s) (requestBaseURL r) of
                (config, a) \<Rightarrow>
                  (case injectAuthConfig (hwMarshalConfig w) index config of
                     Inl e \<Rightarrow> (httpError (hwErrorText w e) 500, s\<lparr>svAuth := a\<rparr>)
                   | Inr html \<Rightarrow> (reply 200 (BHTML html), s\<lparr>svAuth := a\<rparr>)))))"

definition pageData :: "HandlerWorld \<Rightarrow> Server \<Rightarrow> string list \<Rightarrow> pageTemplateData" where
  "pageData w s userGroups =
     \<lparr>pdTitle = firstNonEmptyString [poTitle (opPage (svOptions s)), ''cupboard''],
      pdFaviconURL = poFaviconURL (opPage (svOptions s)),
      pdContentLayout = firstNonEmptyString [poContentLayout (opPage (svOptions s)), ''list''],
      pdGroups =
        (case collectDashboard (hwUnicode w) (hwOrder w) (svCollector s) userGroups False of
           Inr dashboard \<Rightarrow> drGroups dashboard | Inl _ \<Rightarrow> [])\<rparr>"

definition renderPage :: "HandlerWorld \<Rightarrow> Server \<Rightarrow> string list \<Rightarrow> Reply \<times> Server" where
  "renderPage w s userGroups =
     (case hwRender w (svTemplate s) (pageData w s userGroups) of
        Inl e \<Rightarrow> (httpError (hwErrorText w e) 500, s)
      | Inr html \<Rightarrow> (reply 200 (BHTML html), s))"

definition pageTemplateHandler :: handler where
  "pageTemplateHandler w s r =
     (if reqMethod r \<noteq> ''GET'' then (methodNotAllowed, s)
      else if asEnabled (svAuth s) then
        (case userInfoFromCookie (hwAuth w) (svAuth s) r of
           Inl _ \<Rightarrow> frontendIndexHandler w s r
         | Inr session \<Rightarrow> renderPage w s (ssGroups session))
      else renderPage w s [])"

definition rootHandler :: handler where
  "rootHandler w s r =
     (let cleanPath = Clean (reqPath r) in
      if cleanPath = ''.'' \<or> cleanPath = ''/'' then pageTemplateHandler w s r
      else
        (let assetPath = TrimPrefix cleanPath ''/'' in
         if assetPath = ''index.html'' then frontendIndexHandler w s r
         else
           (case hwStat w assetPath of
              Contents _ \<Rightarrow> (hwFileServer w (reqPath r), s)
            | ReadError _ \<Rightarrow> (httpError ''Internal Server Error'' 500, s)
            | NotExist _ \<Rightarrow> frontendIndexHandler w s r)))"

definition faviconHandler :: handler where
  "faviconHandler w s r =
     (if reqMethod r \<noteq> ''GET'' then (methodNotAllowed, s)
      else (reply 301 (BRedirect ''/static/logo.svg''), s))"

text \<open>A closed connection is no reply at all; it appears here with the status 0.\<close>

definition proxyReply :: "HandlerWorld \<Rightarrow> string \<Rightarrow> string \<Rightarrow> Request \<Rightarrow> Reply" where
  "proxyReply w target issuer r =
     (case proxyDiscovery (hwUnmarshal w) (hwMarshal w) issuer (hwRoundTrip w target r) of
        Proxied status doc \<Rightarrow> reply status (BProxied doc)
      | ProxyFailed e \<Rightarrow> httpError (hwErrorText w e) 502
      | ProxyAborted \<Rightarrow> reply 0 BAborted)"

definition openIDHandler :: handler where
  "openIDHandler w s r =
     (if reqMethod r \<noteq> ''GET'' then (methodNotAllowed, s)
      else
        (case serveOpenIDConfiguration (hwAuth w) (hwParseURL w) (svAuth s) r of
           (DiscoveryError status text, a) \<Rightarrow> (httpError text status, s\<lparr>svAuth := a\<rparr>)
         | (DiscoveryProxy target issuer, a) \<Rightarrow> (proxyReply w target issuer r, s\<lparr>svAuth := a\<rparr>)))"

definition getOnly :: "body \<Rightarrow> handler" where
  "getOnly b w s r = (if reqMethod r \<noteq> ''GET'' then (methodNotAllowed, s) else (reply 200 b, s))"

text \<open>The documentation page and the OpenAPI document\<close>

definition docsPage :: string where
  "docsPage = join_with CHR 0x0A
    [''<!doctype html>'', ''<html>'', ''  <head>'', ''    <meta charset=\"utf-8\" />'',
     ''    <title>cupboard API docs</title>'',
     ''    <link rel=\"stylesheet\" href=\"https://unpkg.com/swagger-ui-dist@5/swagger-ui.css\" />'',
     ''  </head>'', ''  <body>'', ''    <div id=\"swagger-ui\"></div>'',
     ''    <script src=\"https://unpkg.com/swagger-ui-dist@5/swagger-ui-bundle.js\"></script>'',
     ''    <script>'',
     ''      window.ui = SwaggerUIBundle({ url: '' @ [CHR 0x27] @ ''/api/openapi.json'' @ [CHR 0x27] @ '', dom_id: '' @
       [CHR 0x27] @ ''#swagger-ui'' @ [CHR 0x27] @ '' })'',
     ''    </script>'', ''  </body>'', ''</html>'']"

definition openAPISpec :: any where
  "openAPISpec = AMap
    [(''openapi'', AString ''3.0.3''),
     (''info'', AMap [(''title'', AString ''cupboard API''), (''version'', AString ''v1'')]),
     (''components'', AMap
       [(''securitySchemes'', AMap
          [(''bearerAuth'', AMap [(''type'', AString ''http''), (''scheme'', AString ''bearer'')])])]),
     (''paths'', AMap
       [(''/api/session'', AMap
          [(''get'', AMap [(''summary'', AString ''Get session userinfo from cookie'')]),
           (''post'', AMap [(''summary'', AString ''Create backend session from bearer token''),
              (''security'', AList [AMap [(''bearerAuth'', AStrs [])]])]),
           (''delete'', AMap [(''summary'', AString ''Clear backend session cookie'')])]),
        (''/api/dashboard'', AMap
          [(''get'', AMap [(''summary'', AString ''Get grouped dashboard links''),
              (''security'', AList [AMap [(''bearerAuth'', AStrs [])]])])])])]"

text \<open>
  \<open>http.ServeMux\<close>: except for \<open>CONNECT\<close> the mux works on the clean path; it redirects to the clean
  path if that is another one, and to a registered subtree if only the slash at its end is missing. In
  Go 1.26, which \<open>go.mod\<close> asks for, these redirections have the status 307.
\<close>

definition cleanPath :: "string \<Rightarrow> string" where
  "cleanPath p =
     (if p = [] then ''/''
      else
        (let p = (if hd p \<noteq> CHR ''/'' then CHR ''/'' # p else p); np = Clean p in
         if last p = CHR ''/'' \<and> np \<noteq> ''/'' then np @ ''/'' else np))"

definition muxPath :: "Request \<Rightarrow> string" where
  "muxPath r = (if reqMethod r = ''CONNECT'' then reqPath r else cleanPath (reqPath r))"

definition muxRedirect :: "string list \<Rightarrow> Request \<Rightarrow> string option" where
  "muxRedirect subtrees r =
     (if List.member subtrees (muxPath r @ ''/'') then Some (muxPath r @ ''/'')
      else if muxPath r \<noteq> reqPath r then Some (muxPath r)
      else None)"

text \<open>
  The routes registered with the mux. The mux matches the escaped path; \<open>reqPath\<close> stands for the path of a
  request that has no escapes in it, where the two are the same.
\<close>

definition ServeHTTP :: handler where
  "ServeHTTP w s r =
     (case muxRedirect [''/static/''] r of
        Some target \<Rightarrow> (reply 307 (BRedirect target), s)
      | None \<Rightarrow>
          (let p = reqPath r in
           if p = ''/favicon.ico'' then faviconHandler w s r
           else if p = ''/.well-known/openid-configuration'' then openIDHandler w s r
           else if p = ''/api/openapi.json'' then getOnly (BJSON openAPISpec) w s r
           else if p = ''/api/docs'' then getOnly (BHTML docsPage) w s r
           else if p = ''/api/session'' then sessionHandler w s r
           else if p = ''/api/dashboard'' then apiDashboard w s r
           else if p = ''/api/dashboard/updates'' then updatesHandler w s r
           else if HasPrefix p ''/static/'' then (hwStaticServer w (TrimPrefix p ''/static/''), s)
           else rootHandler w s r))"

definition syncHandler :: "HandlerWorld \<Rightarrow> dashboardCollector \<Rightarrow> Request \<Rightarrow> Reply" where
  "syncHandler w collector r =
     (if muxRedirect [] r \<noteq> None then reply 307 (BRedirect (muxPath r))
      else if reqPath r \<noteq> ''/dashboard'' then httpError ''404 page not found'' 404
      else if reqMethod r \<noteq> ''GET'' then methodNotAllowed
      else
        (case collectDashboard (hwUnicode w) (hwOrder w) collector [allLinkGroupsWildcard] True of
           Inl e \<Rightarrow> httpError (hwErrorText w e) 500
         | Inr payload \<Rightarrow> reply 200 (BDashboard payload)))"

text \<open>
  A dashboard on the other side of the wire: what the struct tags leave of it. The flags that mark
  links, tiles and groups for replication have the tag \<open>json:"-"\<close> and are false after decoding.
\<close>

definition onWire :: "DashboardResponse \<Rightarrow> DashboardResponse" where
  "onWire d =
     \<lparr>drLinkGroups = map (\<lambda>g. g\<lparr>lgReplicate := False\<rparr>) (drLinkGroups d),
      drGroups = map (\<lambda>g. g\<lparr>dgLinks := map (\<lambda>l. l\<lparr>lnReplicate := False\<rparr>) (dgLinks g),
                            dgTiles := map (\<lambda>t. t\<lparr>tlReplicate := False\<rparr>) (dgTiles g)\<rparr>) (drGroups d)\<rparr>"

definition NewHandler ::
    "filesystem \<Rightarrow> filesystem \<Rightarrow> (string \<Rightarrow> string \<Rightarrow> error option) \<Rightarrow> Reader \<Rightarrow> Discovery option \<Rightarrow>
      Options \<Rightarrow> notifier \<Rightarrow> SyncClient option \<Rightarrow> Manager option \<Rightarrow> error + Server" where
  "NewHandler fsys efs parse k8sClient discovery options nf syncClient foreignClusters =
     (case loadPageTemplate fsys efs parse (poTemplateSet (opPage options)) of
        Inl e \<Rightarrow> Inl e
      | Inr tmpl \<Rightarrow>
          Inr \<lparr>svAuth = newAuthService (opAuth options), svNotifier = nf,
               svCollector = newDashboardCollector k8sClient discovery options syncClient foreignClusters,
               svOptions = options, svTemplate = tmpl\<rparr>)"

text \<open>The operations an OpenAPI document describes: path, method, and whether it is secured\<close>

definition anyEntries :: "any \<Rightarrow> (string \<times> any) list" where
  "anyEntries x = (case x of AMap m \<Rightarrow> m | _ \<Rightarrow> [])"

definition documentedOperations :: "any \<Rightarrow> (string \<times> string \<times> bool) list" where
  "documentedOperations spec =
     (case map_of (anyEntries spec) ''paths'' of
        None \<Rightarrow> []
      | Some paths \<Rightarrow>
          concat (map (\<lambda>(path, item). map (\<lambda>(verb, op).
            (path, map ascii_upper verb, map_of (anyEntries op) ''security'' \<noteq> None)) (anyEntries item))
            (anyEntries paths)))"

subsection \<open>Lemmas\<close>

lemma status_simps [simp]:
  "rpStatus (reply st b) = st" "rpBody (reply st b) = b" "rpCookie (reply st b) = None"
  "rpBody (httpError t st) = BText t" "rpStatus (httpError t st) = st"
  "rpBody methodNotAllowed = BText ''Method Not Allowed''" "rpBody unauthorized = BText ''Unauthorized''"
  "rpStatus unauthorized = 401" "rpStatus methodNotAllowed = 405"
  by (simp_all add: reply_def httpError_def methodNotAllowed_def unauthorized_def)

lemma muxRedirect_paths [simp]:
  "reqPath r \<in> {''/'', ''/.well-known/openid-configuration'', ''/api/session'', ''/api/dashboard'', ''/api/dashboard/updates''} \<Longrightarrow>
     muxRedirect [''/static/''] r = None"
  "reqPath r = ''/dashboard'' \<Longrightarrow> muxRedirect [] r = None"
proof -
  have "list_all (\<lambda>p. cleanPath p = p) [''/'', ''/.well-known/openid-configuration'', ''/api/session'',
      ''/api/dashboard'', ''/api/dashboard/updates'', ''/dashboard'']"
    by code_simp
  then show "reqPath r \<in> {''/'', ''/.well-known/openid-configuration'', ''/api/session'', ''/api/dashboard'',
      ''/api/dashboard/updates''} \<Longrightarrow>
      muxRedirect [''/static/''] r = None" "reqPath r = ''/dashboard'' \<Longrightarrow> muxRedirect [] r = None"
    by (auto simp: muxRedirect_def muxPath_def)
qed

lemma documented_operations:
  "documentedOperations openAPISpec =
     [(''/api/session'', ''GET'', False), (''/api/session'', ''POST'', True), (''/api/session'', ''DELETE'', False),
      (''/api/dashboard'', ''GET'', True)]"
  by code_simp

lemma dashboardHandler_payload:
  assumes "dashboardHandler ctx w s r = (rp, s')" and "rpBody rp = BDashboard payload"
  shows "collectDashboard (hwUnicode w) (hwOrder w) (svCollector s)
    (case ctx of Some session \<Rightarrow> ssGroups session | None \<Rightarrow> []) False = Inr payload"
  using assms by (auto simp: dashboardHandler_def Let_def split: if_splits sum.splits)

lemma requireAuthentication_payload:
  assumes "requireAuthentication dashboardHandler w s r = (rp, s')" and "rpBody rp = BDashboard payload"
  obtains session a cookie where
    "authenticateRequest (hwUnicode w) (hwAuth w) (svAuth s) r = (Inr session, a, cookie)"
    "collectDashboard (hwUnicode w) (hwOrder w) (svCollector s) (ssGroups session) False = Inr payload"
proof -
  obtain session a cookie rp1 s1 where
    au: "authenticateRequest (hwUnicode w) (hwAuth w) (svAuth s) r = (Inr session, a, cookie)"
    and h: "dashboardHandler (Some session) w (s\<lparr>svAuth := a\<rparr>) r = (rp1, s1)" "rp = rp1\<lparr>rpCookie := cookie\<rparr>"
    using assms by (auto simp: requireAuthentication_def split: prod.splits sum.splits)
  from dashboardHandler_payload [OF h(1)] h(2) assms(2)
  have "collectDashboard (hwUnicode w) (hwOrder w) (svCollector s) (ssGroups session) False = Inr payload"
    by simp
  with au that show ?thesis by blast
qed

lemma TrimSpace_group: "g \<in> TrimSpace ` set (normalizedGroups raw) \<longleftrightarrow> g \<in> set (normalizedGroups raw)"
  using set_normalizedGroups_trimmed by (force simp: image_iff)

lemma Index_first:
  assumes "Index s sub = Some i"
  shows "s = take i s @ sub @ drop (i + length sub) s"
  by (rule Index_Some_take [OF assms])

subsection \<open>A concrete instance\<close>



definition exampleUnmarshal :: "string \<Rightarrow> error + (string, any) gomap option" where
  "exampleUnmarshal d =
     (case d of c # u \<Rightarrow> if c = CHR 0x7B then Inr (Some [(''issuer'', AString u)]) else Inl (External ''syntax'')
      | [] \<Rightarrow> Inl (External ''syntax''))"

definition exampleWorldOf :: "AuthWorld \<Rightarrow> HandlerWorld" where
  "exampleWorldOf aw =
     \<lparr>hwAuth = aw, hwUnicode = demoUnicode, hwOrder = demoOrder, hwErrorText = (\<lambda>e. ''error''),
      hwReadFile = (\<lambda>p. Inr ''<head></head>''), hwStat = (\<lambda>p. NotExist (External p)),
      hwParseURL = (\<lambda>u. None), hwParseHost = (\<lambda>u. Some u), hwMarshalConfig = (\<lambda>c. Inr ''{}''),
      hwRender = (\<lambda>t d. Inr ''page''), hwUpgrade = (\<lambda>r. Some 7),
      hwFileServer = (\<lambda>p. reply 200 (BFile p)), hwStaticServer = (\<lambda>p. reply 404 (BText ''404 page not found'')),
      hwRoundTrip = (\<lambda>u r. Inr (200, Inr (CHR 0x7B # u))), hwUnmarshal = exampleUnmarshal,
      hwMarshal = (\<lambda>m. case m of
        [(k, AString u)] \<Rightarrow> if k = ''issuer'' then Inr (CHR 0x7B # u) else Inl (External ''unsupported'')
      | _ \<Rightarrow> Inl (External ''unsupported''))\<rparr>"

definition exampleServer :: "bool \<Rightarrow> Server" where
  "exampleServer enabled =
     \<lparr>svAuth = exampleAuth\<lparr>asEnabled := enabled\<rparr>, svNotifier = NewDashboardNotifier, svCollector = demoCollector,
      svOptions = \<lparr>opAuth = \<lparr>aoEnabled = enabled, aoCookieSecret = [], aoIssuerURL = [], aoClientID = [],
          aoRedirectPath = [], aoScopes = [], aoUserInfoEndpointURL = []\<rparr>,
        opForecastle = \<lparr>foInstance = []\<rparr>, opLinkGroups = [], opStaticLinks = [],
        opPage = \<lparr>poTemplateSet = [], poTitle = [], poFaviconURL = [], poContentLayout = []\<rparr>\<rparr>,
      svTemplate = \<lparr>ptTemplates = [], ptSet = ''default''\<rparr>\<rparr>"


subsection \<open>Properties\<close>

text \<open>
  C1: the dashboard API is protected. With authentication enabled, a reply of \<open>/api/dashboard\<close> that
  carries a dashboard is given only to a request that authenticates, and every link in it is
  unrestricted or demands a group of the authenticated session (or the session holds the internal
  wildcard group).
\<close>

theorem api_dashboard_protected:
  assumes "asEnabled (svAuth s)" and "reqPath r = ''/api/dashboard''"
    and "ServeHTTP w s r = (rp, s')" and "rpBody rp = BDashboard payload"
  shows "\<exists>session a cookie.
    authenticateRequest (hwUnicode w) (hwAuth w) (svAuth s) r = (Inr session, a, cookie) \<and>
    (\<forall>grp \<in> set (drGroups payload). \<forall>l \<in> set (dgLinks grp).
       lnGroups l = [] \<or> allLinkGroupsWildcard \<in> TrimSpace ` set (ssGroups session) \<or>
       (\<exists>g \<in> set (lnGroups l). g \<in> TrimSpace ` set (ssGroups session)))"
proof -
  have "requireAuthentication dashboardHandler w s r = (rp, s')"
    using assms(1-3) by (simp add: ServeHTTP_def Let_def apiDashboard_def)
  from requireAuthentication_payload [OF this assms(4)] obtain session a cookie where
    au: "authenticateRequest (hwUnicode w) (hwAuth w) (svAuth s) r = (Inr session, a, cookie)"
    and run: "collectDashboard (hwUnicode w) (hwOrder w) (svCollector s) (ssGroups session) False = Inr payload" .
  have "lnGroups l = [] \<or> allLinkGroupsWildcard \<in> TrimSpace ` set (ssGroups session) \<or>
       (\<exists>g \<in> set (lnGroups l). g \<in> TrimSpace ` set (ssGroups session))"
    if "grp \<in> set (drGroups payload)" "l \<in> set (dgLinks grp)" for grp l
    using collectDashboard_member(1) [OF run that] by (auto simp: linkAllowedForGroups_iff)
  with au show ?thesis by blast
qed

theorem api_dashboard_protected_witness:
  "\<exists>session. fst (authenticateRequest demoUnicode (exampleAuthWorld 0) exampleAuth
     (exampleRequest ''GET'' ''/api/dashboard'' ''Bearer tok'')) = Inr session"
proof -
  let ?w = "exampleWorldOf (exampleAuthWorld 0)" and ?s = "exampleServer True"
  let ?r = "exampleRequest ''GET'' ''/api/dashboard'' ''Bearer tok''"
  have "(case rpBody (fst (ServeHTTP ?w ?s ?r)) of BDashboard d \<Rightarrow> True | _ \<Rightarrow> False)" by code_simp
  then obtain payload where payload: "rpBody (fst (ServeHTTP ?w ?s ?r)) = BDashboard payload"
    by (cases "rpBody (fst (ServeHTTP ?w ?s ?r))") auto
  obtain rp s' where run: "ServeHTTP ?w ?s ?r = (rp, s')" by (cases "ServeHTTP ?w ?s ?r")
  have "asEnabled (svAuth ?s)" "reqPath ?r = ''/api/dashboard''" "svAuth ?s = exampleAuth"
    by (simp_all add: exampleServer_def exampleRequest_def exampleAuth_def newAuthService_def Let_def)
  with api_dashboard_protected [OF this(1,2) run] payload run show ?thesis
    by (auto simp: exampleWorldOf_def)
qed



text \<open>
  C19: the OpenAPI document describes the interface. With authentication enabled, an operation of the
  document is never answered with 404 or 405; one that it documents as secured answers 401 to a
  request without a bearer token and without a session cookie; and at the documented paths every
  other method is answered with 405, or with 401 where the authentication comes first.
\<close>

theorem openAPISpec_served:
  assumes "asEnabled (svAuth s)" and "reqPath r = path" and "reqMethod r = verb"
    and "path \<in> fst ` set (documentedOperations openAPISpec)"
  shows "(\<forall>secured. (path, verb, secured) \<in> set (documentedOperations openAPISpec) \<longrightarrow>
      rpStatus (fst (ServeHTTP w s r)) \<notin> {404, 405} \<and>
      (secured \<and> bearerTokenFromRequest (hwUnicode w) r = [] \<and> reqCookie r (asCookieName (svAuth s)) = None \<longrightarrow>
         rpStatus (fst (ServeHTTP w s r)) = 401)) \<and>
    ((\<forall>secured. (path, verb, secured) \<notin> set (documentedOperations openAPISpec)) \<longrightarrow>
      rpStatus (fst (ServeHTTP w s r)) \<in> {405, 401})"
proof (cases "path = ''/api/session''")
  case True
  then have "ServeHTTP w s r = sessionHandler w s r" using assms(2) by (simp add: ServeHTTP_def)
  then show ?thesis using assms True
    by (auto simp: documented_operations sessionHandler_def Let_def split: sum.splits prod.splits)
next
  case False
  then have path: "path = ''/api/dashboard''" using assms(4) by (auto simp: documented_operations)
  then have run: "ServeHTTP w s r = requireAuthentication dashboardHandler w s r"
    using assms(1,2) by (simp add: ServeHTTP_def apiDashboard_def)
  have "\<not> (bearerTokenFromRequest (hwUnicode w) r = [] \<and> reqCookie r (asCookieName (svAuth s)) = None)"
    if "authenticateRequest (hwUnicode w) (hwAuth w) (svAuth s) r = (Inr session, a, cookie)" for session a cookie
    using that assms(1) by (auto simp: authenticateRequest_def userInfoFromCookie_def split: option.splits)
  then show ?thesis
    unfolding run using assms(2,3) path
    by (auto simp: documented_operations requireAuthentication_def dashboardHandler_def Let_def
        split: sum.splits prod.splits)
qed

theorem openAPISpec_served_witness:
  "rpStatus (fst (ServeHTTP (exampleWorldOf (exampleAuthWorld 0)) (exampleServer True)
     ((exampleRequest ''POST'' ''/api/session'' [])\<lparr>reqCookie := (\<lambda>_. None)\<rparr>))) = 401"
proof -
  let ?w = "exampleWorldOf (exampleAuthWorld 0)" and ?s = "exampleServer True"
  let ?r = "(exampleRequest ''POST'' ''/api/session'' [])\<lparr>reqCookie := (\<lambda>_. None)\<rparr>"
  have "bearerTokenFromRequest (hwUnicode ?w) ?r = []" by code_simp
  moreover have "asEnabled (svAuth ?s)" "reqPath ?r = ''/api/session''" "reqMethod ?r = ''POST''"
    by (simp_all add: exampleServer_def exampleRequest_def)
  moreover have "(''/api/session'', ''POST'', True) \<in> set (documentedOperations openAPISpec)"
    by (simp add: documented_operations)
  moreover from this have "''/api/session'' \<in> fst ` set (documentedOperations openAPISpec)" by force
  moreover have "reqCookie ?r (asCookieName (svAuth ?s)) = None" by simp
  ultimately show ?thesis
    using openAPISpec_served [of ?s ?r "''/api/session''" "''POST''" ?w] by blast
qed



text \<open>A discovery document \<open>null\<close> closes the connection.\<close>

lemma openid_null_document:
  assumes "hwRoundTrip w target r = Inr (status, Inr upstream)" and "hwUnmarshal w upstream = Inr None"
  shows "proxyReply w target issuer r = reply 0 BAborted"
  using assms by (simp add: proxyReply_def proxyDiscovery_def rewriteDiscovery_def)

text \<open>
  Without authentication only public links are served: if it is disabled, the dashboard API
  shows no link that demands a group.
\<close>

theorem anonymous_sees_public:
  assumes "\<not> asEnabled (svAuth s)" and "reqPath r = ''/api/dashboard''"
    and "ServeHTTP w s r = (rp, s')" and "rpBody rp = BDashboard payload"
    and "grp \<in> set (drGroups payload)" and "l \<in> set (dgLinks grp)"
  shows "lnGroups l = []"
proof -
  have "dashboardHandler None w s r = (rp, s')"
    using assms(1-3) by (simp add: ServeHTTP_def Let_def apiDashboard_def)
  from collectDashboard_member(1) [OF dashboardHandler_payload [OF this assms(4)] assms(5,6)]
  show ?thesis by (simp add: linkAllowedForGroups_iff)
qed

theorem anonymous_sees_public_witness: "lnGroups demoWiki = []"
proof -
  let ?w = "exampleWorldOf (exampleAuthWorld 0)" and ?s = "exampleServer False"
  let ?r = "exampleRequest ''GET'' ''/api/dashboard'' []"
  have eq: "(case rpBody (fst (ServeHTTP ?w ?s ?r)) of
      BDashboard d \<Rightarrow> map dgLinks (filter (\<lambda>g. dgLinkGroup g = ''tools'') (drGroups d)) | _ \<Rightarrow> []) = [[demoWiki]]"
    by code_simp
  then obtain payload where payload: "rpBody (fst (ServeHTTP ?w ?s ?r)) = BDashboard payload"
    by (cases "rpBody (fst (ServeHTTP ?w ?s ?r))") auto
  have "[demoWiki] \<in> set (map dgLinks (filter (\<lambda>g. dgLinkGroup g = ''tools'') (drGroups payload)))"
    using eq unfolding payload body.case by simp
  then obtain grp where grp: "grp \<in> set (drGroups payload)" "demoWiki \<in> set (dgLinks grp)"
    by (auto dest: sym)
  obtain rp s' where run: "ServeHTTP ?w ?s ?r = (rp, s')" by (cases "ServeHTTP ?w ?s ?r")
  have "\<not> asEnabled (svAuth ?s)" "reqPath ?r = ''/api/dashboard''" "rpBody rp = BDashboard payload"
    using run payload by (simp_all add: exampleServer_def exampleRequest_def)
  from anonymous_sees_public [OF this(1,2) run this(3) grp] show ?thesis .
qed

text \<open>
  The update stream. A connection is registered with the notifier only for a request from the
  server's own origin (or without one) that, with authentication enabled, authenticates; it is then
  among the notifier's clients, and no other client is lost.
\<close>

theorem updates_registered:
  assumes "reqPath r = ''/api/dashboard/updates''" and "ServeHTTP w s r = (rp, s')"
    and "rpBody rp = BUpgraded conn"
  shows "CheckOrigin (hwUnicode w) (hwParseHost w) r \<and>
    (asEnabled (svAuth s) \<longrightarrow> (\<exists>session a cookie.
       authenticateRequest (hwUnicode w) (hwAuth w) (svAuth s) r = (Inr session, a, cookie))) \<and>
    set (nfClients (svNotifier s')) = insert conn (set (nfClients (svNotifier s)))"
  using assms
  by (auto simp: ServeHTTP_def updatesHandler_def upgradeHandler_def register_def
      split: if_splits option.splits prod.splits sum.splits)

theorem updates_registered_witness:
  "nfClients (svNotifier (snd (ServeHTTP (exampleWorldOf (exampleAuthWorld 0)) (exampleServer True)
     (exampleRequest ''GET'' ''/api/dashboard/updates'' ''Bearer tok'')))) = [7] \<and>
   CheckOrigin demoUnicode (\<lambda>u. Some u) (exampleRequest ''GET'' ''/api/dashboard/updates'' ''Bearer tok'')"
proof -
  let ?w = "exampleWorldOf (exampleAuthWorld 0)" and ?s = "exampleServer True"
  let ?r = "exampleRequest ''GET'' ''/api/dashboard/updates'' ''Bearer tok''"
  have "nfClients (svNotifier (snd (ServeHTTP ?w ?s ?r))) = [7]"
    "(case rpBody (fst (ServeHTTP ?w ?s ?r)) of BUpgraded c \<Rightarrow> c | _ \<Rightarrow> 0) = 7" by code_simp+
  moreover from this(2) have "rpBody (fst (ServeHTTP ?w ?s ?r)) = BUpgraded 7"
    by (cases "rpBody (fst (ServeHTTP ?w ?s ?r))") auto
  moreover have "reqPath ?r = ''/api/dashboard/updates''" by (simp add: exampleRequest_def)
  ultimately show ?thesis
    using updates_registered [of ?r ?w ?s "fst (ServeHTTP ?w ?s ?r)" "snd (ServeHTTP ?w ?s ?r)" 7]
    by (simp add: exampleWorldOf_def)
qed

text \<open>
  What peers may fetch. A dashboard in a reply of the sync endpoint holds only links and tiles
  marked for replication and collected locally, though the endpoint asks with the wildcard group.
\<close>

theorem syncHandler_exports:
  assumes "rpBody (syncHandler w collector r) = BDashboard payload" and "grp \<in> set (drGroups payload)"
  shows "list_all (\<lambda>l. lnReplicate l \<and> local_link collector (dgLinkGroup grp) l) (dgLinks grp) \<and>
    list_all tlReplicate (dgTiles grp)"
proof -
  have "collectDashboard (hwUnicode w) (hwOrder w) collector [allLinkGroupsWildcard] True = Inr payload"
    using assms(1) by (auto simp: syncHandler_def split: if_splits sum.splits)
  from collectDashboard_member [OF this assms(2)] show ?thesis by (auto simp: list_all_iff any_link_def)
qed

theorem syncHandler_exports_witness:
  "\<exists>payload. rpBody (syncHandler (exampleWorldOf (exampleAuthWorld 0)) demoCollector
      (exampleRequest ''GET'' ''/dashboard'' [])) = BDashboard payload \<and>
    list_all (\<lambda>grp. list_all lnReplicate (dgLinks grp)) (drGroups payload)"
proof -
  let ?rp = "syncHandler (exampleWorldOf (exampleAuthWorld 0)) demoCollector (exampleRequest ''GET'' ''/dashboard'' [])"
  have "(case rpBody ?rp of BDashboard d \<Rightarrow> True | _ \<Rightarrow> False)" by code_simp
  then obtain payload where payload: "rpBody ?rp = BDashboard payload" by (cases "rpBody ?rp") auto
  with syncHandler_exports [OF payload] show ?thesis by (auto simp: list_all_iff)
qed

text \<open>
  Injecting the configuration. If the page has a closing head tag, the result is the page with
  the script inserted right before the first one and nothing else changed; otherwise, and only
  otherwise, the injection fails (with a configuration that can be encoded).
\<close>

theorem injectAuthConfig_inserts:
  assumes "marshal config = Inr json"
  shows "case injectAuthConfig marshal index config of
    Inr html \<Rightarrow> \<exists>before after. index = before @ ''</head>'' @ after \<and>
      Index index ''</head>'' = Some (length before) \<and>
      html = before @ [CHR 0x0A] @ ''    <script>window.config = '' @ json @ '';</script></head>'' @ after
  | Inl e \<Rightarrow> \<nexists>before after. index = before @ ''</head>'' @ after"
proof (cases "Index index ''</head>''")
  case None
  then have "injectAuthConfig marshal index config = Inl (Errorf ''index.html is missing </head>'' [] None)"
    using assms by (simp add: injectAuthConfig_def Contains_def Let_def)
  then show ?thesis using None by (simp only: sum.case Index_None_iff) blast
next
  case (Some i)
  have "i \<le> length index" by (rule Index_le_length [OF Some])
  moreover have "injectAuthConfig marshal index config =
      Inr (take i index @ ([CHR 0x0A] @ ''    <script>window.config = '' @ json @ '';</script>'') @ ''</head>'' @
        drop (i + length ''</head>'') index)"
    using assms Some by (simp add: injectAuthConfig_def Contains_def replaceFirst_def Let_def)
  ultimately show ?thesis
    using Index_first [OF Some] Some
    by (simp only: sum.case) (intro exI [of _ "take i index"] exI [of _ "drop (i + length ''</head>'') index"], simp)
qed

theorem injectAuthConfig_inserts_witness:
  "\<exists>html before after. injectAuthConfig (\<lambda>c. Inr ''{}'') ''<head></head></head>''
      (fst (authConfig (exampleAuthWorld 0) exampleAuth ''https://x'')) = Inr html \<and>
    ''<head></head></head>'' = before @ ''</head>'' @ after \<and> length before = 6"
proof -
  let ?c = "fst (authConfig (exampleAuthWorld 0) exampleAuth ''https://x'')"
  have i: "Index ''<head></head></head>'' ''</head>'' = Some 6" by code_simp
  have "\<not> isl (injectAuthConfig (\<lambda>c. Inr ''{}'') ''<head></head></head>'' ?c)" by code_simp
  then obtain html where html: "injectAuthConfig (\<lambda>c. Inr ''{}'') ''<head></head></head>'' ?c = Inr html"
    by (cases "injectAuthConfig (\<lambda>c. Inr ''{}'') ''<head></head></head>'' ?c") auto
  from injectAuthConfig_inserts [of "\<lambda>c. Inr ''{}''" ?c "''{}''" "''<head></head></head>''", unfolded html i]
  show ?thesis using html by auto
qed

end
