(* ===== verification/Main_Config.thy ===== *)
theory Main_Config
  imports Http_Handler
begin

text \<open>
  The configuration part of \<open>cmd/main.go\<close>: from the command line, the environment and the configuration
  file to the settings and the options of the manager. \<open>viper\<close> is a record of the answers of the
  configuration library; a flag is the value the \<open>flag\<close> package holds after parsing, together with
  the list of the flags given on the command line.
\<close>

subsection \<open>Namespaces\<close>

text \<open>\<open>cache.Options\<close> as its \<open>DefaultNamespaces\<close>, \<open>None\<close> for the zero value\<close>

definition setupCacheNamespaces :: "string \<Rightarrow> (string, unit) gomap option" where
  "setupCacheNamespaces namespaces =
     (if namespaces = [] then None
      else Some (fold (\<lambda>ns m. gm_set m (TrimSpace ns) ()) (Split namespaces CHR '','') []))"

subsection \<open>Sources of configuration\<close>

record viper =
  vpIsSet :: "string \<Rightarrow> bool"
  vpGetString :: "string \<Rightarrow> string"
  vpGetBool :: "string \<Rightarrow> bool"
  vpGetStringSlice :: "string \<Rightarrow> string list"
  vpLinkGroups :: "string \<Rightarrow> error + LinkGroup list"
  vpStaticLinks :: "string \<Rightarrow> error + StaticLink list"

definition envBindings :: "(string \<times> string) list" where
  "envBindings =
     [(''watchNamespace'', ''WATCH_NAMESPACE''),
      (''localTesting'', ''LOCAL_TESTING''),
      (''enableWebhooks'', ''ENABLE_WEBHOOKS''),
      (''auth.enabled'', ''ENABLE_AUTH''),
      (''auth.cookieSecret'', ''CUPBOARD_COOKIE_SECRET''),
      (''auth.issuerURL'', ''OIDC_ISSUER_URL''),
      (''auth.skipProbe'', ''SKIP_OIDC_PROBE''),
      (''auth.clientID'', ''OIDC_CLIENT_ID''),
      (''auth.redirectPath'', ''OIDC_REDIRECT_PATH''),
      (''auth.scopes'', ''OIDC_SCOPES''),
      (''auth.userInfoEndpoint'', ''OIDC_USERINFO_ENDPOINT''),
      (''forecastle.instance'', ''CUPBOARD_FORECASTLE_INSTANCE''),
      (''page.title'', ''CUPBOARD_PAGE_TITLE''),
      (''page.faviconURL'', ''CUPBOARD_FAVICON_URL''),
      (''page.templateSet'', ''CUPBOARD_TEMPLATE_SET''),
      (''page.contentLayout'', ''CUPBOARD_CONTENT_LAYOUT''),
      (''sync.bindAddress'', ''CUPBOARD_SYNC_BIND_ADDRESS''),
      (''sync.tls.ca'', ''CUPBOARD_SYNC_TLS_CA''),
      (''sync.tls.cert'', ''CUPBOARD_SYNC_TLS_CERT''),
      (''sync.tls.key'', ''CUPBOARD_SYNC_TLS_KEY''),
      (''sync.tls.authCert'', ''CUPBOARD_SYNC_TLS_AUTH_CERT''),
      (''sync.tls.authKey'', ''CUPBOARD_SYNC_TLS_AUTH_KEY''),
      (''fleet.trustStore'', ''CUPBOARD_FLEET_TRUST_STORE''),
      (''fleet.kubeconfig'', ''CUPBOARD_FLEET_KUBECONFIG''),
      (''fleet.clusters'', ''CUPBOARD_FLEET_CLUSTERS'')]"

text \<open>
  \<open>readIn\<close> is a viper with the given bindings (and \<open>AutomaticEnv\<close>) after it read the file, if there is
  one to read; \<open>getenv\<close> is \<open>os.Getenv\<close>.
\<close>

definition loadViperConfig ::
    "((string \<times> string) list \<Rightarrow> string option \<Rightarrow> error + viper) \<Rightarrow> (string \<Rightarrow> string) \<Rightarrow> string \<Rightarrow>
      error + viper" where
  "loadViperConfig readIn getenv configFile =
     (let configFile = (if TrimSpace configFile = [] then getenv ''CUPBOARD_CONFIG'' else configFile) in
      if TrimSpace configFile \<noteq> [] then readIn envBindings (Some configFile)
      else readIn envBindings None)"

text \<open>\<open>fs\<close> is the list of the names \<open>Visit\<close> goes through.\<close>

definition explicitFlags :: "string list \<Rightarrow> (string, bool) gomap" where
  "explicitFlags fs = fold (\<lambda>name m. gm_set m name True) fs []"

definition resolveStringFlag ::
    "viper \<Rightarrow> (string, bool) gomap \<Rightarrow> string \<Rightarrow> string \<Rightarrow> string \<Rightarrow> string" where
  "resolveStringFlag config setFlags flagName configKey current =
     (if gm_bool setFlags flagName then current
      else if vpIsSet config configKey then vpGetString config configKey
      else current)"

definition resolveBoolFlag ::
    "viper \<Rightarrow> (string, bool) gomap \<Rightarrow> string \<Rightarrow> string \<Rightarrow> bool \<Rightarrow> bool" where
  "resolveBoolFlag config setFlags flagName configKey current =
     (if gm_bool setFlags flagName then current
      else if vpIsSet config configKey then vpGetBool config configKey
      else current)"

text \<open>The function \<open>firstNonEmpty\<close> of package main, a copy of the one of package web\<close>

fun mainFirstNonEmpty :: "string list \<Rightarrow> string" where
  "mainFirstNonEmpty [] = []"
| "mainFirstNonEmpty (v # values) = (if TrimSpace v \<noteq> [] then v else mainFirstNonEmpty values)"

definition splitCommaFlag :: "string \<Rightarrow> string list" where
  "splitCommaFlag s =
     fold (\<lambda>part result. let v = TrimSpace part in if v \<noteq> [] then result @ [v] else result)
       (Split s CHR '','') []"

subsection \<open>Command line and settings\<close>

record CommandLine =
  clMetricsAddr :: string
  clProbeAddr :: string
  clWebAddr :: string
  clLeaderElect :: bool
  clSecureMetrics :: bool
  clWebhookCertPath :: string
  clWebhookCertName :: string
  clWebhookCertKey :: string
  clMetricsCertPath :: string
  clMetricsCertName :: string
  clMetricsCertKey :: string
  clEnableHTTP2 :: bool
  clEnableAuth :: bool
  clSkipOIDCProbe :: bool
  clForecastleInstance :: string
  clConfig :: string
  clSyncAddr :: string
  clSyncURLs :: string
  clSyncSRVRecords :: string
  clSyncTLS :: SyncTLSOptions
  clFleetTrustStore :: string
  clFleetKubeconfig :: string
  clFleetClusters :: string
  clGiven :: "string list"

text \<open>The defaults of the flags: the command line without arguments\<close>

definition flagDefaults :: CommandLine where
  "flagDefaults =
     \<lparr>clMetricsAddr = ''0'', clProbeAddr = '':8081'', clWebAddr = '':8082'', clLeaderElect = False,
      clSecureMetrics = True, clWebhookCertPath = [], clWebhookCertName = ''tls.crt'',
      clWebhookCertKey = ''tls.key'', clMetricsCertPath = [], clMetricsCertName = ''tls.crt'',
      clMetricsCertKey = ''tls.key'', clEnableHTTP2 = False, clEnableAuth = True,
      clSkipOIDCProbe = False, clForecastleInstance = [], clConfig = [], clSyncAddr = '':8083'',
      clSyncURLs = [], clSyncSRVRecords = [],
      clSyncTLS = \<lparr>stCA = [], stCert = [], stKey = [], stAuthCert = [], stAuthKey = []\<rparr>,
      clFleetTrustStore = [], clFleetKubeconfig = [], clFleetClusters = [], clGiven = []\<rparr>"

record Settings =
  seMetricsAddr :: string
  seProbeAddr :: string
  seWebAddr :: string
  seLeaderElection :: bool
  seSecureMetrics :: bool
  seWebhookCert :: "string \<times> string \<times> string"
  seMetricsCert :: "string \<times> string \<times> string"
  seEnableHTTP2 :: bool
  seSkipOIDCProbe :: bool
  seSync :: SyncOptions
  seFleetTrustStore :: string
  seFleetKubeconfig :: string
  seFleetClusters :: "string list"
  seLocalTesting :: bool
  seEnableWebhooks :: bool
  seWatchNamespace :: string
  seWeb :: Options

definition listSetting :: "viper \<Rightarrow> (string, bool) gomap \<Rightarrow> string \<Rightarrow> string \<Rightarrow> string \<Rightarrow> string list" where
  "listSetting config setFlags flagName configKey current =
     (if gm_bool setFlags flagName then splitCommaFlag current
      else if vpIsSet config configKey then vpGetStringSlice config configKey
      else [])"

definition fleetSetting :: "viper \<Rightarrow> (string, bool) gomap \<Rightarrow> string \<Rightarrow> string list" where
  "fleetSetting config setFlags current =
     (if gm_bool setFlags ''fleet-clusters'' then splitCommaFlag current
      else if vpIsSet config ''fleet.clusters'' then splitCommaFlag (vpGetString config ''fleet.clusters'')
      else [])"

text \<open>A list of two keys of the configuration file, the second appended to the first\<close>

definition appendedSetting ::
    "(string \<Rightarrow> bool) \<Rightarrow> (string \<Rightarrow> error + 'a list) \<Rightarrow> string \<Rightarrow> string \<Rightarrow> error + 'a list" where
  "appendedSetting isSet unmarshal key1 key2 =
     (case (if isSet key1 then unmarshal key1 else Inr []) of
        Inl e \<Rightarrow> Inl e
      | Inr xs \<Rightarrow>
          (case (if isSet key2 then unmarshal key2 else Inr []) of
             Inl e \<Rightarrow> Inl e
           | Inr ys \<Rightarrow> Inr (xs @ ys)))"

definition webOptions ::
    "viper \<Rightarrow> bool \<Rightarrow> string \<Rightarrow> LinkGroup list \<Rightarrow> StaticLink list \<Rightarrow> Options" where
  "webOptions config enableAuth forecastleInstance linkGroups staticLinks =
     (let page = (\<lambda>key. mainFirstNonEmpty [vpGetString config (''page.'' @ key), vpGetString config (''web.'' @ key)]) in
      \<lparr>opAuth =
         \<lparr>aoEnabled = enableAuth,
          aoCookieSecret = vpGetString config ''auth.cookieSecret'',
          aoIssuerURL = vpGetString config ''auth.issuerURL'',
          aoClientID = vpGetString config ''auth.clientID'',
          aoRedirectPath = vpGetString config ''auth.redirectPath'',
          aoScopes = vpGetString config ''auth.scopes'',
          aoUserInfoEndpointURL = vpGetString config ''auth.userInfoEndpoint''\<rparr>,
       opForecastle = \<lparr>foInstance = forecastleInstance\<rparr>,
       opLinkGroups = linkGroups,
       opStaticLinks = staticLinks,
       opPage =
         \<lparr>poTemplateSet = page ''templateSet'', poTitle = page ''title'',
          poFaviconURL = page ''faviconURL'', poContentLayout = page ''contentLayout''\<rparr>\<rparr>)"

definition resolveSyncTLS :: "viper \<Rightarrow> (string, bool) gomap \<Rightarrow> SyncTLSOptions \<Rightarrow> SyncTLSOptions" where
  "resolveSyncTLS config setFlags t =
     \<lparr>stCA = resolveStringFlag config setFlags ''sync-tls-ca'' ''sync.tls.ca'' (stCA t),
      stCert = resolveStringFlag config setFlags ''sync-tls-cert'' ''sync.tls.cert'' (stCert t),
      stKey = resolveStringFlag config setFlags ''sync-tls-key'' ''sync.tls.key'' (stKey t),
      stAuthCert = resolveStringFlag config setFlags ''sync-tls-auth-cert'' ''sync.tls.authCert'' (stAuthCert t),
      stAuthKey = resolveStringFlag config setFlags ''sync-tls-auth-key'' ''sync.tls.authKey'' (stAuthKey t)\<rparr>"

definition resolveSettings :: "viper \<Rightarrow> CommandLine \<Rightarrow> error + Settings" where
  "resolveSettings config cl =
     (let setFlags = explicitFlags (clGiven cl);
          str = resolveStringFlag config setFlags;
          bool = resolveBoolFlag config setFlags in
      case appendedSetting (vpIsSet config) (vpLinkGroups config) ''linkGroups'' ''dashboard.linkGroups'' of
        Inl e \<Rightarrow> Inl e
      | Inr linkGroups \<Rightarrow>
          (case appendedSetting (vpIsSet config) (vpStaticLinks config) ''staticLinks'' ''dashboard.staticLinks'' of
             Inl e \<Rightarrow> Inl e
           | Inr staticLinks \<Rightarrow>
               Inr \<lparr>seMetricsAddr = str ''metrics-bind-address'' ''metrics.bindAddress'' (clMetricsAddr cl),
                    seProbeAddr = str ''health-probe-bind-address'' ''health.probeBindAddress'' (clProbeAddr cl),
                    seWebAddr = str ''web-bind-address'' ''web.bindAddress'' (clWebAddr cl),
                    seLeaderElection = bool ''leader-elect'' ''leaderElection.enabled'' (clLeaderElect cl),
                    seSecureMetrics = bool ''metrics-secure'' ''metrics.secure'' (clSecureMetrics cl),
                    seWebhookCert =
                      (str ''webhook-cert-path'' ''webhook.cert.path'' (clWebhookCertPath cl),
                       str ''webhook-cert-name'' ''webhook.cert.name'' (clWebhookCertName cl),
                       str ''webhook-cert-key'' ''webhook.cert.key'' (clWebhookCertKey cl)),
                    seMetricsCert =
                      (str ''metrics-cert-path'' ''metrics.cert.path'' (clMetricsCertPath cl),
                       str ''metrics-cert-name'' ''metrics.cert.name'' (clMetricsCertName cl),
                       str ''metrics-cert-key'' ''metrics.cert.key'' (clMetricsCertKey cl)),
                    seEnableHTTP2 = bool ''enable-http2'' ''http2.enabled'' (clEnableHTTP2 cl),
                    seSkipOIDCProbe = bool ''skip-oidc-probe'' ''auth.skipProbe'' (clSkipOIDCProbe cl),
                    seSync =
                      \<lparr>soBindAddress = str ''sync-bind-address'' ''sync.bindAddress'' (clSyncAddr cl),
                       soURLs = listSetting config setFlags ''sync-urls'' ''sync.urls'' (clSyncURLs cl),
                       soSRVRecords =
                         listSetting config setFlags ''sync-srv-records'' ''sync.srvRecords'' (clSyncSRVRecords cl),
                       soTLS = resolveSyncTLS config setFlags (clSyncTLS cl)\<rparr>,
                    seFleetTrustStore = str ''fleet-trust-store'' ''fleet.trustStore'' (clFleetTrustStore cl),
                    seFleetKubeconfig = str ''fleet-kubeconfig'' ''fleet.kubeconfig'' (clFleetKubeconfig cl),
                    seFleetClusters = fleetSetting config setFlags (clFleetClusters cl),
                    seLocalTesting = vpGetBool config ''localTesting'',
                    seEnableWebhooks =
                      (if vpIsSet config ''enableWebhooks'' then vpGetBool config ''enableWebhooks'' else True),
                    seWatchNamespace = TrimSpace (vpGetString config ''watchNamespace''),
                    seWeb = webOptions config (bool ''enable-auth'' ''auth.enabled'' (clEnableAuth cl))
                      (str ''forecastle-instance'' ''forecastle.instance'' (clForecastleInstance cl))
                      linkGroups staticLinks\<rparr>))"

subsection \<open>The manager\<close>

text \<open>
  \<open>getConfig\<close> is \<open>ctrl.GetConfigOrDie\<close> (\<open>Inl\<close> when it dies), \<open>defaultLoads\<close> whether the default
  kubeconfig can be loaded, \<open>kindContext\<close> the client configuration of its context \<open>kind-cupboard\<close>.
\<close>

definition setupRuntimeConfig ::
    "error + RestConfig \<Rightarrow> bool \<Rightarrow> error + RestConfig \<Rightarrow> bool \<Rightarrow> error + RestConfig" where
  "setupRuntimeConfig getConfig defaultLoads kindContext localTesting =
     (let noContext = Errorf ''LOCAL_TESTING=true requires kubeconfig context kind-cupboard'' [] None in
      if \<not> localTesting then getConfig
      else if defaultLoads then
        (case kindContext of Inr cfg \<Rightarrow> Inr cfg | Inl _ \<Rightarrow> Inl noContext)
      else Inl noContext)"

text \<open>
  The options of the manager: the kinds registered in its scheme, the protocols of the TLS servers (\<open>None\<close>: the default of the library),
  whether the metrics endpoint demands authentication, and the certificates, if configured, as
  directory, name and key.
\<close>

record ManagerOptions =
  moScheme :: "GroupVersionKind list"
  moNextProtos :: "string list option"
  moMetricsAddr :: string
  moSecureServing :: bool
  moMetricsFilter :: bool
  moMetricsCert :: "(string \<times> string \<times> string) option"
  moWebhookCert :: "(string \<times> string \<times> string) option"
  moProbeAddr :: string
  moLeaderElection :: bool
  moLeaderElectionID :: string
  moNamespaces :: "(string, unit) gomap option"

definition managerOptions :: "GroupVersionKind list \<Rightarrow> Settings \<Rightarrow> ManagerOptions" where
  "managerOptions sch se =
     \<lparr>moScheme = sch,
      moNextProtos = (if \<not> seEnableHTTP2 se then Some [''http/1.1''] else None),
      moMetricsAddr = seMetricsAddr se,
      moSecureServing = seSecureMetrics se,
      moMetricsFilter = seSecureMetrics se,
      moMetricsCert = (if fst (seMetricsCert se) \<noteq> [] then Some (seMetricsCert se) else None),
      moWebhookCert = (if fst (seWebhookCert se) \<noteq> [] then Some (seWebhookCert se) else None),
      moProbeAddr = seProbeAddr se,
      moLeaderElection = seLeaderElection se,
      moLeaderElectionID = ''7cd7701f.netztronaut.de'',
      moNamespaces = setupCacheNamespaces (seWatchNamespace se)\<rparr>"

subsection \<open>Lemmas\<close>

lemma gm_bool_explicitFlags [simp]: "gm_bool (explicitFlags fs) f \<longleftrightarrow> f \<in> set fs"
proof -
  have "gm_bool (fold (\<lambda>name m. gm_set m name True) fs m) f \<longleftrightarrow> f \<in> set fs \<or> gm_bool m f" for m
    by (induction fs arbitrary: m) (auto simp: gm_bool_def)
  then show ?thesis by (simp add: explicitFlags_def gm_bool_def)
qed

lemma splitCommaFlag_filter:
  "splitCommaFlag s = filter (\<lambda>v. v \<noteq> []) (map TrimSpace (Split s CHR '',''))"
proof -
  have "fold (\<lambda>part result. let v = TrimSpace part in if v \<noteq> [] then result @ [v] else result) ps acc =
      acc @ filter (\<lambda>v. v \<noteq> []) (map TrimSpace ps)" for ps acc
    by (induction ps arbitrary: acc) (simp_all add: Let_def)
  then show ?thesis by (simp add: splitCommaFlag_def)
qed

lemma Split_snoc_sep: "Split (s @ [c]) c = Split s c @ [[]]"
proof (induction s)
  case (Cons a s)
  then show ?case by (cases "Split s c") auto
qed simp

lemma fold_gm_set_keys:
  "gm_wf m \<Longrightarrow> gm_wf (fold (\<lambda>x m. gm_set m (f x) v) xs m) \<and>
     set (gm_keys (fold (\<lambda>x m. gm_set m (f x) v) xs m)) = f ` set xs \<union> set (gm_keys m)"
  by (induction xs arbitrary: m) (auto simp: set_gm_keys)

lemma webOptions_enabled [simp]: "aoEnabled (opAuth (webOptions config en inst lgs sls)) = en"
  by (simp add: webOptions_def Let_def)

lemma resolveSettings_enabled:
  assumes "resolveSettings config cl = Inr se"
  shows "aoEnabled (opAuth (seWeb se)) =
    resolveBoolFlag config (explicitFlags (clGiven cl)) ''enable-auth'' ''auth.enabled'' (clEnableAuth cl)"
  using assms by (auto simp: resolveSettings_def Let_def split: sum.splits)

subsection \<open>A concrete instance\<close>

definition emptyViper :: viper where
  "emptyViper =
     \<lparr>vpIsSet = (\<lambda>_. False), vpGetString = (\<lambda>_. []), vpGetBool = (\<lambda>_. False),
      vpGetStringSlice = (\<lambda>_. []), vpLinkGroups = (\<lambda>_. Inr []), vpStaticLinks = (\<lambda>_. Inr [])\<rparr>"

subsection \<open>Properties\<close>

text \<open>
  Precedence and the default of authentication. Whether requests need to authenticate is decided by
  the command line if the flag is given, else by the configuration (file or environment) if it sets
  the key, else by the flag's default; a start without arguments and without configuration has
  authentication on.
\<close>

theorem resolveSettings_auth:
  assumes "resolveSettings config cl = Inr se"
  shows "aoEnabled (opAuth (seWeb se)) =
      (if ''enable-auth'' \<in> set (clGiven cl) \<or> \<not> vpIsSet config ''auth.enabled'' then clEnableAuth cl
       else vpGetBool config ''auth.enabled'') \<and>
    (cl = flagDefaults \<and> \<not> vpIsSet config ''auth.enabled'' \<longrightarrow> aoEnabled (opAuth (seWeb se)))"
  unfolding resolveSettings_enabled [OF assms]
  by (simp add: resolveBoolFlag_def flagDefaults_def)

theorem resolveSettings_auth_witness:
  "\<exists>se. resolveSettings emptyViper flagDefaults = Inr se \<and> aoEnabled (opAuth (seWeb se))"
proof -
  obtain se where "resolveSettings emptyViper flagDefaults = Inr se"
    by (simp add: resolveSettings_def appendedSetting_def emptyViper_def Let_def)
  with resolveSettings_auth [OF this] show ?thesis by (auto simp: emptyViper_def)
qed

text \<open>
  The list of a comma-separated flag. Joining names that are not blank, carry no surrounding white
  space and no comma, and splitting the flag again gives the names; and for any flag the result has
  only such names.
\<close>

theorem splitCommaFlag_roundtrip:
  assumes "\<forall>v \<in> set names. v \<noteq> [] \<and> TrimSpace v = v \<and> CHR '','' \<notin> set v"
  shows "splitCommaFlag (join_with CHR '','' names) = names"
proof (cases "names = []")
  case True
  then show ?thesis by (simp add: splitCommaFlag_filter)
next
  case False
  then have "Split (join_with CHR '','' names) CHR '','' = names"
    using assms by (intro Split_join) auto
  moreover have "map TrimSpace names = names" using assms by (simp add: map_idI)
  ultimately show ?thesis using assms by (simp add: splitCommaFlag_filter)
qed

theorem splitCommaFlag_roundtrip_witness:
  "splitCommaFlag (join_with CHR '','' [''https://a'', ''https://b'']) = [''https://a'', ''https://b'']"
proof (rule splitCommaFlag_roundtrip)
  show "\<forall>v \<in> set [''https://a'', ''https://b'']. v \<noteq> [] \<and> TrimSpace v = v \<and> CHR '','' \<notin> set v"
    by code_simp
qed

text \<open>
  C39: the watched namespaces. Without a setting every namespace is watched; otherwise exactly the parts
  between the commas, without surrounding white space. A blank part, as after a trailing comma, is
  kept as the empty name, which stands for all namespaces.
\<close>

theorem setupCacheNamespaces_exact:
  "(setupCacheNamespaces ns = None \<longleftrightarrow> ns = []) \<and>
   (case setupCacheNamespaces ns of
      None \<Rightarrow> True
    | Some m \<Rightarrow> gm_wf m \<and> set (gm_keys m) = TrimSpace ` set (Split ns CHR '','')) \<and>
   (case setupCacheNamespaces (ns @ '','') of None \<Rightarrow> False | Some m \<Rightarrow> [] \<in> set (gm_keys m))"
proof -
  have keys: "gm_wf m \<and> set (gm_keys m) = TrimSpace ` set (Split s CHR '','')"
    if "setupCacheNamespaces s = Some m" for s m
    using that fold_gm_set_keys [of "[]" TrimSpace "()" "Split s CHR '',''"]
    by (auto simp: setupCacheNamespaces_def gm_wf_def gm_keys_def split: if_splits)
  have "[] \<in> set (Split (ns @ '','') CHR '','')" by (simp add: Split_snoc_sep)
  then have "[] \<in> TrimSpace ` set (Split (ns @ '','') CHR '','')" by (metis TrimSpace_Nil image_eqI)
  then have "case setupCacheNamespaces (ns @ '','') of None \<Rightarrow> False | Some m \<Rightarrow> [] \<in> set (gm_keys m)"
    using keys [of "ns @ '',''"] by (auto simp: setupCacheNamespaces_def)
  then show ?thesis
    using keys [of ns] by (auto simp: setupCacheNamespaces_def split: option.split)
qed

end
