(* ===== verification/Watches.thy ===== *)
theory Watches
  imports Dashboard
begin

text \<open>
  \<open>setupDashboardWatches\<close> of \<open>cmd/main.go\<close>: the kinds whose changes make the notifier tell the clients,
  and that they are the kinds the local dashboard is collected from.
\<close>

subsection \<open>Watches\<close>

text \<open>
  The closure \<open>resourceAvailable\<close>, and the objects for which an event handler that notifies is
  registered. \<open>watchFails\<close> says whether \<open>GetInformer\<close> or \<open>AddEventHandler\<close> fails for an object, in
  which case it is logged and left out.
\<close>

definition watchable :: "Discovery \<Rightarrow> GroupVersion \<Rightarrow> string \<Rightarrow> bool" where
  "watchable dc groupVersion kind =
     (case dc groupVersion of Inl _ \<Rightarrow> False | Inr kinds \<Rightarrow> List.member kinds kind)"

text \<open>
  What is given to \<open>addWatch\<close>: a value of a Go type, whose kind the scheme has to know, or an unstructured object
  with its kind set.
\<close>

datatype watchObject = TypedObject (objKind: GroupVersionKind) | UnstructuredObject (objKind: GroupVersionKind)

definition gvk :: "GroupVersion \<Rightarrow> string \<Rightarrow> GroupVersionKind" where
  "gvk gv kind = \<lparr>gvkGroup = gvGroup gv, gvkVersion = gvVersion gv, gvkKind = kind\<rparr>"

fun firstAvailable :: "Discovery \<Rightarrow> (GroupVersion \<times> string) list \<Rightarrow> watchObject list" where
  "firstAvailable dc [] = []"
| "firstAvailable dc ((gv, kind) # rest) =
     (if watchable dc gv kind then [UnstructuredObject (gvk gv kind)] else firstAvailable dc rest)"

definition whenWatchable ::
    "(GroupVersionKind \<Rightarrow> watchObject) \<Rightarrow> Discovery \<Rightarrow> GroupVersion \<Rightarrow> string \<Rightarrow> watchObject list" where
  "whenWatchable obj dc gv kind = (if watchable dc gv kind then [obj (gvk gv kind)] else [])"

definition gvOf :: "string \<Rightarrow> string \<Rightarrow> GroupVersion" where
  "gvOf g v = \<lparr>gvGroup = g, gvVersion = v\<rparr>"

text \<open>The calls of \<open>addWatch\<close>, and those of them that succeed\<close>

definition dashboardObjects :: "Discovery \<Rightarrow> watchObject list" where
  "dashboardObjects dc =
     [TypedObject (gvk (gvOf ''dashboard.netztronaut.de'' ''v1alpha1'') ''BookmarkGroup''),
      TypedObject (gvk (gvOf ''networking.k8s.io'' ''v1'') ''Ingress''),
      TypedObject (gvk (gvOf [] ''v1'') ''Service'')] @
     whenWatchable TypedObject dc (gvOf ''forecastle.stakater.com'' ''v1alpha1'') ''ForecastleApp'' @
     whenWatchable UnstructuredObject dc (gvOf ''gateway.networking.k8s.io'' ''v1'') ''HTTPRoute'' @
     whenWatchable UnstructuredObject dc (gvOf ''gateway.networking.k8s.io'' ''v1'') ''GRPCRoute'' @
     whenWatchable UnstructuredObject dc (gvOf ''gateway.networking.k8s.io'' ''v1'') ''TLSRoute'' @
     whenWatchable UnstructuredObject dc (gvOf ''gateway.networking.k8s.io'' ''v1alpha2'') ''TCPRoute'' @
     firstAvailable dc
       [(gvOf ''traefik.io'' ''v1alpha1'', ''IngressRoute''),
        (gvOf ''traefik.containo.us'' ''v1alpha1'', ''IngressRoute'')] @
     whenWatchable UnstructuredObject dc (gvOf ''externaldns.k8s.io'' ''v1alpha1'') ''DNSEndpoint'' @
     [TypedObject (gvk (gvOf ''discovery.k8s.io'' ''v1'') ''EndpointSlice'')]"

definition setupDashboardWatches :: "(watchObject \<Rightarrow> bool) \<Rightarrow> Discovery \<Rightarrow> watchObject list" where
  "setupDashboardWatches watchFails dc = filter (\<lambda>obj. \<not> watchFails obj) (dashboardObjects dc)"

subsection \<open>Lemmas\<close>

text \<open>
  Two readers give the same answer to listing the watched kinds. Typed lists are named by the kind of
  their elements, unstructured ones by the kind with \<open>List\<close> appended.
\<close>

definition same_lists :: "watchObject list \<Rightarrow> Reader \<Rightarrow> Reader \<Rightarrow> bool" where
  "same_lists objs r r' \<longleftrightarrow>
     (TypedObject (gvk (gvOf ''dashboard.netztronaut.de'' ''v1alpha1'') ''BookmarkGroup'') \<in> set objs \<longrightarrow>
        rdListBookmarkGroups r = rdListBookmarkGroups r') \<and>
     (TypedObject (gvk (gvOf ''networking.k8s.io'' ''v1'') ''Ingress'') \<in> set objs \<longrightarrow>
        rdListIngresses r = rdListIngresses r') \<and>
     (TypedObject (gvk (gvOf [] ''v1'') ''Service'') \<in> set objs \<longrightarrow> rdListServices r = rdListServices r') \<and>
     (TypedObject (gvk (gvOf ''discovery.k8s.io'' ''v1'') ''EndpointSlice'') \<in> set objs \<longrightarrow>
        rdListEndpointSlices r = rdListEndpointSlices r') \<and>
     (TypedObject (gvk forecastleGV ''ForecastleApp'') \<in> set objs \<longrightarrow>
        rdListForecastleApps r = rdListForecastleApps r') \<and>
     (\<forall>gv kind. UnstructuredObject (gvk gv kind) \<in> set objs \<longrightarrow>
        rdListUnstructured r (gvk gv (kind @ ''List'')) = rdListUnstructured r' (gvk gv (kind @ ''List'')))"

lemma gvk_simps [simp]: "\<lparr>gvkGroup = g, gvkVersion = v, gvkKind = k\<rparr> = gvk (gvOf g v) k"
  by (simp add: gvk_def gvOf_def)

lemma gvk_eq: "gvk gv k = gvk gv' k' \<longleftrightarrow> gvGroup gv = gvGroup gv' \<and> gvVersion gv = gvVersion gv' \<and> k = k'"
  by (simp add: gvk_def del: gvk_simps)

lemma gvkKind_gvk [simp]: "gvkKind (gvk gv k) = k"
  by (simp add: gvk_def del: gvk_simps)

lemma gvk_with_kind [simp]: "(gvk gv k)\<lparr>gvkKind := k'\<rparr> = gvk gv k'"
  by (simp add: gvk_def del: gvk_simps)

lemma whenWatchable_kind:
  "x \<in> set (whenWatchable obj dc gv kind) \<Longrightarrow> (\<And>k. objKind (obj k) = k) \<Longrightarrow> gvkKind (objKind x) = kind"
  by (auto simp: whenWatchable_def split: if_splits)

lemma firstAvailable_kind: "x \<in> set (firstAvailable dc gvs) \<Longrightarrow> gvkKind (objKind x) \<in> snd ` set gvs"
  by (induction dc gvs rule: firstAvailable.induct) (auto split: if_splits)

lemma watched_kinds:
  assumes "x \<in> set (setupDashboardWatches fails dc)"
  shows "gvkKind (objKind x) \<in> set [''BookmarkGroup'', ''Ingress'', ''Service'', ''ForecastleApp'', ''HTTPRoute'',
    ''GRPCRoute'', ''TLSRoute'', ''TCPRoute'', ''IngressRoute'', ''DNSEndpoint'', ''EndpointSlice'']"
  using assms unfolding setupDashboardWatches_def dashboardObjects_def set_filter set_append mem_Collect_eq Un_iff
  by (elim conjE disjE) (auto dest!: whenWatchable_kind firstAvailable_kind split: if_splits)

text \<open>A collector sees of a reader only the lists it asks for.\<close>

lemmas collector_defs =
  collectBookmarkGroups_def collectIngresses_def collectHTTPRoutes_def collectGRPCRoutes_def
  collectTLSRoutes_def collectTCPRoutes_def collectIngressRoutes_def collectServices_def
  collectEndpointSlices_def collectDNSEndpoints_def collectInfoTiles_def collectForecastleApps_def

definition same_gets :: "Reader \<Rightarrow> Reader \<Rightarrow> bool" where
  "same_gets r r' \<longleftrightarrow>
     rdGetIngress r = rdGetIngress r' \<and> rdGetService r = rdGetService r' \<and>
     rdGetUnstructured r = rdGetUnstructured r' \<and> rdIgnoreNotFound r = rdIgnoreNotFound r'"

lemma resolveTraefikGVs_cong:
  "rdGetUnstructured r = rdGetUnstructured r' \<Longrightarrow>
     resolveTraefikGVs r ns name gvs = resolveTraefikGVs r' ns name gvs"
  by (induction gvs) (simp_all split: sum.split)

lemma ResolveURLFromSource_cong:
  assumes "same_gets r r'"
  shows "ResolveURLFromSource r ns src = ResolveURLFromSource r' ns src"
proof -
  have eqs: "resolveIngressURL r = resolveIngressURL r'" "resolveHTTPRouteURL r = resolveHTTPRouteURL r'"
    "resolveGRPCRouteURL r = resolveGRPCRouteURL r'" "resolveServiceURL r = resolveServiceURL r'"
    "resolveOpenShiftRouteURL r = resolveOpenShiftRouteURL r'"
    "resolveTraefikIngressRouteURL r = resolveTraefikIngressRouteURL r'"
    using assms resolveTraefikGVs_cong [of r r']
    by (simp_all add: fun_eq_iff resolve_defs same_gets_def del: resolveTraefikGVs.simps)
  show ?thesis unfolding ResolveURLFromSource_def eqs ..
qed

lemma forecastle_cong:
  assumes "same_gets r r'"
  shows "collectForecastleItems U ch r inst items s = collectForecastleItems U ch r' inst items s"
proof -
  have u: "forecastleURL r = forecastleURL r'"
    using ResolveURLFromSource_cong [OF assms] by (simp add: fun_eq_iff forecastleURL_def Let_def split: option.split)
  then have "forecastleLink r = forecastleLink r'" by (simp add: fun_eq_iff forecastleLink_def)
  with u show ?thesis by (induction items arbitrary: s) (simp_all add: Let_def)
qed

lemma gatewayGV_gvOf: "gatewayGV v = gvOf ''gateway.networking.k8s.io'' v"
  by (simp add: gatewayGV_def gvOf_def)

lemma whenAvailable_cong:
  "(resourceAvailable d gv kind \<Longrightarrow> f = g) \<Longrightarrow> whenAvailable d gv kind f = whenAvailable d gv kind g"
  by (auto simp: fun_eq_iff whenAvailable_def)

lemma resourceAvailable_watchable [simp]: "resourceAvailable (Some dc) gv kind = watchable dc gv kind"
  by (simp add: resourceAvailable_def watchable_def)

text \<open>Every step of the local collection that is taken reads a watched list.\<close>

lemma watched_when_available:
  "watchable dc forecastleGV ''ForecastleApp'' \<Longrightarrow>
     TypedObject (gvk forecastleGV ''ForecastleApp'') \<in> set (setupDashboardWatches (\<lambda>_. False) dc)"
  "kind \<in> {''HTTPRoute'', ''GRPCRoute'', ''TLSRoute''} \<Longrightarrow> watchable dc (gatewayGV ''v1'') kind \<Longrightarrow>
     UnstructuredObject (gvk (gatewayGV ''v1'') kind) \<in> set (setupDashboardWatches (\<lambda>_. False) dc)"
  "watchable dc (gatewayGV ''v1alpha2'') ''TCPRoute'' \<Longrightarrow>
     UnstructuredObject (gvk (gatewayGV ''v1alpha2'') ''TCPRoute'') \<in> set (setupDashboardWatches (\<lambda>_. False) dc)"
  "watchable dc (gvOf ''externaldns.k8s.io'' ''v1alpha1'') ''DNSEndpoint'' \<Longrightarrow>
     UnstructuredObject (gvk (gvOf ''externaldns.k8s.io'' ''v1alpha1'') ''DNSEndpoint'') \<in> set (setupDashboardWatches (\<lambda>_. False) dc)"
  "TypedObject (gvk (gvOf ''dashboard.netztronaut.de'' ''v1alpha1'') ''BookmarkGroup'') \<in> set (setupDashboardWatches (\<lambda>_. False) dc)"
  "TypedObject (gvk (gvOf ''networking.k8s.io'' ''v1'') ''Ingress'') \<in> set (setupDashboardWatches (\<lambda>_. False) dc)"
  "TypedObject (gvk (gvOf [] ''v1'') ''Service'') \<in> set (setupDashboardWatches (\<lambda>_. False) dc)"
  "TypedObject (gvk (gvOf ''discovery.k8s.io'' ''v1'') ''EndpointSlice'') \<in> set (setupDashboardWatches (\<lambda>_. False) dc)"
  by (auto simp: setupDashboardWatches_def dashboardObjects_def whenWatchable_def forecastleGV_def gatewayGV_def gvOf_def)

lemma collectTraefik_cong:
  assumes "\<And>gv. UnstructuredObject (gvk gv ''IngressRoute'') \<in> set (firstAvailable dc (map (\<lambda>gv. (gv, ''IngressRoute'')) gvs)) \<Longrightarrow>
      rdListUnstructured r (gvk gv ''IngressRouteList'') = rdListUnstructured r' (gvk gv ''IngressRouteList'')"
    and "rdIgnoreNotFound r = rdIgnoreNotFound r'"
  shows "collectTraefik (Some dc) r gvs s = collectTraefik (Some dc) r' gvs s"
  using assms
proof (induction gvs)
  case (Cons gv gvs)
  then show ?case
    by (auto simp: collectIngressRoutes_def gvk_def gvOf_def simp del: gvk_simps split: sum.split)
qed simp

lemma watched_traefik:
  "UnstructuredObject (gvk gv ''IngressRoute'') \<in> set (firstAvailable dc (map (\<lambda>gv. (gv, ''IngressRoute'')) traefikGVs)) \<Longrightarrow>
     UnstructuredObject (gvk gv ''IngressRoute'') \<in> set (setupDashboardWatches (\<lambda>_. False) dc)"
  by (simp add: setupDashboardWatches_def dashboardObjects_def traefikGVs_def gvOf_def)

lemma watched_routes:
  assumes lists: "same_lists (setupDashboardWatches (\<lambda>_. False) dc) r r'"
    and ign: "rdIgnoreNotFound r = rdIgnoreNotFound r'"
  shows "watchable dc (gatewayGV ''v1'') ''HTTPRoute'' \<Longrightarrow> collectHTTPRoutes r' = collectHTTPRoutes r"
    "watchable dc (gatewayGV ''v1'') ''GRPCRoute'' \<Longrightarrow> collectGRPCRoutes r' = collectGRPCRoutes r"
    "watchable dc (gatewayGV ''v1'') ''TLSRoute'' \<Longrightarrow> collectTLSRoutes r' = collectTLSRoutes r"
    "watchable dc (gatewayGV ''v1alpha2'') ''TCPRoute'' \<Longrightarrow> collectTCPRoutes r' = collectTCPRoutes r"
    "watchable dc (gvOf ''externaldns.k8s.io'' ''v1alpha1'') ''DNSEndpoint'' \<Longrightarrow>
       collectDNSEndpoints r' = collectDNSEndpoints r"
    "collectTraefik (Some dc) r' traefikGVs = collectTraefik (Some dc) r traefikGVs"
proof -
  have watched: "UnstructuredObject (gvk gv kind) \<in> set (setupDashboardWatches (\<lambda>_. False) dc) \<Longrightarrow>
      rdListUnstructured r (gvk gv (kind @ ''List'')) = rdListUnstructured r' (gvk gv (kind @ ''List''))" for gv kind
    using lists unfolding same_lists_def by blast
  show "watchable dc (gatewayGV ''v1'') ''HTTPRoute'' \<Longrightarrow> collectHTTPRoutes r' = collectHTTPRoutes r"
    "watchable dc (gatewayGV ''v1'') ''GRPCRoute'' \<Longrightarrow> collectGRPCRoutes r' = collectGRPCRoutes r"
    "watchable dc (gatewayGV ''v1'') ''TLSRoute'' \<Longrightarrow> collectTLSRoutes r' = collectTLSRoutes r"
    "watchable dc (gatewayGV ''v1alpha2'') ''TCPRoute'' \<Longrightarrow> collectTCPRoutes r' = collectTCPRoutes r"
    "watchable dc (gvOf ''externaldns.k8s.io'' ''v1alpha1'') ''DNSEndpoint'' \<Longrightarrow>
       collectDNSEndpoints r' = collectDNSEndpoints r"
    using watched [OF watched_when_available(2), of "''HTTPRoute''"]
      watched [OF watched_when_available(2), of "''GRPCRoute''"]
      watched [OF watched_when_available(2), of "''TLSRoute''"] watched [OF watched_when_available(3)]
      watched [OF watched_when_available(4)] ign
    by (simp_all add: fun_eq_iff collector_defs gatewayGV_gvOf split: sum.split)
  have traefik: "collectTraefik (Some dc) r traefikGVs s = collectTraefik (Some dc) r' traefikGVs s" for s
  proof (rule collectTraefik_cong [OF _ ign])
    fix gv
    assume "UnstructuredObject (gvk gv ''IngressRoute'') \<in> set (firstAvailable dc (map (\<lambda>gv. (gv, ''IngressRoute'')) traefikGVs))"
    from watched [OF watched_traefik [OF this]]
    show "rdListUnstructured r (gvk gv ''IngressRouteList'') = rdListUnstructured r' (gvk gv ''IngressRouteList'')"
      by simp
  qed
  then show "collectTraefik (Some dc) r' traefikGVs = collectTraefik (Some dc) r traefikGVs"
    by (simp add: fun_eq_iff)
qed

text \<open>The local dashboard depends on nothing but the watched lists, the bookmarks, the tiles and the references.\<close>

lemma collectLocal_watched:
  assumes "dcDiscovery c = Some dc"
    and "same_lists (setupDashboardWatches (\<lambda>_. False) dc) (dcReader c) r'"
    and "rdListBookmarks (dcReader c) = rdListBookmarks r'"
    and "collectInfoTiles r' = collectInfoTiles (dcReader c)"
    and "same_gets (dcReader c) r'"
  shows "collectLocal U ch (c\<lparr>dcReader := r'\<rparr>) = collectLocal U ch c"
proof -
  note ign = assms(5) [unfolded same_gets_def, THEN conjunct2, THEN conjunct2, THEN conjunct2]
  note routes = watched_routes [OF assms(2) ign]
  let ?r = "dcReader c"
  have steps: "collectBookmarkGroups r' = collectBookmarkGroups ?r"
    "collectServices r' = collectServices ?r" "collectEndpointSlices r' = collectEndpointSlices ?r"
    "collectIngresses r' = collectIngresses ?r"
    using assms(2,3) ign
    by (simp_all add: fun_eq_iff collector_defs same_lists_def watched_when_available Let_def split: sum.split)
  have apps: "watchable dc forecastleGV ''ForecastleApp'' \<Longrightarrow>
      collectForecastleApps U o' r' inst = collectForecastleApps U o' ?r inst" for o' inst
    using assms(2) ign forecastle_cong [OF assms(5)] watched_when_available(1)
    by (simp add: fun_eq_iff collectForecastleApps_def same_lists_def split: sum.split)
  have "localSteps U ch (c\<lparr>dcReader := r'\<rparr>) = localSteps U ch c"
    using steps assms(4) routes apps assms(1)
    by (simp add: localSteps_def Let_def) (intro conjI whenAvailable_cong; simp add: gvOf_def)
  then show ?thesis by (simp add: collectLocal_def initialState_def)
qed

text \<open>
  The watches cover what the dashboard shows. If every watch is registered, then two states of the
  cluster that agree on the lists of the watched kinds, on the bookmarks, on the info tiles and on
  the objects that references are resolved to give the same local dashboard: no other change can go
  unnoticed. Bookmarks and info tiles themselves are never watched.
\<close>

theorem setupDashboardWatches_cover:
  assumes "dcDiscovery c = Some dc"
    and "same_lists (setupDashboardWatches (\<lambda>_. False) dc) (dcReader c) r'"
    and "rdListBookmarks (dcReader c) = rdListBookmarks r'"
    and "rdListInfoTiles (dcReader c) = rdListInfoTiles r'"
    and "same_gets (dcReader c) r'"
  shows "collectLocal U ch (c\<lparr>dcReader := r'\<rparr>) = collectLocal U ch c \<and>
    {''Bookmark'', ''InfoTile''} \<inter> (gvkKind \<circ> objKind) ` set (setupDashboardWatches fails dc) = {}"
proof
  have "collectInfoTiles r' = collectInfoTiles (dcReader c)"
    using assms(4) by (simp add: fun_eq_iff collectInfoTiles_def)
  with assms show "collectLocal U ch (c\<lparr>dcReader := r'\<rparr>) = collectLocal U ch c"
    by (intro collectLocal_watched)
  show "{''Bookmark'', ''InfoTile''} \<inter> (gvkKind \<circ> objKind) ` set (setupDashboardWatches fails dc) = {}"
    by (auto dest!: watched_kinds)
qed

theorem setupDashboardWatches_cover_witness:
  "collectLocal demoUnicode demoOrder
     (demoCollector\<lparr>dcDiscovery := Some (\<lambda>_. Inr [''HTTPRoute'']),
        dcReader := demoReader\<lparr>rdListForecastleApps := Inl (External ''gone'')\<rparr>\<rparr>) =
   collectLocal demoUnicode demoOrder (demoCollector\<lparr>dcDiscovery := Some (\<lambda>_. Inr [''HTTPRoute''])\<rparr>)"
proof -
  let ?dc = "\<lambda>_. Inr [''HTTPRoute'']" and ?r' = "demoReader\<lparr>rdListForecastleApps := Inl (External ''gone'')\<rparr>"
  let ?c = "demoCollector\<lparr>dcDiscovery := Some ?dc\<rparr>"
  have r: "dcReader ?c = demoReader" by (simp add: demoCollector_def)
  have "TypedObject (gvk forecastleGV ''ForecastleApp'') \<notin> set (setupDashboardWatches (\<lambda>_. False) ?dc)"
    by (simp add: setupDashboardWatches_def dashboardObjects_def whenWatchable_def watchable_def gvk_eq)
  then have "same_lists (setupDashboardWatches (\<lambda>_. False) ?dc) (dcReader ?c) ?r'"
    unfolding r by (simp add: same_lists_def)
  moreover have "same_gets (dcReader ?c) ?r'" unfolding r by (simp add: same_gets_def)
  ultimately have "collectLocal demoUnicode demoOrder (?c\<lparr>dcReader := ?r'\<rparr>) =
      collectLocal demoUnicode demoOrder ?c"
    using setupDashboardWatches_cover [of ?c ?dc ?r' demoUnicode demoOrder "\<lambda>_. False"]
    by (simp add: r)
  then show ?thesis by simp
qed

end
