(* ===== verification/Startup.thy ===== *)
theory Startup
  imports Main_Config Watches
begin

text \<open>
  The part of \<open>cmd/main.go\<close> that makes and wires the parts of the program, up to running the manager: an exit with
  status 1 is \<open>Inl\<close> of the error that is logged. Also the scheme the manager works with
  (\<open>groupversion_info.go\<close> and the \<open>init\<close> functions of the API packages), and what the controllers and
  webhooks register themselves for.
\<close>

subsection \<open>The scheme\<close>

text \<open>
  A scheme as the kinds registered with it. A builder collects the kinds of one group version, the arguments of its
  \<open>Register\<close>; \<open>AddToScheme\<close> registers them. \<open>clientgo\<close> (\<open>mwClientGo\<close> below) are the kinds of \<open>clientgoscheme.AddToScheme\<close>.
\<close>

definition dashboardGroupVersion :: GroupVersion where
  "dashboardGroupVersion = gvOf ''dashboard.netztronaut.de'' ''v1alpha1''"

definition forecastleGroupVersion :: GroupVersion where
  "forecastleGroupVersion = gvOf ''forecastle.stakater.com'' ''v1alpha1''"

definition initBookmarkTypes :: "string list \<Rightarrow> string list" where
  "initBookmarkTypes builder =
     builder @ [''Bookmark'', ''BookmarkList''] @ [''BookmarkGroup'', ''BookmarkGroupList'']"

definition initInfoTileTypes :: "string list \<Rightarrow> string list" where
  "initInfoTileTypes builder = builder @ [''InfoTile'', ''InfoTileList'']"

definition initForecastleAppTypes :: "string list \<Rightarrow> string list" where
  "initForecastleAppTypes builder = builder @ [''ForecastleApp'', ''ForecastleAppList'']"

definition AddToScheme :: "GroupVersion \<Rightarrow> string list \<Rightarrow> GroupVersionKind list \<Rightarrow> GroupVersionKind list" where
  "AddToScheme gv builder sch = sch @ map (gvk gv) builder"

definition initScheme :: "GroupVersionKind list \<Rightarrow> GroupVersionKind list" where
  "initScheme clientgo =
     AddToScheme forecastleGroupVersion (initForecastleAppTypes [])
       (AddToScheme dashboardGroupVersion (initInfoTileTypes (initBookmarkTypes [])) clientgo)"

subsection \<open>Controllers and webhooks\<close>

text \<open>\<open>SetupWithManager\<close> of the reconcilers: the kind they reconcile and the name of the controller\<close>

record ControllerSetup =
  csFor :: GroupVersionKind
  csNamed :: string

definition SetupBookmarkGroup :: ControllerSetup where
  "SetupBookmarkGroup = \<lparr>csFor = gvk dashboardGroupVersion ''BookmarkGroup'', csNamed = ''dashboard-bookmarkgroup''\<rparr>"

definition SetupBookmark :: ControllerSetup where
  "SetupBookmark = \<lparr>csFor = gvk dashboardGroupVersion ''Bookmark'', csNamed = ''dashboard-bookmark''\<rparr>"

definition SetupInfoTile :: ControllerSetup where
  "SetupInfoTile = \<lparr>csFor = gvk dashboardGroupVersion ''InfoTile'', csNamed = ''dashboard-infotile''\<rparr>"

text \<open>The kinds the webhooks validate\<close>

definition SetupBookmarkGroupWebhook :: GroupVersionKind where
  "SetupBookmarkGroupWebhook = gvk dashboardGroupVersion ''BookmarkGroup''"

definition SetupBookmarkWebhook :: GroupVersionKind where
  "SetupBookmarkWebhook = gvk dashboardGroupVersion ''Bookmark''"

subsection \<open>Start\<close>

text \<open>
  The loop that waits for the identity provider: \<open>get n\<close> is the answer (status code) to the \<open>n\<close>-th
  request. The result, if the loop ends, is the number of failed requests before.
\<close>

partial_function (option) probeLoop :: "(nat \<Rightarrow> error + int) \<Rightarrow> nat \<Rightarrow> nat option" where
  "probeLoop get n =
     (case get n of
        Inr code \<Rightarrow> if code = 200 then Some n else probeLoop get (Suc n)
      | Inl _ \<Rightarrow> probeLoop get (Suc n))"

definition probeURL :: "string \<Rightarrow> string" where
  "probeURL issuerURL = TrimRight issuerURL CHR ''/'' @ ''/.well-known/openid-configuration''"

definition probeIssuer :: "(string \<Rightarrow> nat \<Rightarrow> error + int) \<Rightarrow> string \<Rightarrow> bool \<Rightarrow> nat option" where
  "probeIssuer get issuerURL skipOIDCProbe =
     (if issuerURL = [] \<or> skipOIDCProbe then Some 0 else probeLoop (get (probeURL issuerURL)) 0)"

datatype runnable =
    NotifierRunnable
  | SyncClientRunnable SyncClient
  | FleetRunnable Manager
  | WebServer string Server
  | SyncServer string dashboardCollector "TLSConfig option"

text \<open>\<open>NeedLeaderElection\<close> of the notifier, the sync client, the fleet manager and \<open>alwaysOnRunnable\<close>\<close>

fun NeedLeaderElection :: "runnable \<Rightarrow> bool" where
  "NeedLeaderElection NotifierRunnable = False"
| "NeedLeaderElection (SyncClientRunnable _) = False"
| "NeedLeaderElection (FleetRunnable _) = False"
| "NeedLeaderElection (WebServer _ _) = False"
| "NeedLeaderElection (SyncServer _ _ _) = False"

record Process =
  pcManager :: ManagerOptions
  pcRunnables :: "runnable list"
  pcWatches :: "watchObject list"
  pcControllers :: "ControllerSetup list"
  pcWebhooks :: "GroupVersionKind list"

text \<open>
  \<open>mwAdd\<close> is the error of \<open>mgr.Add\<close>, \<open>mwController\<close> and \<open>mwWebhook\<close> the error of registering the
  controller or webhook, \<open>mwProbe\<close> the answers to the probe of a URL, \<open>mwHealth\<close> the error of adding
  the named health check; the rest are the worlds of the parts.
\<close>

record MainWorld =
  mwClientGo :: "GroupVersionKind list"
  mwGetConfig :: "error + RestConfig"
  mwDefaultLoads :: bool
  mwKindContext :: "error + RestConfig"
  mwNewManager :: "RestConfig \<Rightarrow> ManagerOptions \<Rightarrow> error + Reader"
  mwNewDiscovery :: "RestConfig \<Rightarrow> error + Discovery"
  mwAdd :: "runnable \<Rightarrow> error option"
  mwWatchFails :: "watchObject \<Rightarrow> bool"
  mwSync :: SyncWorld
  mwProbe :: "string \<Rightarrow> nat \<Rightarrow> error + int"
  mwReadFile :: "string \<Rightarrow> error + string"
  mwPEM :: "string \<Rightarrow> bool"
  mwFiles :: filesystem
  mwEmbedded :: filesystem
  mwParse :: "string \<Rightarrow> string \<Rightarrow> error option"
  mwController :: "ControllerSetup \<Rightarrow> error option"
  mwWebhook :: "GroupVersionKind \<Rightarrow> error option"
  mwHealth :: "string \<Rightarrow> error option"

definition bindE :: "'e + 'a \<Rightarrow> ('a \<Rightarrow> 'e + 'b) \<Rightarrow> 'e + 'b" where
  "bindE m f = (case m of Inl e \<Rightarrow> Inl e | Inr x \<Rightarrow> f x)"

definition checked :: "'e option \<Rightarrow> 'a \<Rightarrow> 'e + 'a" where
  "checked err x = (case err of Some e \<Rightarrow> Inl e | None \<Rightarrow> Inr x)"

fun registerAll :: "('a \<Rightarrow> error option) \<Rightarrow> 'a list \<Rightarrow> error + 'a list" where
  "registerAll f [] = Inr []"
| "registerAll f (n # ns) =
     (case f n of Some e \<Rightarrow> Inl e | None \<Rightarrow> map_sum id (Cons n) (registerAll f ns))"

definition addHealthChecks :: "(string \<Rightarrow> error option) \<Rightarrow> error + string list" where
  "addHealthChecks add = registerAll add [''healthz'', ''readyz'']"

definition startSyncClient :: "MainWorld \<Rightarrow> SyncOptions \<Rightarrow> error + SyncClient option" where
  "startSyncClient w options =
     (if soURLs options \<noteq> [] \<or> soSRVRecords options \<noteq> [] then
        bindE (NewSyncClient (mwSync w) options)
          (\<lambda>client. checked (mwAdd w (SyncClientRunnable client)) (Some client))
      else Inr None)"

definition startFleet :: "MainWorld \<Rightarrow> Settings \<Rightarrow> error + Manager option" where
  "startFleet w se =
     (if seFleetClusters se \<noteq> [] then
        bindE (ParseClusterList (seFleetClusters se)) (\<lambda>fleetConfigs.
        bindE (LoadFleetCAPool (mwReadFile w) (mwPEM w) (seFleetTrustStore se)) (\<lambda>caPool.
          let m = NewManager fleetConfigs caPool (seFleetKubeconfig se) in
          checked (mwAdd w (FleetRunnable m)) (Some m)))
      else Inr None)"

definition startSyncServer :: "MainWorld \<Rightarrow> SyncOptions \<Rightarrow> Server \<Rightarrow> error + runnable option" where
  "startSyncServer w options server =
     (if TrimSpace (soBindAddress options) \<noteq> [] then
        bindE (BuildSyncServerTLSConfig (mwSync w) (soTLS options)) (\<lambda>tlsConfig.
          let s = SyncServer (soBindAddress options) (svCollector server) tlsConfig in
          checked (mwAdd w s) (Some s))
      else Inr None)"

definition optRunnable :: "('a \<Rightarrow> runnable) \<Rightarrow> 'a option \<Rightarrow> runnable list" where
  "optRunnable f x = (case x of Some y \<Rightarrow> [f y] | None \<Rightarrow> [])"

text \<open>From the fleet on: what follows the probe of the identity provider\<close>

definition startServing ::
    "MainWorld \<Rightarrow> Settings \<Rightarrow> Reader \<Rightarrow> Discovery \<Rightarrow> SyncClient option \<Rightarrow> error + Process" where
  "startServing w se mgrClient dc syncClient =
     bindE (startFleet w se) (\<lambda>fleetManager.
     bindE (NewHandler (mwFiles w) (mwEmbedded w) (mwParse w) mgrClient (Some dc) (seWeb se)
              NewDashboardNotifier syncClient fleetManager) (\<lambda>webHandler.
     bindE (checked (mwAdd w (WebServer (seWebAddr se) webHandler)) ()) (\<lambda>_.
     bindE (startSyncServer w (seSync se) webHandler) (\<lambda>syncServer.
     bindE (registerAll (mwController w) [SetupBookmarkGroup, SetupBookmark, SetupInfoTile]) (\<lambda>controllers.
     bindE (if seEnableWebhooks se
            then registerAll (mwWebhook w) [SetupBookmarkGroupWebhook, SetupBookmarkWebhook]
            else Inr []) (\<lambda>webhooks.
     bindE (addHealthChecks (mwHealth w)) (\<lambda>_.
     Inr
       \<lparr>pcManager = managerOptions (initScheme (mwClientGo w)) se,
        pcRunnables = [NotifierRunnable] @ optRunnable SyncClientRunnable syncClient @
          optRunnable FleetRunnable fleetManager @ [WebServer (seWebAddr se) webHandler] @
          optRunnable id syncServer,
        pcWatches = setupDashboardWatches (mwWatchFails w) dc,
        pcControllers = controllers,
        pcWebhooks = webhooks\<rparr>)))))))"

text \<open>\<open>None\<close>: \<open>main\<close> waits for the identity provider forever\<close>

definition startup :: "MainWorld \<Rightarrow> error + viper \<Rightarrow> CommandLine \<Rightarrow> (error + Process) option" where
  "startup w loaded cl =
     (case bindE loaded (\<lambda>config.
             bindE (resolveSettings config cl) (\<lambda>se.
             bindE (setupRuntimeConfig (mwGetConfig w) (mwDefaultLoads w) (mwKindContext w) (seLocalTesting se)) (\<lambda>cfg.
             bindE (mwNewManager w cfg (managerOptions (initScheme (mwClientGo w)) se)) (\<lambda>mgrClient.
             bindE (mwNewDiscovery w cfg) (\<lambda>dc.
             bindE (checked (mwAdd w NotifierRunnable) ()) (\<lambda>_.
             bindE (startSyncClient w (seSync se)) (\<lambda>syncClient.
             Inr (se, mgrClient, dc, syncClient)))))))) of
        Inl e \<Rightarrow> Some (Inl e)
      | Inr (se, mgrClient, dc, syncClient) \<Rightarrow>
          (case probeIssuer (mwProbe w) (aoIssuerURL (opAuth (seWeb se))) (seSkipOIDCProbe se) of
             None \<Rightarrow> None
           | Some _ \<Rightarrow> Some (startServing w se mgrClient dc syncClient)))"

subsection \<open>Lemmas\<close>

lemma bindE_Inr [simp]: "bindE m f = Inr y \<longleftrightarrow> (\<exists>x. m = Inr x \<and> f x = Inr y)"
  by (cases m) (simp_all add: bindE_def)

lemma checked_Inr [simp]: "checked err x = Inr y \<longleftrightarrow> err = None \<and> y = x"
  by (auto simp: checked_def split: option.split)

lemma probeLoop_reached:
  assumes "get (n + k) = Inr 200" and "\<And>i. i < k \<Longrightarrow> get (n + i) \<noteq> Inr 200"
  shows "probeLoop get n = Some (n + k)"
  using assms
proof (induction k arbitrary: n)
  case 0
  then show ?case by (simp add: probeLoop.simps)
next
  case (Suc k)
  from Suc.prems(2) [of 0] have "get n \<noteq> Inr 200" by simp
  moreover have "probeLoop get (Suc n) = Some (Suc n + k)"
  proof (rule Suc.IH)
    show "get (Suc n + k) = Inr 200" using Suc.prems(1) by simp
    show "get (Suc n + i) \<noteq> Inr 200" if "i < k" for i using Suc.prems(2) [of "Suc i"] that by simp
  qed
  ultimately show ?case by (auto simp: probeLoop.simps [of get n] split: sum.split)
qed

lemma probeLoop_ends_at:
  "probeLoop get n = Some m \<Longrightarrow> n \<le> m \<and> get m = Inr 200 \<and> (\<forall>i. n \<le> i \<and> i < m \<longrightarrow> get i \<noteq> Inr 200)"
proof (rule probeLoop.raw_induct [of "\<lambda>get n m. n \<le> m \<and> get m = Inr 200 \<and>
    (\<forall>i. n \<le> i \<and> i < m \<longrightarrow> get i \<noteq> Inr 200)"])
  fix loop and get :: "nat \<Rightarrow> error + int" and n m
  assume IH: "\<And>(get :: nat \<Rightarrow> error + int) n m. loop get n = Some m \<Longrightarrow>
      n \<le> m \<and> get m = Inr 200 \<and> (\<forall>i. n \<le> i \<and> i < m \<longrightarrow> get i \<noteq> Inr 200)"
    and body: "(case get n of Inr code \<Rightarrow> if code = 200 then Some n else loop get (Suc n)
       | Inl _ \<Rightarrow> loop get (Suc n)) = Some m"
  show "n \<le> m \<and> get m = Inr 200 \<and> (\<forall>i. n \<le> i \<and> i < m \<longrightarrow> get i \<noteq> Inr 200)"
  proof (cases "get n = Inr 200")
    case True
    with body show ?thesis by auto
  next
    case False
    with body have "loop get (Suc n) = Some m" by (simp split: sum.splits if_splits)
    from IH [OF this] have IH': "Suc n \<le> m" "get m = Inr 200"
      "\<And>i. Suc n \<le> i \<Longrightarrow> i < m \<Longrightarrow> get i \<noteq> Inr 200" by auto
    have "get i \<noteq> Inr 200" if "n \<le> i" "i < m" for i
      using False IH'(3) [of i] that by (cases "i = n") auto
    with IH'(1,2) show ?thesis by simp
  qed
qed

lemma probeLoop_iff:
  "probeLoop get n = Some m \<longleftrightarrow> n \<le> m \<and> get m = Inr 200 \<and> (\<forall>i. n \<le> i \<and> i < m \<longrightarrow> get i \<noteq> Inr 200)"
proof
  assume R: "n \<le> m \<and> get m = Inr 200 \<and> (\<forall>i. n \<le> i \<and> i < m \<longrightarrow> get i \<noteq> Inr 200)"
  then have "probeLoop get n = Some (n + (m - n))" by (intro probeLoop_reached) auto
  with R show "probeLoop get n = Some m" by simp
qed (rule probeLoop_ends_at)

lemma probeLoop_terminates: "(\<exists>m. probeLoop get 0 = Some m) \<longleftrightarrow> (\<exists>m. get m = Inr 200)"
proof
  assume "\<exists>m. get m = Inr 200"
  then have "get (LEAST m. get m = Inr 200) = Inr 200" by (rule LeastI_ex)
  moreover have "get i \<noteq> Inr 200" if "i < (LEAST m. get m = Inr 200)" for i
    using not_less_Least [OF that] .
  ultimately show "\<exists>m. probeLoop get 0 = Some m" unfolding probeLoop_iff by blast
next
  assume "\<exists>m. probeLoop get 0 = Some m"
  then show "\<exists>m. get m = Inr 200" unfolding probeLoop_iff by blast
qed

text \<open>What a successful \<open>startServing\<close> made\<close>

lemma registerAll_Inr: "registerAll f xs = Inr ys \<Longrightarrow> ys = xs"
proof (induction xs arbitrary: ys)
  case (Cons x xs)
  then show ?case by (cases "registerAll f xs") (auto split: option.splits)
qed simp

lemma startServing_elim:
  assumes "startServing w se mgrClient dc syncClient = Inr p"
  obtains fm server ss where
    "startFleet w se = Inr fm"
    "NewHandler (mwFiles w) (mwEmbedded w) (mwParse w) mgrClient (Some dc) (seWeb se)
       NewDashboardNotifier syncClient fm = Inr server"
    "startSyncServer w (seSync se) server = Inr ss"
    "pcRunnables p = [NotifierRunnable] @ optRunnable SyncClientRunnable syncClient @
       optRunnable FleetRunnable fm @ [WebServer (seWebAddr se) server] @ optRunnable id ss"
    "pcWatches p = setupDashboardWatches (mwWatchFails w) dc"
    "pcManager p = managerOptions (initScheme (mwClientGo w)) se"
    "pcControllers p = [SetupBookmarkGroup, SetupBookmark, SetupInfoTile]"
    "pcWebhooks p = (if seEnableWebhooks se then [SetupBookmarkGroupWebhook, SetupBookmarkWebhook] else [])"
  using assms by (auto simp: startServing_def simp del: registerAll.simps dest!: registerAll_Inr split: if_splits)

lemma startSyncServer_Some:
  "startSyncServer w options server = Inr (Some r) \<Longrightarrow>
     \<exists>tls. r = SyncServer (soBindAddress options) (svCollector server) tls \<and>
       BuildSyncServerTLSConfig (mwSync w) (soTLS options) = Inr tls"
  by (auto simp: startSyncServer_def Let_def split: if_splits)

lemma set_optRunnable: "r \<in> set (optRunnable f x) \<longleftrightarrow> (\<exists>y. x = Some y \<and> r = f y)"
  by (cases x) (auto simp: optRunnable_def)

lemma NewHandler_server:
  "NewHandler fsys efs parse k8sClient discovery options nf syncClient fm = Inr server \<Longrightarrow>
     svAuth server = newAuthService (opAuth options) \<and>
     svCollector server = newDashboardCollector k8sClient discovery options syncClient fm"
  by (auto simp: NewHandler_def split: sum.splits)

lemma startup_elim:
  assumes "startup w loaded cl = Some (Inr p)"
  obtains config se mgrClient dc syncClient where
    "loaded = Inr config" "resolveSettings config cl = Inr se"
    "startSyncClient w (seSync se) = Inr syncClient"
    "startServing w se mgrClient dc syncClient = Inr p"
proof -
  from assms obtain se mgrClient dc syncClient config where
    "loaded = Inr config" "resolveSettings config cl = Inr se"
    "startSyncClient w (seSync se) = Inr syncClient"
    "startServing w se mgrClient dc syncClient = Inr p"
    unfolding startup_def by (auto split: sum.splits option.splits)
  then show ?thesis by (rule that)
qed

subsection \<open>A concrete instance\<close>

definition exampleArguments :: CommandLine where
  "exampleArguments = flagDefaults\<lparr>clSyncURLs := ''https://a'', clSyncTLS := exampleTLS,
     clGiven := [''sync-urls'', ''sync-tls-ca'', ''sync-tls-cert'', ''sync-tls-key'']\<rparr>"

definition exampleMain :: MainWorld where
  "exampleMain =
     \<lparr>mwClientGo = [gvk (gvOf ''networking.k8s.io'' ''v1'') ''Ingress'', gvk (gvOf [] ''v1'') ''Service'',
        gvk (gvOf ''discovery.k8s.io'' ''v1'') ''EndpointSlice''],
      mwGetConfig = Inr \<lparr>rcHost = ''https://api'', rcBearerToken = [], rcTLS = emptyTLSClientConfig, rcTransport = None\<rparr>,
      mwDefaultLoads = False, mwKindContext = Inl (External ''none''),
      mwNewManager = (\<lambda>_ _. Inr demoReader), mwNewDiscovery = (\<lambda>_. Inr (\<lambda>_. Inr [])),
      mwAdd = (\<lambda>_. None), mwWatchFails = (\<lambda>_. False), mwSync = exampleWorld,
      mwProbe = (\<lambda>_ n. if n = 2 then Inr 200 else Inl (External ''refused'')),
      mwReadFile = (\<lambda>p. Inr p), mwPEM = (\<lambda>_. True), mwFiles = exampleFS ''none/'',
      mwEmbedded = exampleFS ''templates/default/'', mwParse = (\<lambda>_ _. None), mwController = (\<lambda>_. None),
      mwWebhook = (\<lambda>_. None), mwHealth = (\<lambda>_. None)\<rparr>"

lemma exampleArguments_settings:
  "case resolveSettings emptyViper exampleArguments of
     Inl e \<Rightarrow> False | Inr se \<Rightarrow> seWebAddr se = '':8082'' \<and> aoEnabled (opAuth (seWeb se))"
  by code_simp

lemma exampleMain_starts:
  "case startup exampleMain (Inr emptyViper) exampleArguments of
     Some (Inr p) \<Rightarrow> list_ex (\<lambda>r. case r of SyncClientRunnable _ \<Rightarrow> True | _ \<Rightarrow> False) (pcRunnables p)
   | _ \<Rightarrow> False"
  by code_simp

subsection \<open>Properties\<close>

text \<open>
  C10: how the parts are wired. After a successful start there is exactly one web server; it demands
  authentication as configured; the sync client and the fleet manager its dashboard reads from are
  exactly the ones started with it; a sync endpoint, if there is one, serves the same dashboard with
  the TLS configuration built from the settings, and with a CA, certificate and key set it demands
  and verifies client certificates.
\<close>

theorem startup_wiring:
  assumes "startup w loaded cl = Some (Inr p)"
  shows "\<exists>config se server. loaded = Inr config \<and> resolveSettings config cl = Inr se \<and>
    (\<forall>a s. WebServer a s \<in> set (pcRunnables p) \<longleftrightarrow> a = seWebAddr se \<and> s = server) \<and>
    asEnabled (svAuth server) = aoEnabled (opAuth (seWeb se)) \<and>
    (\<forall>c. SyncClientRunnable c \<in> set (pcRunnables p) \<longleftrightarrow> dcSyncClient (svCollector server) = Some c) \<and>
    (\<forall>m. FleetRunnable m \<in> set (pcRunnables p) \<longleftrightarrow> dcForeignClusters (svCollector server) = Some m) \<and>
    (\<forall>a c t. SyncServer a c t \<in> set (pcRunnables p) \<longrightarrow>
       c = svCollector server \<and> BuildSyncServerTLSConfig (mwSync w) (soTLS (seSync se)) = Inr t \<and>
       (stCA (soTLS (seSync se)) \<noteq> [] \<and> stCert (soTLS (seSync se)) \<noteq> [] \<and> stKey (soTLS (seSync se)) \<noteq> [] \<longrightarrow>
          (\<exists>cfg. t = Some cfg \<and> tcClientAuth cfg = RequireAndVerifyClientCert)))"
proof -
  from assms obtain config se mgrClient dc sc where
    1: "loaded = Inr config" "resolveSettings config cl = Inr se"
      "startServing w se mgrClient dc sc = Inr p"
    by (rule startup_elim)
  from 1(3) obtain fm server ss where
    2: "NewHandler (mwFiles w) (mwEmbedded w) (mwParse w) mgrClient (Some dc) (seWeb se)
          NewDashboardNotifier sc fm = Inr server"
      "startSyncServer w (seSync se) server = Inr ss"
      "pcRunnables p = [NotifierRunnable] @ optRunnable SyncClientRunnable sc @
         optRunnable FleetRunnable fm @ [WebServer (seWebAddr se) server] @ optRunnable id ss"
    by (rule startServing_elim)
  note server = NewHandler_server [OF 2(1)]
  have ss: "\<exists>tls. r = SyncServer (soBindAddress (seSync se)) (svCollector server) tls \<and>
       BuildSyncServerTLSConfig (mwSync w) (soTLS (seSync se)) = Inr tls" if "ss = Some r" for r
    using startSyncServer_Some 2(2) that by simp
  have tls: "\<exists>cfg. t = Some cfg \<and> tcClientAuth cfg = RequireAndVerifyClientCert"
    if "BuildSyncServerTLSConfig (mwSync w) o' = Inr t" "stCA o' \<noteq> []" "stCert o' \<noteq> []" "stKey o' \<noteq> []" for t o'
    using that by (auto simp: BuildSyncServerTLSConfig_def Let_def split: sum.splits)
  have "\<forall>a s. WebServer a s \<in> set (pcRunnables p) \<longleftrightarrow> a = seWebAddr se \<and> s = server"
    using ss by (auto simp: 2(3) set_optRunnable)
  moreover have "asEnabled (svAuth server) = aoEnabled (opAuth (seWeb se))"
    by (simp add: server newAuthService_def Let_def)
  moreover have "\<forall>c. SyncClientRunnable c \<in> set (pcRunnables p) \<longleftrightarrow>
      dcSyncClient (svCollector server) = Some c"
    using ss by (auto simp: 2(3) set_optRunnable server newDashboardCollector_def)
  moreover have "\<forall>m. FleetRunnable m \<in> set (pcRunnables p) \<longleftrightarrow>
      dcForeignClusters (svCollector server) = Some m"
    using ss by (auto simp: 2(3) set_optRunnable server newDashboardCollector_def)
  moreover have "\<forall>a c t. SyncServer a c t \<in> set (pcRunnables p) \<longrightarrow>
      c = svCollector server \<and> BuildSyncServerTLSConfig (mwSync w) (soTLS (seSync se)) = Inr t \<and>
      (stCA (soTLS (seSync se)) \<noteq> [] \<and> stCert (soTLS (seSync se)) \<noteq> [] \<and> stKey (soTLS (seSync se)) \<noteq> [] \<longrightarrow>
         (\<exists>cfg. t = Some cfg \<and> tcClientAuth cfg = RequireAndVerifyClientCert))"
    using ss tls by (auto simp: 2(3) set_optRunnable)
  ultimately show ?thesis using 1(1,2) by (intro exI [of _ config] exI [of _ se] exI [of _ server] conjI)
qed

theorem startup_wiring_witness:
  "\<exists>p server. startup exampleMain (Inr emptyViper) exampleArguments = Some (Inr p) \<and>
     (\<forall>a s. WebServer a s \<in> set (pcRunnables p) \<longleftrightarrow> a = '':8082'' \<and> s = server) \<and>
     asEnabled (svAuth server) \<and> (\<exists>c. dcSyncClient (svCollector server) = Some c)"
proof -
  obtain p where p: "startup exampleMain (Inr emptyViper) exampleArguments = Some (Inr p)"
    and "list_ex (\<lambda>r. case r of SyncClientRunnable _ \<Rightarrow> True | _ \<Rightarrow> False) (pcRunnables p)"
    using exampleMain_starts by (auto split: option.splits sum.splits)
  then obtain r where r: "r \<in> set (pcRunnables p)" "case r of SyncClientRunnable _ \<Rightarrow> True | _ \<Rightarrow> False"
    by (auto simp: list_ex_iff)
  then have c: "\<exists>c. SyncClientRunnable c \<in> set (pcRunnables p)" by (cases r rule: runnable.exhaust) auto
  from startup_wiring [OF p] obtain se server where
    se: "resolveSettings emptyViper exampleArguments = Inr se" and
    server: "\<forall>a s. WebServer a s \<in> set (pcRunnables p) \<longleftrightarrow> a = seWebAddr se \<and> s = server"
      "asEnabled (svAuth server) = aoEnabled (opAuth (seWeb se))"
      "\<forall>c. SyncClientRunnable c \<in> set (pcRunnables p) \<longleftrightarrow> dcSyncClient (svCollector server) = Some c"
    by blast
  have *: "seWebAddr se = '':8082''" "aoEnabled (opAuth (seWeb se))"
    using exampleArguments_settings se by simp_all
  have "\<exists>c. dcSyncClient (svCollector server) = Some c" using c server(3) by blast
  with server(1,2) * p show ?thesis by (intro exI [of _ p] exI [of _ server]) simp
qed

text \<open>
  What is registered. After a successful start the three controllers have different names; the webhooks are
  there exactly if they are enabled; every kind that is reconciled or validated, with the list of it, is
  registered in the scheme the manager was given; and so is the kind of every typed object for which a watch
  is set up, provided the scheme of client-go has the three built-in kinds.
\<close>

theorem startup_registers:
  assumes "startup w loaded cl = Some (Inr p)"
    and "{gvk (gvOf ''networking.k8s.io'' ''v1'') ''Ingress'', gvk (gvOf [] ''v1'') ''Service'',
      gvk (gvOf ''discovery.k8s.io'' ''v1'') ''EndpointSlice''} \<subseteq> set (mwClientGo w)"
  shows "distinct (map csNamed (pcControllers p)) \<and>
    (\<exists>config se. loaded = Inr config \<and> resolveSettings config cl = Inr se \<and>
       (pcWebhooks p \<noteq> [] \<longleftrightarrow> seEnableWebhooks se)) \<and>
    (\<forall>k \<in> csFor ` set (pcControllers p) \<union> set (pcWebhooks p).
       k \<in> set (moScheme (pcManager p)) \<and> k\<lparr>gvkKind := gvkKind k @ ''List''\<rparr> \<in> set (moScheme (pcManager p))) \<and>
    (\<forall>k. TypedObject k \<in> set (pcWatches p) \<longrightarrow> k \<in> set (moScheme (pcManager p)))"
proof -
  from assms(1) obtain config se mgrClient dc sc where
    1: "loaded = Inr config" "resolveSettings config cl = Inr se" "startServing w se mgrClient dc sc = Inr p"
    by (rule startup_elim)
  from 1(3) have p: "pcControllers p = [SetupBookmarkGroup, SetupBookmark, SetupInfoTile]"
    "pcWebhooks p = (if seEnableWebhooks se then [SetupBookmarkGroupWebhook, SetupBookmarkWebhook] else [])"
    "pcWatches p = setupDashboardWatches (mwWatchFails w) dc" "moScheme (pcManager p) = initScheme (mwClientGo w)"
    by (rule startServing_elim; simp add: managerOptions_def)+
  note setups = SetupBookmarkGroup_def SetupBookmark_def SetupInfoTile_def SetupBookmarkGroupWebhook_def
    SetupBookmarkWebhook_def
  note sch = initScheme_def AddToScheme_def initForecastleAppTypes_def initInfoTileTypes_def initBookmarkTypes_def
    dashboardGroupVersion_def forecastleGroupVersion_def
  have "distinct (map csNamed (pcControllers p))" by (simp add: p(1) setups)
  moreover have "pcWebhooks p \<noteq> [] \<longleftrightarrow> seEnableWebhooks se" by (simp add: p(2))
  moreover have "\<forall>k \<in> csFor ` set (pcControllers p) \<union> set (pcWebhooks p).
      k \<in> set (moScheme (pcManager p)) \<and> k\<lparr>gvkKind := gvkKind k @ ''List''\<rparr> \<in> set (moScheme (pcManager p))"
    by (auto simp: p setups sch)
  moreover have "k \<in> set (moScheme (pcManager p))" if "TypedObject k \<in> set (pcWatches p)" for k
    using that assms(2)
    unfolding p(3,4) setupDashboardWatches_def dashboardObjects_def set_filter set_append mem_Collect_eq Un_iff
    by (elim conjE disjE) (auto simp: sch whenWatchable_def split: if_splits)
  ultimately show ?thesis using 1(1,2) by blast
qed

text \<open>
  C27: the start ends. Unless an issuer is configured, its probe is not skipped, and no request to it is
  ever answered with 200, \<open>main\<close> gets to the point where it runs the manager or exits with an error.
\<close>

theorem startup_returns:
  assumes "\<And>config se. loaded = Inr config \<Longrightarrow> resolveSettings config cl = Inr se \<Longrightarrow>
      aoIssuerURL (opAuth (seWeb se)) = [] \<or> seSkipOIDCProbe se \<or>
      (\<exists>n. mwProbe w (probeURL (aoIssuerURL (opAuth (seWeb se)))) n = Inr 200)"
  shows "\<exists>result. startup w loaded cl = Some result"
proof (cases "\<exists>config se. loaded = Inr config \<and> resolveSettings config cl = Inr se")
  case True
  then obtain config se where *: "loaded = Inr config" "resolveSettings config cl = Inr se" by blast
  from assms [OF this] have "probeIssuer (mwProbe w) (aoIssuerURL (opAuth (seWeb se))) (seSkipOIDCProbe se) \<noteq> None"
    using probeLoop_terminates by (auto simp: probeIssuer_def)
  with * show ?thesis
    by (auto simp: startup_def bindE_def split: sum.splits option.splits)
next
  case False
  then show ?thesis
    by (cases loaded; cases "resolveSettings (projr loaded) cl") (auto simp: startup_def bindE_def)
qed

theorem startup_returns_witness:
  "\<exists>result. startup exampleMain
     (Inr (emptyViper\<lparr>vpGetString := (\<lambda>k. if k = ''auth.issuerURL'' then ''https://idp/'' else [])\<rparr>))
     flagDefaults = Some result"
  by (rule startup_returns) (auto simp: exampleMain_def)

end
