(* ===== verification/Servers.thy ===== *)
theory Servers
  imports Startup
begin

text \<open>
  How the two servers of \<open>cmd/main.go\<close> run and stop, and how \<open>main\<close> ends. Each server is a runnable
  with two goroutines: one is in \<open>ListenAndServe\<close>, and its return value decides that of the runnable;
  the other waits for the end of the context and then calls \<open>Shutdown\<close> with a deadline of five
  seconds. Their steps interleave with each other and with the requests that are served; what \<open>http.Server\<close> does is
  as documented in \<open>net/http\<close>: a call of \<open>Shutdown\<close> closes the listeners, upon which \<open>ListenAndServe\<close>
  returns \<open>ErrServerClosed\<close> at once, while \<open>Shutdown\<close> itself waits for the requests in progress. A request
  may begin as long as a connection is open, which is excluded only when \<open>Shutdown\<close> has ended without an error:
  connections that were accepted before may still send one after the call.
\<close>

subsection \<open>Listening\<close>

text \<open>How a server listens: with or without TLS, on which address\<close>

datatype listening = Plain string | WithTLS string TLSConfig

fun serveMode :: "runnable \<Rightarrow> listening option" where
  "serveMode (WebServer addr _) = Some (Plain addr)"
| "serveMode (SyncServer addr _ syncTLSConfig) =
     Some (case syncTLSConfig of Some cfg \<Rightarrow> WithTLS addr cfg | None \<Rightarrow> Plain addr)"
| "serveMode _ = None"

subsection \<open>Running\<close>

datatype serveResult = ErrServerClosed | ServeError error

datatype shutdown = NotCalled | Draining | Ended "error option"

text \<open>
  \<open>sgDone\<close>: the context has ended; \<open>sgOpen\<close>: the number of requests in progress; \<open>sgServe\<close> and
  \<open>sgReturned\<close>: what \<open>ListenAndServe\<close> and the runnable have returned, if they have.
\<close>

record serving =
  sgDone :: bool
  sgShutdown :: shutdown
  sgOpen :: nat
  sgServe :: "serveResult option"
  sgReturned :: "error option option"

definition startServer :: serving where
  "startServer = \<lparr>sgDone = False, sgShutdown = NotCalled, sgOpen = 0, sgServe = None, sgReturned = None\<rparr>"

text \<open>\<open>serveErr != nil && !errors.Is(serveErr, http.ErrServerClosed)\<close>\<close>

definition runnableResult :: "serveResult \<Rightarrow> error option" where
  "runnableResult serveErr = (case serveErr of ErrServerClosed \<Rightarrow> None | ServeError e \<Rightarrow> Some e)"

datatype serveEvent =
    EAccept | EComplete | ECancel | EShutdown | EServe serveResult | EReturn | EDrained | EDeadline error

inductive serveStep :: "serving \<Rightarrow> serveEvent \<Rightarrow> serving \<Rightarrow> bool" where
  accept: "sgShutdown s \<noteq> Ended None \<Longrightarrow> serveStep s EAccept (s\<lparr>sgOpen := Suc (sgOpen s)\<rparr>)"
| complete: "sgOpen s = Suc n \<Longrightarrow> serveStep s EComplete (s\<lparr>sgOpen := n\<rparr>)"
| cancel: "serveStep s ECancel (s\<lparr>sgDone := True\<rparr>)"
| shutdown: "sgDone s \<Longrightarrow> sgShutdown s = NotCalled \<Longrightarrow> serveStep s EShutdown (s\<lparr>sgShutdown := Draining\<rparr>)"
| closed: "sgServe s = None \<Longrightarrow> sgShutdown s \<noteq> NotCalled \<Longrightarrow>
    serveStep s (EServe ErrServerClosed) (s\<lparr>sgServe := Some ErrServerClosed\<rparr>)"
| fails: "sgServe s = None \<Longrightarrow> serveStep s (EServe (ServeError e)) (s\<lparr>sgServe := Some (ServeError e)\<rparr>)"
| returns: "sgServe s = Some r \<Longrightarrow> sgReturned s = None \<Longrightarrow>
    serveStep s EReturn (s\<lparr>sgReturned := Some (runnableResult r)\<rparr>)"
| drained: "sgShutdown s = Draining \<Longrightarrow> sgOpen s = 0 \<Longrightarrow> serveStep s EDrained (s\<lparr>sgShutdown := Ended None\<rparr>)"
| deadline: "sgShutdown s = Draining \<Longrightarrow> serveStep s (EDeadline e) (s\<lparr>sgShutdown := Ended (Some e)\<rparr>)"

inductive serveRuns :: "serving \<Rightarrow> serveEvent list \<Rightarrow> serving \<Rightarrow> bool" where
  none: "serveRuns s [] s"
| more: "serveRuns s es s' \<Longrightarrow> serveStep s' e s'' \<Longrightarrow> serveRuns s (es @ [e]) s''"

inductive_cases serveStep_elims:
  "serveStep s EAccept s'" "serveStep s EComplete s'" "serveStep s ECancel s'" "serveStep s EShutdown s'"
  "serveStep s (EServe r) s'" "serveStep s EReturn s'" "serveStep s EDrained s'" "serveStep s (EDeadline e) s'"

inductive_simps serveStep_simps:
  "serveStep s EAccept s'" "serveStep s EComplete s'" "serveStep s ECancel s'" "serveStep s EShutdown s'"
  "serveStep s (EServe ErrServerClosed) s'" "serveStep s (EServe (ServeError e)) s'" "serveStep s EReturn s'"

subsection \<open>The end of \<open>main\<close>\<close>

text \<open>
  \<open>runManager\<close> is the result of \<open>mgr.Start\<close>. \<open>None\<close>: \<open>main\<close> does not end; otherwise the exit status.
\<close>

definition mainExit :: "MainWorld \<Rightarrow> (Process \<Rightarrow> error option) \<Rightarrow> error + viper \<Rightarrow> CommandLine \<Rightarrow> nat option" where
  "mainExit w runManager loaded cl =
     (case startup w loaded cl of
        None \<Rightarrow> None
      | Some (Inl e) \<Rightarrow> Some 1
      | Some (Inr p) \<Rightarrow> (case runManager p of Some e \<Rightarrow> Some 1 | None \<Rightarrow> Some 0))"

section \<open>Lemmas\<close>

text \<open>What the state records of the past\<close>

definition served :: "serveEvent list \<Rightarrow> serving \<Rightarrow> bool" where
  "served es s \<longleftrightarrow>
     (sgDone s \<longleftrightarrow> ECancel \<in> set es) \<and>
     (sgShutdown s \<noteq> NotCalled \<longleftrightarrow> EShutdown \<in> set es) \<and>
     (EShutdown \<in> set es \<longrightarrow> ECancel \<in> set es) \<and>
     (\<forall>r. sgServe s = Some r \<longleftrightarrow> EServe r \<in> set es) \<and>
     (EServe ErrServerClosed \<in> set es \<longrightarrow> EShutdown \<in> set es) \<and>
     (\<forall>r. sgReturned s = Some r \<longrightarrow> (\<exists>x. sgServe s = Some x \<and> r = runnableResult x))"

lemma runnableResult_simps [simp]:
  "runnableResult x = Some e \<longleftrightarrow> x = ServeError e" "runnableResult x = None \<longleftrightarrow> x = ErrServerClosed"
  "Some e = runnableResult x \<longleftrightarrow> x = ServeError e" "None = runnableResult x \<longleftrightarrow> x = ErrServerClosed"
  by (auto simp: runnableResult_def split: serveResult.splits)

lemma served_step: "served es s \<Longrightarrow> serveStep s e s' \<Longrightarrow> served (es @ [e]) s'"
  by (erule serveStep.cases) (auto simp: served_def)

lemma serveRuns_served: "serveRuns startServer es s \<Longrightarrow> served es s"
proof (induction startServer es s rule: serveRuns.induct)
  case none
  then show ?case by (simp add: served_def startServer_def)
qed (rule served_step)

lemma serveRuns_one: "serveStep s e s' \<Longrightarrow> serveRuns s [e] s'"
  using serveRuns.more [OF serveRuns.none] by fastforce

lemma serveRuns_trans: "serveRuns t es' s'' \<Longrightarrow> serveRuns s es t \<Longrightarrow> serveRuns s (es @ es') s''"
proof (induction t es' s'' rule: serveRuns.induct)
  case (more t es' s' e s'')
  then show ?case using serveRuns.more [of s "es @ es'" s' e s''] by simp
qed simp

text \<open>After the end of the context the server's own goroutines bring the runnable to its return.\<close>

lemma server_can_return:
  assumes "sgDone s" and "sgReturned s = None"
  shows "\<exists>es s' r. serveRuns s es s' \<and> set es \<subseteq> {EShutdown, EServe ErrServerClosed, EReturn} \<and>
    sgReturned s' = Some r \<and> sgOpen s' = sgOpen s \<and> (sgServe s = None \<longrightarrow> r = None)"
proof (cases "sgServe s")
  case (Some x)
  have "serveRuns s [EReturn] (s\<lparr>sgReturned := Some (runnableResult x)\<rparr>)"
    using Some assms(2) by (intro serveRuns_one returns)
  then show ?thesis using Some by (intro exI conjI) (assumption, auto)
next
  case None
  define s1 where "s1 = (if sgShutdown s = NotCalled then s\<lparr>sgShutdown := Draining\<rparr> else s)"
  have s1: "sgServe s1 = None" "sgShutdown s1 \<noteq> NotCalled" "sgReturned s1 = None" "sgOpen s1 = sgOpen s"
    using None assms(2) by (auto simp: s1_def)
  obtain es1 where es1: "serveRuns s es1 s1" "set es1 \<subseteq> {EShutdown}"
  proof (cases "sgShutdown s = NotCalled")
    case True
    then show thesis using that [of "[EShutdown]"] assms(1) by (auto simp: s1_def intro: serveRuns_one shutdown)
  next
    case False
    then show thesis using that [of "[]"] by (simp add: s1_def none)
  qed
  let ?s2 = "s1\<lparr>sgServe := Some ErrServerClosed\<rparr>"
  let ?s3 = "?s2\<lparr>sgReturned := Some None\<rparr>"
  have "serveRuns s1 [EServe ErrServerClosed] ?s2" using s1 by (intro serveRuns_one closed)
  moreover have "serveStep ?s2 EReturn (?s2\<lparr>sgReturned := Some (runnableResult ErrServerClosed)\<rparr>)"
    by (rule returns) (simp_all add: s1)
  then have "serveRuns ?s2 [EReturn] ?s3" by (intro serveRuns_one) (simp add: runnableResult_def)
  ultimately have "serveRuns s (es1 @ [EServe ErrServerClosed] @ [EReturn]) ?s3"
    using es1(1) by (intro serveRuns_trans)
  then show ?thesis using es1(2) s1(4) by (intro exI conjI) (assumption, auto)
qed

section \<open>Properties\<close>

text \<open>
  C26: how a server ends, under every interleaving. Its runnable returns an error only if serving failed
  with that very error; it returns without an error only after \<open>Shutdown\<close> was called; and \<open>Shutdown\<close> is called
  only after the end of the context.
\<close>

theorem server_returns:
  assumes "serveRuns startServer es s"
  shows "(\<forall>e. sgReturned s = Some (Some e) \<longrightarrow> EServe (ServeError e) \<in> set es) \<and>
    (sgReturned s = Some None \<longrightarrow> ECancel \<in> set es \<and> EShutdown \<in> set es \<and> sgServe s = Some ErrServerClosed) \<and>
    (\<forall>es1 es2. es = es1 @ EShutdown # es2 \<longrightarrow> ECancel \<in> set es1)"
proof -
  note h = serveRuns_served [OF assms]
  have "ECancel \<in> set es1" if "es = es1 @ EShutdown # es2" for es1 es2
    using assms that
  proof (induction startServer es s arbitrary: es2 rule: serveRuns.induct)
    case (more es s' e s'')
    show ?case
    proof (cases es2 rule: rev_cases)
      case Nil
      with more.prems have "es = es1" "e = EShutdown" by auto
      with more.hyps(3) serveRuns_served [OF more.hyps(1)] show ?thesis
        by (simp add: serveStep_simps served_def)
    next
      case (snoc es3 e')
      with more.prems have "es = es1 @ EShutdown # es3" by auto
      then show ?thesis by (rule more.hyps(2))
    qed
  qed simp
  moreover have "\<forall>e. sgReturned s = Some (Some e) \<longrightarrow> EServe (ServeError e) \<in> set es"
    using h by (auto simp: served_def)
  moreover have "sgReturned s = Some None \<longrightarrow>
      ECancel \<in> set es \<and> EShutdown \<in> set es \<and> sgServe s = Some ErrServerClosed"
    using h by (auto simp: served_def)
  ultimately show ?thesis by blast
qed

definition exampleStop :: "serveEvent list" where
  "exampleStop = [EAccept, ECancel, EShutdown, EServe ErrServerClosed, EReturn]"

definition stoppedServer :: serving where
  "stoppedServer = \<lparr>sgDone = True, sgShutdown = Draining, sgOpen = 1, sgServe = Some ErrServerClosed,
     sgReturned = Some None\<rparr>"

lemma exampleStop_runs: "serveRuns startServer exampleStop stoppedServer"
proof -
  let ?s1 = "startServer\<lparr>sgOpen := 1\<rparr>"
  let ?s2 = "?s1\<lparr>sgDone := True\<rparr>"
  let ?s3 = "?s2\<lparr>sgShutdown := Draining\<rparr>"
  let ?s4 = "?s3\<lparr>sgServe := Some ErrServerClosed\<rparr>"
  have "serveRuns startServer ([] @ [EAccept]) ?s1"
    by (rule more [OF none]) (simp add: serveStep_simps startServer_def)
  then have "serveRuns startServer (([] @ [EAccept]) @ [ECancel]) ?s2"
    by (rule more) (simp add: serveStep_simps)
  then have "serveRuns startServer ((([] @ [EAccept]) @ [ECancel]) @ [EShutdown]) ?s3"
    by (rule more) (simp add: serveStep_simps startServer_def)
  then have "serveRuns startServer (((([] @ [EAccept]) @ [ECancel]) @ [EShutdown]) @ [EServe ErrServerClosed]) ?s4"
    by (rule more) (simp add: serveStep_simps startServer_def)
  then have "serveRuns startServer
      ((((([] @ [EAccept]) @ [ECancel]) @ [EShutdown]) @ [EServe ErrServerClosed]) @ [EReturn]) stoppedServer"
    by (rule more) (simp add: serveStep_simps startServer_def stoppedServer_def runnableResult_def)
  then show ?thesis by (simp add: exampleStop_def)
qed

theorem server_returns_witness:
  "sgReturned stoppedServer = Some None \<and> sgServe stoppedServer = Some ErrServerClosed \<and>
   ECancel \<in> set exampleStop"
  using server_returns [OF exampleStop_runs] by (simp add: stoppedServer_def)

text \<open>
  C25: a server stops. Whatever has happened before, once the context has ended the two goroutines of the
  server bring its runnable to its return by their own steps, without waiting for any request; the
  result is no error unless serving had failed before.
\<close>

theorem server_stops:
  assumes "serveRuns startServer es s" and "ECancel \<in> set es" and "sgReturned s = None"
  shows "\<exists>es' s' r. serveRuns startServer (es @ es') s' \<and> set es' \<subseteq> {EShutdown, EServe ErrServerClosed, EReturn} \<and>
    sgReturned s' = Some r \<and> ((\<forall>e. EServe (ServeError e) \<notin> set es) \<longrightarrow> r = None)"
proof -
  have h: "served es s" by (rule serveRuns_served [OF assms(1)])
  with assms(2) have "sgDone s" by (simp add: served_def)
  from server_can_return [OF this assms(3)] obtain es' s' r where
    r: "serveRuns s es' s'" "set es' \<subseteq> {EShutdown, EServe ErrServerClosed, EReturn}" "sgReturned s' = Some r"
      "sgServe s = None \<longrightarrow> r = None"
    by (elim exE conjE) (rule that)
  have run: "serveRuns startServer (es @ es') s'" by (rule serveRuns_trans [OF r(1) assms(1)])
  have "r = None" if "\<forall>e. EServe (ServeError e) \<notin> set es"
  proof (rule ccontr)
    assume "r \<noteq> None"
    then obtain e where "r = Some e" by blast
    with serveRuns_served [OF run] r(3) have "EServe (ServeError e) \<in> set (es @ es')"
      by (auto simp: served_def)
    with that r(2) show False by auto
  qed
  with run r(2,3) show ?thesis by blast
qed

theorem server_stops_witness:
  "\<exists>es' s' r. serveRuns startServer ([ECancel] @ es') s' \<and> sgReturned s' = Some r \<and> r = None"
proof -
  have "serveRuns startServer [ECancel] (startServer\<lparr>sgDone := True\<rparr>)" by (rule serveRuns_one [OF cancel])
  then show ?thesis
    using server_stops [of "[ECancel]" "startServer\<lparr>sgDone := True\<rparr>"] by (force simp: startServer_def)
qed

text \<open>
  The shutdown is not waited for: the runnable can return without an error, and with it the program end,
  while a request is in progress and \<open>Shutdown\<close> is still waiting for it.
\<close>

theorem shutdown_not_awaited:
  "\<exists>es s. serveRuns startServer es s \<and> sgReturned s = Some None \<and> sgShutdown s = Draining \<and> 0 < sgOpen s"
  using exampleStop_runs by (force simp: stoppedServer_def)

text \<open>
  \<open>main\<close> ends with status 0 exactly if the start succeeds and the manager returns without an error.
\<close>

theorem mainExit_ok:
  "mainExit w runManager loaded cl = Some 0 \<longleftrightarrow>
     (\<exists>p. startup w loaded cl = Some (Inr p) \<and> runManager p = None)"
  by (auto simp: mainExit_def split: option.splits sum.splits)

end
