(* ===== verification/Sessions.thy ===== *)
theory Sessions
  imports Http_Handler
begin

text \<open>
  Sessions over many requests: what any sequence of requests to the web server leaves unchanged, and
  that the session a client creates with its token is the one its later requests are served with.
\<close>

section \<open>Sequences of requests\<close>

text \<open>The state after a sequence of requests, each in the world of its time\<close>

definition serveAll :: "(HandlerWorld \<times> Request) list \<Rightarrow> Server \<Rightarrow> Server" where
  "serveAll reqs s = fold (\<lambda>(w, r) s. snd (ServeHTTP w s r)) reqs s"

text \<open>
  What a request can change of a server: the caches of the authentication service and the
  connections of the notifier.
\<close>

definition sameIdentity :: "authService \<Rightarrow> authService \<Rightarrow> bool" where
  "sameIdentity a b \<longleftrightarrow>
     (\<exists>ep reach at issuer disc. b = a\<lparr>asCachedUserInfoEP := ep, asCachedIssuerReachable := reach,
        asCachedIssuerCheckedAt := at, asCachedIssuerForURL := issuer, asCachedDiscoveryForURL := disc\<rparr>)"

definition sameServer :: "Server \<Rightarrow> Server \<Rightarrow> bool" where
  "sameServer s t \<longleftrightarrow>
     sameIdentity (svAuth s) (svAuth t) \<and> svCollector t = svCollector s \<and> svOptions t = svOptions s \<and>
     svTemplate t = svTemplate s \<and> set (nfClients (svNotifier s)) \<subseteq> set (nfClients (svNotifier t))"

lemma sameIdentityI [intro]:
  "asEnabled b = asEnabled a \<Longrightarrow> asCookieName b = asCookieName a \<Longrightarrow> asSecret b = asSecret a \<Longrightarrow>
   asIssuerURL b = asIssuerURL a \<Longrightarrow> asClientID b = asClientID a \<Longrightarrow> asRedirectPath b = asRedirectPath a \<Longrightarrow>
   asScopes b = asScopes a \<Longrightarrow> asUserInfoEndpointOverride b = asUserInfoEndpointOverride a \<Longrightarrow> sameIdentity a b"
  unfolding sameIdentity_def
  by (intro exI [of _ "asCachedUserInfoEP b"] exI [of _ "asCachedIssuerReachable b"]
      exI [of _ "asCachedIssuerCheckedAt b"] exI [of _ "asCachedIssuerForURL b"]
      exI [of _ "asCachedDiscoveryForURL b"]) (simp add: authService.equality)

lemma sameIdentity_simps:
  assumes "sameIdentity a b"
  shows "asEnabled b = asEnabled a" "asCookieName b = asCookieName a" "asSecret b = asSecret a"
    "asUserInfoEndpointOverride b = asUserInfoEndpointOverride a" "asIssuerURL b = asIssuerURL a"
  using assms by (auto simp: sameIdentity_def)

lemma sameIdentity_refl [simp, intro]: "sameIdentity a a"
  by (rule sameIdentityI) simp_all

lemma sameIdentity_trans: "sameIdentity a b \<Longrightarrow> sameIdentity b c \<Longrightarrow> sameIdentity a c"
  by (rule sameIdentityI) (auto simp: sameIdentity_def)

lemma sameServer_refl [simp, intro]: "sameServer s s"
  by (simp add: sameServer_def)

lemma sameServer_trans: "sameServer s t \<Longrightarrow> sameServer t u \<Longrightarrow> sameServer s u"
  by (auto simp: sameServer_def intro: sameIdentity_trans)

lemma sameServer_auth: "sameIdentity (svAuth s) a \<Longrightarrow> sameServer s (s\<lparr>svAuth := a\<rparr>)"
  by (simp add: sameServer_def)

lemma userInfoEndpoint_same: "sameIdentity a (snd (userInfoEndpoint w a))"
  by (subst userInfoEndpoint_keeps) (rule sameIdentityI, simp_all)

lemma fetchUserInfo_same: "fetchUserInfo w a token = (res, b) \<Longrightarrow> sameIdentity a b"
  using userInfoEndpoint_same [of a w]
  by (auto simp: fetchUserInfo_def split: prod.splits sum.splits option.splits if_splits)

lemma authenticateRequest_same: "authenticateRequest U w a r = (res, b, cookie) \<Longrightarrow> sameIdentity a b"
  by (auto simp: authenticateRequest_def Let_def dest: fetchUserInfo_same
      split: if_splits prod.splits sum.splits)

lemma issuerAndDiscoveryReachable_same:
  "issuerAndDiscoveryReachable w a i d = (res, b) \<Longrightarrow> sameIdentity a b"
  by (auto simp: issuerAndDiscoveryReachable_def Let_def split: if_splits)

lemma authConfig_same: "authConfig w a u = (res, b) \<Longrightarrow> sameIdentity a b"
  by (auto simp: authConfig_def Let_def dest: issuerAndDiscoveryReachable_same
      split: if_splits prod.splits)

lemma serveOpenIDConfiguration_same: "serveOpenIDConfiguration w p a r = (res, b) \<Longrightarrow> sameIdentity a b"
  by (auto simp: serveOpenIDConfiguration_def Let_def dest: issuerAndDiscoveryReachable_same
      split: if_splits prod.splits bool.splits option.splits)

lemmas auth_same = fetchUserInfo_same authenticateRequest_same authConfig_same serveOpenIDConfiguration_same

lemma dashboardHandler_same [simp]: "snd (dashboardHandler ctx w s r) = s"
  by (simp add: dashboardHandler_def Let_def split: sum.split)

lemma dashboardHandler_state: "dashboardHandler ctx w s r = (rp, t) \<Longrightarrow> t = s"
  by (auto simp: dashboardHandler_def Let_def split: if_splits sum.splits)

lemma frontendIndex_same: "sameServer s (snd (frontendIndexHandler w s r))"
  by (auto simp: frontendIndexHandler_def intro!: sameServer_auth dest: auth_same
      split: sum.splits prod.splits)

lemma upgradeHandler_same: "sameServer s (snd (upgradeHandler cookie w s r))"
  by (auto simp: upgradeHandler_def sameServer_def register_def split: option.splits)

text \<open>No request changes the identity of a server.\<close>

lemma ServeHTTP_same: "sameServer s (snd (ServeHTTP w s r))"
proof -
  have session: "sameServer s (snd (sessionHandler w s r))"
    by (auto simp: sessionHandler_def Let_def intro!: sameServer_auth dest: auth_same
        split: sum.splits prod.splits)
  have api: "sameServer s (snd (apiDashboard w s r))"
    by (auto simp: apiDashboard_def requireAuthentication_def intro!: sameServer_auth
        dest!: auth_same dashboardHandler_state split: sum.splits prod.splits)
  have updates: "sameServer s (snd (updatesHandler w s r))"
    using upgradeHandler_same
    by (auto simp: updatesHandler_def intro!: sameServer_auth dest: auth_same
        intro: sameServer_trans [OF sameServer_auth] split: sum.splits prod.splits)
  have openid: "sameServer s (snd (openIDHandler w s r))"
    by (auto simp: openIDHandler_def intro!: sameServer_auth dest: auth_same
        split: discoveryReply.splits prod.splits)
  have page: "sameServer s (snd (pageTemplateHandler w s r))"
    using frontendIndex_same
    by (auto simp: pageTemplateHandler_def renderPage_def split: sum.splits)
  have root: "sameServer s (snd (rootHandler w s r))"
    using page frontendIndex_same by (auto simp: rootHandler_def Let_def split: readResult.splits)
  show ?thesis
    using session api updates openid root
    by (auto simp: ServeHTTP_def Let_def getOnly_def faviconHandler_def split: option.splits)
qed

lemma serveAll_same: "sameServer s (serveAll reqs s)"
proof (induction reqs arbitrary: s)
  case (Cons wr reqs)
  have "serveAll (wr # reqs) s = serveAll reqs (snd (ServeHTTP (fst wr) s (snd wr)))"
    by (simp add: serveAll_def split_beta)
  then show ?case using sameServer_trans [OF ServeHTTP_same Cons.IH] by simp
qed (simp add: serveAll_def)

section \<open>Properties\<close>

text \<open>
  C7: from login to dashboard. A client posts its token to \<open>/api/session\<close> and the server answers 200. Then the
  identity provider has accepted that token, the answer sets a session cookie, and whatever requests
  the server handles in between, a later request for the dashboard with that cookie and without a token
  is answered for 24 hours with the dashboard collected for the groups in the client's user
  info, and with 401 after that. The JSON codec is assumed to read back the session it wrote, and
  the HMAC to be the same function at both times.
\<close>

theorem login_end_to_end:
  assumes "asEnabled (svAuth s)" and "reqPath r = ''/api/session''" and "reqMethod r = ''POST''"
    and "ServeHTTP w s r = (rp, s1)" and "rpStatus rp = 200"
    and "\<And>userInfo a payload. fetchUserInfo (hwAuth w) (svAuth s) (bearerTokenFromRequest (hwUnicode w) r) = (Inr userInfo, a) \<Longrightarrow>
      payload = \<lparr>spExpiresAt = unixTime (xwNow (hwAuth w) + sessionTTL), spUserInfo = userInfo,
        spGroups = userGroupsFromUserInfo userInfo\<rparr> \<Longrightarrow>
      xwUnmarshal (hwAuth w') (xwMarshal (hwAuth w) payload) = Inr payload"
    and "xwHMAC (hwAuth w') = xwHMAC (hwAuth w)"
    and "s2 = serveAll reqs s1" and "reqPath r' = ''/api/dashboard''" and "reqMethod r' = ''GET''"
    and "bearerTokenFromRequest (hwUnicode w') r' = []"
    and "\<And>cookie. rpCookie rp = Some cookie \<Longrightarrow> reqCookie r' (ckName cookie) = Some (ckValue cookie)"
  shows "\<exists>userInfo a cookie.
    fetchUserInfo (hwAuth w) (svAuth s) (bearerTokenFromRequest (hwUnicode w) r) = (Inr userInfo, a) \<and>
    rpCookie rp = Some cookie \<and> ckHttpOnly cookie \<and>
    fst (ServeHTTP w' s2 r') =
      (if unixTime (xwNow (hwAuth w')) \<le> unixTime (xwNow (hwAuth w)) + 86400 then
         (case collectDashboard (hwUnicode w') (hwOrder w') (svCollector s) (userGroupsFromUserInfo userInfo) False of
            Inr payload \<Rightarrow> reply 200 (BDashboard payload)
          | Inl e \<Rightarrow> httpError (hwErrorText w' e) 500)
       else unauthorized)"
proof -
  let ?token = "bearerTokenFromRequest (hwUnicode w) r"
  have run: "sessionHandler w s r = (rp, s1)" using assms(2,4) by (simp add: ServeHTTP_def)
  then have token: "?token \<noteq> []"
    using assms(1,3,5) by (auto simp: sessionHandler_def Let_def)
  obtain res a where fetch: "fetchUserInfo (hwAuth w) (svAuth s) ?token = (res, a)"
    by (cases "fetchUserInfo (hwAuth w) (svAuth s) ?token")
  with run token assms(1,3,5) obtain userInfo where res: "res = Inr userInfo"
    by (cases res) (auto simp: sessionHandler_def Let_def)
  note info = fetch [unfolded res]
  have rp: "rpCookie rp = Some (setSessionCookie (hwAuth w) a (newAuthSession userInfo))"
    and s1: "s1 = s\<lparr>svAuth := a\<rparr>"
    using run token assms(1,3) info by (auto simp: sessionHandler_def Let_def)
  let ?cookie = "setSessionCookie (hwAuth w) a (newAuthSession userInfo)"
  have same: "sameServer s1 s2" using serveAll_same assms(8) by simp
  then have id2: "sameIdentity a (svAuth s2)" by (simp add: sameServer_def s1)
  have enabled: "asEnabled (svAuth s2)"
    using assms(1) fetchUserInfo_same [OF info] id2 by (simp add: sameIdentity_simps)
  have coll: "svCollector s2 = svCollector s" using same by (simp add: sameServer_def s1)
  have cookie: "?cookie = setSessionCookie (hwAuth w) (svAuth s2) (newAuthSession userInfo)"
    "ckName ?cookie = asCookieName (svAuth s2)"
    using sameIdentity_simps [OF id2] by (simp_all add: setSessionCookie_def Let_def)
  have read: "userInfoFromCookie (hwAuth w') (svAuth s2) r' =
      (if unixTime (xwNow (hwAuth w')) \<le> unixTime (xwNow (hwAuth w)) + 86400 then Inr (newAuthSession userInfo)
       else Inl (Errorf ''session cookie expired'' [] None))"
    using cookie_roundtrip [of r' "svAuth s2" "hwAuth w" "newAuthSession userInfo" "hwAuth w'"]
      assms(6) [OF info refl] assms(7) assms(12) [OF rp] cookie by (simp add: newAuthSession_def)
  have "ServeHTTP w' s2 r' = requireAuthentication dashboardHandler w' s2 r'"
    using assms(9) enabled by (simp add: ServeHTTP_def apiDashboard_def)
  moreover have "authenticateRequest (hwUnicode w') (hwAuth w') (svAuth s2) r' =
      (userInfoFromCookie (hwAuth w') (svAuth s2) r', svAuth s2, None)"
    using enabled assms(11) by (simp add: authenticateRequest_def)
  ultimately have "fst (ServeHTTP w' s2 r') =
      (if unixTime (xwNow (hwAuth w')) \<le> unixTime (xwNow (hwAuth w)) + 86400 then
         (case collectDashboard (hwUnicode w') (hwOrder w') (svCollector s) (userGroupsFromUserInfo userInfo) False of
            Inr payload \<Rightarrow> reply 200 (BDashboard payload)
          | Inl e \<Rightarrow> httpError (hwErrorText w' e) 500)
       else unauthorized)"
    using assms(10) coll
    by (simp add: requireAuthentication_def read dashboardHandler_def newAuthSession_def reply_def httpError_def
        split: sum.split)
  with info rp show ?thesis by (auto simp: setSessionCookie_def Let_def)
qed

theorem login_end_to_end_witness:
  "\<exists>payload. rpBody (fst (ServeHTTP (exampleWorldOf (exampleAuthWorld (3600 * second)))
     (snd (ServeHTTP (exampleWorldOf (exampleAuthWorld 0)) (exampleServer True)
        (exampleRequest ''POST'' ''/api/session'' ''Bearer tok'')))
     (exampleRequest ''GET'' ''/api/dashboard'' []))) = BDashboard payload"
proof -
  let ?w = "exampleWorldOf (exampleAuthWorld 0)" and ?w' = "exampleWorldOf (exampleAuthWorld (3600 * second))"
  let ?s = "exampleServer True" and ?r = "exampleRequest ''POST'' ''/api/session'' ''Bearer tok''"
  let ?r' = "exampleRequest ''GET'' ''/api/dashboard'' []"
  obtain rp s1 where run: "ServeHTTP ?w ?s ?r = (rp, s1)" by (cases "ServeHTTP ?w ?s ?r")
  have "rpStatus (fst (ServeHTTP ?w ?s ?r)) = 200"
    "map_option ckName (rpCookie (fst (ServeHTTP ?w ?s ?r))) = Some sessionCookieName"
    "map_option ckValue (rpCookie (fst (ServeHTTP ?w ?s ?r))) = Some exampleCookie"
    "bearerTokenFromRequest (hwUnicode ?w') ?r' = []" by code_simp+
  note rp = this [unfolded run fst_conv]
  have info: "userInfo = ssUserInfo exampleSession"
    if "fetchUserInfo (hwAuth ?w) (svAuth ?s) token = (Inr userInfo, a)" for token userInfo a
    using that by (auto simp: fetchUserInfo_def exampleWorldOf_def exampleAuthWorld_def
        split: prod.splits sum.splits option.splits if_splits)
  have groups: "userGroupsFromUserInfo (ssUserInfo exampleSession) = ssGroups exampleSession" by code_simp
  have "\<exists>userInfo a cookie.
      fetchUserInfo (hwAuth ?w) (svAuth ?s) (bearerTokenFromRequest (hwUnicode ?w) ?r) = (Inr userInfo, a) \<and>
      rpCookie rp = Some cookie \<and> ckHttpOnly cookie \<and>
      fst (ServeHTTP ?w' s1 ?r') =
        (if unixTime (xwNow (hwAuth ?w')) \<le> unixTime (xwNow (hwAuth ?w)) + 86400 then
           (case collectDashboard (hwUnicode ?w') (hwOrder ?w') (svCollector ?s) (userGroupsFromUserInfo userInfo) False of
              Inr payload \<Rightarrow> reply 200 (BDashboard payload)
            | Inl e \<Rightarrow> httpError (hwErrorText ?w' e) 500)
         else unauthorized)"
  proof (rule login_end_to_end [OF _ _ _ run, where reqs = "[]"])
    show "xwUnmarshal (hwAuth ?w') (xwMarshal (hwAuth ?w) payload) = Inr payload"
      if "fetchUserInfo (hwAuth ?w) (svAuth ?s) (bearerTokenFromRequest (hwUnicode ?w) ?r) = (Inr userInfo, a)"
        and "payload = \<lparr>spExpiresAt = unixTime (xwNow (hwAuth ?w) + sessionTTL), spUserInfo = userInfo,
          spGroups = userGroupsFromUserInfo userInfo\<rparr>" for userInfo a payload
      using info [OF that(1)] that(2) groups
      by (simp add: exampleWorldOf_def exampleAuthWorld_def unixTime_def sessionTTL_def second_def)
    show "reqCookie ?r' (ckName cookie) = Some (ckValue cookie)" if "rpCookie rp = Some cookie" for cookie
      using rp(2,3) that by (simp add: exampleRequest_def)
  qed (use rp(1,4) in \<open>simp_all add: exampleServer_def exampleRequest_def exampleWorldOf_def exampleAuthWorld_def serveAll_def\<close>)
  then obtain userInfo a where u: "fetchUserInfo (hwAuth ?w) (svAuth ?s) (bearerTokenFromRequest (hwUnicode ?w) ?r) = (Inr userInfo, a)"
    and reply: "fst (ServeHTTP ?w' s1 ?r') =
      (case collectDashboard (hwUnicode ?w') (hwOrder ?w') (svCollector ?s) (userGroupsFromUserInfo userInfo) False of
         Inr payload \<Rightarrow> reply 200 (BDashboard payload)
       | Inl e \<Rightarrow> httpError (hwErrorText ?w' e) 500)"
    by (auto simp: exampleWorldOf_def exampleAuthWorld_def unixTime_def second_def)
  have "\<not> isl (collectDashboard (hwUnicode ?w') (hwOrder ?w') (svCollector ?s)
      (userGroupsFromUserInfo (ssUserInfo exampleSession)) False)" by code_simp
  then obtain payload where "collectDashboard (hwUnicode ?w') (hwOrder ?w') (svCollector ?s)
      (userGroupsFromUserInfo userInfo) False = Inr payload"
    unfolding info [OF u] isl_def by (auto simp: not_ex intro: sum.exhaust)
  with reply run show ?thesis by (intro exI [of _ payload]) simp
qed

end
