(* ===== verification/Controllers.thy ===== *)
theory Controllers
  imports Url_Resolver
begin

text \<open>
  The reconcilers of \<open>internal/controller/dashboard\<close>. A reconciler is a function of the object it gets,
  of the outside world (clock, HTTP, the API server's answer to the update) and returns what it
  writes: the object handed to \<open>Status().Update\<close>, whether it notifies, and the result for the work
  queue. The locale \<open>status_writer\<close> is the contract the three share: only the status changes, and
  nothing is written for an object that is gone.
\<close>

record ReconcileResult =
  rrRequeueAfter :: duration
  rrError :: "error option"

definition noRequeue :: ReconcileResult where
  "noRequeue = \<lparr>rrRequeueAfter = 0, rrError = None\<rparr>"

definition failed :: "error \<Rightarrow> ReconcileResult" where
  "failed e = \<lparr>rrRequeueAfter = 0, rrError = Some e\<rparr>"

definition requeue :: "duration \<Rightarrow> ReconcileResult" where
  "requeue d = \<lparr>rrRequeueAfter = d, rrError = None\<rparr>"

text \<open>
  \<open>cwNow n\<close> is the clock's reading in the step \<open>n\<close> of a reconciliation (0: is a check due, 1: after
  the check or fetch, 2: the synchronisation time); \<open>cwIsNotFound\<close> is \<open>errors.IsNotFound\<close>, \<open>cwUpdate\<close> the error of the update of the status subresource;
  \<open>cwHead\<close> and \<open>cwGet\<close> are requests with the client (status codes), \<open>cwNewRequest\<close> the error of making
  one; \<open>cwStatusText\<close> is \<open>http.StatusText\<close>.
\<close>

record ControlWorld =
  cwNow :: "nat \<Rightarrow> time"
  cwIsNotFound :: "error \<Rightarrow> bool"
  cwErrorText :: "error \<Rightarrow> string"
  cwUpdate :: "error option"
  cwNewRequest :: "string \<Rightarrow> error option"
  cwHead :: "string \<Rightarrow> error + int"
  cwGet :: "string \<Rightarrow> error + int"
  cwStatusText :: "int \<Rightarrow> string"

subsection \<open>Bookmarks\<close>

definition urlCheckInterval :: duration where
  "urlCheckInterval = 5 * 60 * second"

definition resolveURLFromSource :: "Reader \<Rightarrow> string \<Rightarrow> URLSource option \<Rightarrow> error + string" where
  "resolveURLFromSource r namespace source =
     (case source of
        None \<Rightarrow> Inr []
      | Some src \<Rightarrow>
          (case usIngressRef src of
             None \<Rightarrow> Inr []
           | Some ref \<Rightarrow>
               (case rdGetIngress r namespace (lorName ref) of
                  Inl e \<Rightarrow> Inl (Errorf ''ingressRef %q: %w'' [lorName ref] (Some e))
                | Inr ingress \<Rightarrow>
                    (case find not_blank (ingRuleHosts ingress) of
                       Some host \<Rightarrow> Inr (''https://'' @ host)
                     | None \<Rightarrow> Inl (Errorf ''ingressRef %q has no host rules'' [lorName ref] None)))))"

text \<open>The second request, by GET, after HEAD failed or was not allowed\<close>

definition checkURL :: "ControlWorld \<Rightarrow> string \<Rightarrow> error + bool" where
  "checkURL w rawURL =
     (case cwNewRequest w rawURL of
        Some e \<Rightarrow> Inl e
      | None \<Rightarrow>
          (case (case cwHead w rawURL of
                   Inr code \<Rightarrow> if code = 405 then cwGet w rawURL else Inr code
                 | Inl _ \<Rightarrow> cwGet w rawURL) of
             Inl e \<Rightarrow> Inl e
           | Inr code \<Rightarrow>
               (if code \<ge> 400 then Inl (Errorf ''URL returned HTTP %s'' [cwStatusText w code] None)
                else Inr True)))"

definition resolveAndCheckURL :: "ControlWorld \<Rightarrow> Reader \<Rightarrow> Bookmark \<Rightarrow> error + bool" where
  "resolveAndCheckURL w r bookmark =
     (if TrimSpace (bsURL (bmSpec bookmark)) \<noteq> [] then checkURL w (bsURL (bmSpec bookmark))
      else if bsURLFrom (bmSpec bookmark) \<noteq> None then
        (case resolveURLFromSource r (omNamespace (bmMeta bookmark)) (bsURLFrom (bmSpec bookmark)) of
           Inl e \<Rightarrow> Inl e
         | Inr resolved \<Rightarrow> checkURL w resolved)
      else Inr False)"

definition urlCheckDue :: "ControlWorld \<Rightarrow> Bookmark \<Rightarrow> bool" where
  "urlCheckDue w bookmark \<longleftrightarrow>
     (case bstLastURLCheckAt (bmStatus bookmark) of
        None \<Rightarrow> True | Some t \<Rightarrow> cwNow w 0 - t \<ge> urlCheckInterval)"

definition bookmarkStatus :: "ControlWorld \<Rightarrow> Reader \<Rightarrow> Bookmark \<Rightarrow> BookmarkStatus" where
  "bookmarkStatus w r bookmark =
     (let st = bmStatus bookmark;
          st = (if urlCheckDue w bookmark then
                  (case resolveAndCheckURL w r bookmark of
                     Inl e \<Rightarrow> st\<lparr>bstLastURLCheckAt := Some (cwNow w 1), bstURLReachable := Some False,
                                 bstURLCheckError := cwErrorText w e\<rparr>
                   | Inr reachable \<Rightarrow> st\<lparr>bstLastURLCheckAt := Some (cwNow w 1), bstURLReachable := Some reachable,
                                        bstURLCheckError := []\<rparr>)
                else st) in
      st\<lparr>bstLastSyncedAt := Some (cwNow w 2)\<rparr>)"

text \<open>\<open>got\<close> is the answer of \<open>r.Get\<close> for the requested name.\<close>

definition ReconcileBookmark ::
    "ControlWorld \<Rightarrow> Reader \<Rightarrow> error + Bookmark \<Rightarrow> Bookmark option \<times> ReconcileResult" where
  "ReconcileBookmark w r got =
     (case got of
        Inl e \<Rightarrow> if cwIsNotFound w e then (None, noRequeue) else (None, failed e)
      | Inr bookmark \<Rightarrow>
          (Some (bookmark\<lparr>bmStatus := bookmarkStatus w r bookmark\<rparr>),
           case cwUpdate w of Some e \<Rightarrow> failed e | None \<Rightarrow> requeue urlCheckInterval))"

subsection \<open>Bookmark groups\<close>

text \<open>\<open>listed\<close> is the list of bookmarks in the group's namespace; the counter is an \<open>int32\<close>.\<close>

definition ReconcileBookmarkGroup ::
    "ControlWorld \<Rightarrow> (string \<Rightarrow> error + Bookmark list) \<Rightarrow> error + BookmarkGroup \<Rightarrow>
      BookmarkGroup option \<times> ReconcileResult" where
  "ReconcileBookmarkGroup w listIn got =
     (case got of
        Inl e \<Rightarrow> if cwIsNotFound w e then (None, noRequeue) else (None, failed e)
      | Inr g \<Rightarrow>
          (case listIn (omNamespace (bgMeta g)) of
             Inl e \<Rightarrow> (None, failed e)
           | Inr items \<Rightarrow>
               (let bookmarkCount = fold (\<lambda>b n. if bsGroup (bmSpec b) = omName (bgMeta g) then n + 1 else n)
                                      items (0 :: int32) in
                (Some (g\<lparr>bgStatus := (bgStatus g)\<lparr>bgstBookmarkCount := bookmarkCount,
                                                 bgstLastSyncedAt := Some (cwNow w 2)\<rparr>\<rparr>),
                 case cwUpdate w of Some e \<Rightarrow> failed e | None \<Rightarrow> noRequeue))))"

subsection \<open>Info tiles\<close>

definition defaultInfoTileInterval :: duration where
  "defaultInfoTileInterval = 60 * second"

record processorResponse =
  prCode :: int
  prBody :: string
  prData :: any

text \<open>
  \<open>twQuery\<close> parses a URL, adds query parameters and prints it again; \<open>twDo\<close> sends a request (method,
  URL, body, headers) and returns status code, content type and the body or the error of reading
  it; \<open>twParse\<close> and \<open>twExecute\<close> are the template engine.
\<close>

record TileWorld =
  twControl :: ControlWorld
  twUnicode :: unicode
  twQuery :: "string \<Rightarrow> (string \<times> string) list \<Rightarrow> error + string"
  twNewRequest :: "string \<Rightarrow> string \<Rightarrow> error option"
  twDo :: "string \<Rightarrow> string \<Rightarrow> string \<Rightarrow> (string \<times> string) list \<Rightarrow> error + (int \<times> string \<times> (error + string))"
  twUnmarshal :: "string \<Rightarrow> error + any"
  twParse :: "string \<Rightarrow> error option"
  twExecute :: "string \<Rightarrow> processorResponse \<Rightarrow> error + string"

definition doHTTPRequest :: "TileWorld \<Rightarrow> InfoTileHTTPRequest \<Rightarrow> error + processorResponse" where
  "doHTTPRequest w req =
     (let m = ToUpper (twUnicode w) (irMethod req);
          m = (if m = [] then ''GET'' else m) in
      case (if irQueryParams req \<noteq> []
            then (case twQuery w (irURL req) (map (\<lambda>p. (qpName p, qpValue p)) (irQueryParams req)) of
                    Inl e \<Rightarrow> Inl (Errorf ''parse URL %q: %w'' [irURL req] (Some e))
                  | Inr u \<Rightarrow> Inr u)
            else Inr (irURL req)) of
        Inl e \<Rightarrow> Inl e
      | Inr rawURL \<Rightarrow>
          (case twNewRequest w m rawURL of
             Some e \<Rightarrow> Inl (Errorf ''build request: %w'' [] (Some e))
           | None \<Rightarrow>
               (case twDo w m rawURL (irBody req) (map (\<lambda>h. (hdName h, hdValue h)) (irHeaders req)) of
                  Inl e \<Rightarrow> Inl (Errorf ''do request: %w'' [] (Some e))
                | Inr (code, ct, Inl e) \<Rightarrow> Inl (Errorf ''read response body: %w'' [] (Some e))
                | Inr (code, ct, Inr body) \<Rightarrow>
                    Inr \<lparr>prCode = code, prBody = body,
                         prData = (if Contains ct ''application/json''
                                   then (case twUnmarshal w body of Inl _ \<Rightarrow> ANil | Inr d \<Rightarrow> d) else ANil)\<rparr>)))"

definition renderContent :: "TileWorld \<Rightarrow> InfoTile \<Rightarrow> error + string" where
  "renderContent w tile =
     (case (case isHTTPRequest (itSpec tile) of
              None \<Rightarrow> Inr \<lparr>prCode = 0, prBody = [], prData = ANil\<rparr>
            | Some req \<Rightarrow>
                (case doHTTPRequest w req of
                   Inl e \<Rightarrow> Inl (Errorf ''http request: %w'' [] (Some e))
                 | Inr resp \<Rightarrow> Inr resp)) of
        Inl e \<Rightarrow> Inl e
      | Inr resp \<Rightarrow>
          (if isProcessor (itSpec tile) = [] then Inr (prBody resp)
           else
             (case twParse w (isProcessor (itSpec tile)) of
                Some e \<Rightarrow> Inl (Errorf ''parse processor template: %w'' [] (Some e))
              | None \<Rightarrow>
                  (case twExecute w (isProcessor (itSpec tile)) resp of
                     Inl e \<Rightarrow> Inl (Errorf ''execute processor template: %w'' [] (Some e))
                   | Inr out \<Rightarrow> Inr out))))"

definition tileInterval :: "InfoTile \<Rightarrow> duration" where
  "tileInterval tile =
     (case isInterval (itSpec tile) of
        Some d \<Rightarrow> if d > 0 then d else defaultInfoTileInterval
      | None \<Rightarrow> defaultInfoTileInterval)"

text \<open>The written object, whether \<open>Notify\<close> was called (if it is set), and the result\<close>

definition ReconcileInfoTile ::
    "TileWorld \<Rightarrow> error + InfoTile \<Rightarrow> InfoTile option \<times> bool \<times> ReconcileResult" where
  "ReconcileInfoTile w got =
     (case got of
        Inl e \<Rightarrow> if cwIsNotFound (twControl w) e then (None, False, noRequeue) else (None, False, failed e)
      | Inr tile \<Rightarrow>
          (let st = (itStatus tile)\<lparr>istLastFetchedAt := Some (cwNow (twControl w) 1)\<rparr>;
               (st, notified) =
                 (case renderContent w tile of
                    Inl e \<Rightarrow> (st\<lparr>istLastError := cwErrorText (twControl w) e\<rparr>, False)
                  | Inr content \<Rightarrow>
                      (st\<lparr>istLastError := [], istContent := content\<rparr>, istContent st \<noteq> content)) in
           (Some (tile\<lparr>itStatus := st\<rparr>), notified,
            case cwUpdate (twControl w) of
              Some e \<Rightarrow> failed e | None \<Rightarrow> requeue (tileInterval tile))))"

subsection \<open>What reconcilers have in common\<close>

text \<open>
  \<open>stored\<close> is the object the API server holds after a reconciliation of the object it held: the
  written one, unless the update failed. \<open>storedAfter\<close> runs reconciliations one after the other, each
  in its own world.
\<close>

type_synonym ('w, 'o) reconciler = "'w \<Rightarrow> error + 'o \<Rightarrow> 'o option \<times> ReconcileResult"

definition stored :: "('w, 'o) reconciler \<Rightarrow> 'w \<Rightarrow> 'o \<Rightarrow> 'o" where
  "stored reconcile w x =
     (case reconcile w (Inr x) of
        (Some y, res) \<Rightarrow> if rrError res = None then y else x
      | (None, _) \<Rightarrow> x)"

definition storedAfter :: "('w, 'o) reconciler \<Rightarrow> 'w list \<Rightarrow> 'o \<Rightarrow> 'o" where
  "storedAfter reconcile ws x = fold (stored reconcile) ws x"

lemma storedAfter_simps [simp]:
  "storedAfter reconcile [] x = x"
  "storedAfter reconcile (w # ws) x = storedAfter reconcile ws (stored reconcile w x)"
  by (simp_all add: storedAfter_def)

locale status_writer =
  fixes reconcile :: "'w \<Rightarrow> error + 'o \<Rightarrow> 'o option \<times> ReconcileResult"
    and isNotFound :: "'w \<Rightarrow> error \<Rightarrow> bool"
    and specOf :: "'o \<Rightarrow> 'k"
  assumes gone: "isNotFound w e \<Longrightarrow> reconcile w (Inl e) = (None, noRequeue)"
    and get_fails: "\<not> isNotFound w e \<Longrightarrow> reconcile w (Inl e) = (None, failed e)"
    and keeps_spec: "reconcile w (Inr x) = (Some y, res) \<Longrightarrow> specOf y = specOf x"
begin

lemma writes_only_found:
  assumes "reconcile w got = (Some y, res)"
  obtains x where "got = Inr x" and "specOf y = specOf x"
  using assms gone get_fails keeps_spec by (cases got) (metis Pair_inject option.distinct(1))+

lemma stored_spec: "specOf (stored reconcile w x) = specOf x"
  by (cases "reconcile w (Inr x)")
    (auto simp: stored_def keeps_spec split: option.split)

lemma storedAfter_spec: "specOf (storedAfter reconcile ws x) = specOf x"
  by (induction ws arbitrary: x) (simp_all add: stored_spec)

lemma storedAfter_inv:
  assumes "\<And>w x y res. w \<in> set ws \<Longrightarrow> I x \<Longrightarrow> specOf x = specOf x0 \<Longrightarrow>
      reconcile w (Inr x) = (Some y, res) \<Longrightarrow> I y"
    and "I x0"
  shows "I (storedAfter reconcile ws x0)"
proof -
  have "I (storedAfter reconcile ws x)" if "I x" "specOf x = specOf x0" for x
    using assms(1) that
  proof (induction ws arbitrary: x)
    case (Cons w ws)
    have "I (stored reconcile w x)"
      using Cons.prems(1) [of w x] Cons.prems(2,3)
      by (cases "reconcile w (Inr x)") (auto simp: stored_def split: option.split)
    moreover have "specOf (stored reconcile w x) = specOf x0"
      by (simp add: stored_spec Cons.prems(3))
    ultimately have "I (storedAfter reconcile ws (stored reconcile w x))"
      using Cons.prems(1) [OF list.set_intros(2)] by (intro Cons.IH)
    then show ?case by simp
  qed simp
  then show ?thesis using assms(2) by simp
qed

end

text \<open>The three reconcilers, with everything that is not part of the status as the specification\<close>

definition reconcileBookmark :: "(ControlWorld \<times> Reader, Bookmark) reconciler" where
  "reconcileBookmark = (\<lambda>(w, r). ReconcileBookmark w r)"

definition reconcileBookmarkGroup ::
    "(ControlWorld \<times> (string \<Rightarrow> error + Bookmark list), BookmarkGroup) reconciler" where
  "reconcileBookmarkGroup = (\<lambda>(w, l). ReconcileBookmarkGroup w l)"

definition reconcileInfoTile :: "(TileWorld, InfoTile) reconciler" where
  "reconcileInfoTile = (\<lambda>w got. case ReconcileInfoTile w got of (written, notified, res) \<Rightarrow> (written, res))"

interpretation bookmarks: status_writer reconcileBookmark "\<lambda>(w, r). cwIsNotFound w"
  "\<lambda>b. (bmMeta b, bmSpec b)"
  by unfold_locales (auto simp: reconcileBookmark_def ReconcileBookmark_def)

interpretation bookmark_groups: status_writer reconcileBookmarkGroup "\<lambda>(w, l). cwIsNotFound w"
  "\<lambda>g. (bgMeta g, bgSpec g)"
  by unfold_locales
    (auto simp: reconcileBookmarkGroup_def ReconcileBookmarkGroup_def Let_def split: sum.splits)

interpretation info_tiles: status_writer reconcileInfoTile "\<lambda>w. cwIsNotFound (twControl w)"
  "\<lambda>t. (itMeta t, itSpec t)"
  by unfold_locales
    (auto simp: reconcileInfoTile_def ReconcileInfoTile_def Let_def split: sum.splits)

subsection \<open>Lemmas\<close>

text \<open>The answer \<open>checkURL\<close> looks at\<close>

definition answers :: "ControlWorld \<Rightarrow> string \<Rightarrow> int \<Rightarrow> bool" where
  "answers w u code \<longleftrightarrow> cwNewRequest w u = None \<and>
     ((cwHead w u = Inr code \<and> code \<noteq> 405) \<or>
      ((cwHead w u = Inr 405 \<or> (\<exists>e. cwHead w u = Inl e)) \<and> cwGet w u = Inr code))"

lemma checkURL_iff:
  "checkURL w u = Inr b \<longleftrightarrow> b \<and> (\<exists>code. answers w u code \<and> code < 400)"
  by (cases "cwNewRequest w u"; cases "cwHead w u"; cases "cwGet w u")
    (auto simp: checkURL_def answers_def)

lemma resolveURLFromSource_ingress:
  "usIngressRef src = Some ref \<Longrightarrow>
     resolveURLFromSource r ns (Some src) = resolveIngressURL r ns (lorName ref)"
  by (simp add: resolveURLFromSource_def resolveIngressURL_def)

text \<open>The URL a bookmark is checked at\<close>

definition checkedAt :: "Reader \<Rightarrow> Bookmark \<Rightarrow> string \<Rightarrow> bool" where
  "checkedAt r b u \<longleftrightarrow>
     (if not_blank (bsURL (bmSpec b)) then u = bsURL (bmSpec b)
      else bsURLFrom (bmSpec b) \<noteq> None \<and>
        resolveURLFromSource r (omNamespace (bmMeta b)) (bsURLFrom (bmSpec b)) = Inr u)"

lemma resolveAndCheckURL_reachable:
  "resolveAndCheckURL w r b = Inr True \<longleftrightarrow>
     (\<exists>u code. checkedAt r b u \<and> answers w u code \<and> code < 400)"
  by (auto simp: resolveAndCheckURL_def checkedAt_def not_blank_def checkURL_iff split: sum.split)

lemma bookmarkStatus_simps:
  "urlCheckDue w b \<Longrightarrow> bstLastURLCheckAt (bookmarkStatus w r b) = Some (cwNow w 1)"
  "urlCheckDue w b \<Longrightarrow> bstURLReachable (bookmarkStatus w r b) = Some (resolveAndCheckURL w r b = Inr True)"
  "\<not> urlCheckDue w b \<Longrightarrow> bookmarkStatus w r b = (bmStatus b)\<lparr>bstLastSyncedAt := Some (cwNow w 2)\<rparr>"
  by (auto simp: bookmarkStatus_def Let_def split: sum.split)

lemma ReconcileBookmark_Some:
  "ReconcileBookmark w r (Inr b) = (Some y, res) \<longleftrightarrow>
     y = b\<lparr>bmStatus := bookmarkStatus w r b\<rparr> \<and>
     res = (case cwUpdate w of Some e \<Rightarrow> failed e | None \<Rightarrow> requeue urlCheckInterval)"
  by (auto simp: ReconcileBookmark_def)

lemma count_fold:
  "fold (\<lambda>b n. if P b then n + 1 else n) xs (n :: int32) = n + of_nat (length (filter P xs))"
  by (induction xs arbitrary: n) (simp_all add: algebra_simps)

lemma checkedAt_cong: "bmMeta b = bmMeta b' \<Longrightarrow> bmSpec b = bmSpec b' \<Longrightarrow> checkedAt r b u = checkedAt r b' u"
  by (simp add: checkedAt_def)

lemma renderContent_cong: "itSpec t = itSpec t' \<Longrightarrow> renderContent w t = renderContent w t'"
  unfolding renderContent_def by (simp only:)

text \<open>The status that \<open>ReconcileInfoTile\<close> writes\<close>

definition infoTileStatus :: "TileWorld \<Rightarrow> InfoTile \<Rightarrow> InfoTileStatus" where
  "infoTileStatus w tile =
     (case renderContent w tile of
        Inl e \<Rightarrow> (itStatus tile)\<lparr>istLastFetchedAt := Some (cwNow (twControl w) 1),
                  istLastError := cwErrorText (twControl w) e\<rparr>
      | Inr content \<Rightarrow> (itStatus tile)\<lparr>istLastFetchedAt := Some (cwNow (twControl w) 1),
                  istLastError := [], istContent := content\<rparr>)"

lemma ReconcileInfoTile_status:
  "ReconcileInfoTile w (Inr tile) =
     (Some (tile\<lparr>itStatus := infoTileStatus w tile\<rparr>),
      istContent (infoTileStatus w tile) \<noteq> istContent (itStatus tile),
      case cwUpdate (twControl w) of Some e \<Rightarrow> failed e | None \<Rightarrow> requeue (tileInterval tile))"
  by (auto simp: ReconcileInfoTile_def infoTileStatus_def Let_def split: sum.split)

lemma stored_InfoTile:
  "stored reconcileInfoTile w tile =
     (if cwUpdate (twControl w) = None then tile\<lparr>itStatus := infoTileStatus w tile\<rparr> else tile)"
  by (auto simp: stored_def reconcileInfoTile_def ReconcileInfoTile_status failed_def requeue_def
      split: option.split)

text \<open>
  The dashboard is told about a change before the change is written: if the update of the status then
  fails, clients have been notified about content that is not stored.
\<close>

lemma notified_before_update:
  assumes "renderContent w tile = Inr content" and "content \<noteq> istContent (itStatus tile)"
    and "cwUpdate (twControl w) = Some e"
  shows "(\<exists>y. ReconcileInfoTile w (Inr tile) = (Some y, True, failed e)) \<and> stored reconcileInfoTile w tile = tile"
  using assms by (simp add: ReconcileInfoTile_status infoTileStatus_def stored_InfoTile)

lemma storedAfter_content:
  "istContent (itStatus (storedAfter reconcileInfoTile ws tile)) =
     fold (\<lambda>w content. case renderContent w tile of
             Inr new \<Rightarrow> if cwUpdate (twControl w) = None then new else content
           | Inl _ \<Rightarrow> content)
       ws (istContent (itStatus tile))"
proof (induction ws arbitrary: tile)
  case (Cons w ws)
  have "renderContent v (stored reconcileInfoTile w tile) = renderContent v tile" for v
    using info_tiles.stored_spec [of w tile] by (intro renderContent_cong) simp
  moreover have "istContent (itStatus (stored reconcileInfoTile w tile)) =
      (case renderContent w tile of
         Inr new \<Rightarrow> if cwUpdate (twControl w) = None then new else istContent (itStatus tile)
       | Inl _ \<Rightarrow> istContent (itStatus tile))"
    by (simp add: stored_InfoTile infoTileStatus_def split: sum.split)
  ultimately show ?case by (simp add: Cons.IH)
qed simp

text \<open>Whether a sequence of reconciliations calls \<open>Notify\<close>; one that does not leaves the content alone.\<close>

fun notified :: "TileWorld list \<Rightarrow> InfoTile \<Rightarrow> bool" where
  "notified [] tile \<longleftrightarrow> False"
| "notified (w # ws) tile \<longleftrightarrow>
     fst (snd (ReconcileInfoTile w (Inr tile))) \<or> notified ws (stored reconcileInfoTile w tile)"

lemma silent_content:
  "\<not> notified ws tile \<Longrightarrow> istContent (itStatus (storedAfter reconcileInfoTile ws tile)) = istContent (itStatus tile)"
  by (induction ws arbitrary: tile) (auto simp: ReconcileInfoTile_status stored_InfoTile)

lemma reachable_measured:
  assumes "bstURLReachable (bmStatus (storedAfter reconcileBookmark ws b)) = Some True"
  shows "bstURLReachable (bmStatus b) = Some True \<or>
    (\<exists>(w, r) \<in> set ws. \<exists>u code. checkedAt r b u \<and> answers w u code \<and> code < 400)"
proof -
  let ?I = "\<lambda>x. bstURLReachable (bmStatus x) = Some True \<longrightarrow>
    bstURLReachable (bmStatus b) = Some True \<or>
    (\<exists>(w, r) \<in> set ws. \<exists>u code. checkedAt r b u \<and> answers w u code \<and> code < 400)"
  have "?I (storedAfter reconcileBookmark ws b)"
  proof (rule bookmarks.storedAfter_inv)
    fix wr x y res
    assume wr: "wr \<in> set ws" and I: "?I x" and eq: "(bmMeta x, bmSpec x) = (bmMeta b, bmSpec b)"
      and step: "reconcileBookmark wr (Inr x) = (Some y, res)"
    obtain w r where [simp]: "wr = (w, r)" by fastforce
    have y: "y = x\<lparr>bmStatus := bookmarkStatus w r x\<rparr>"
      using step by (simp add: reconcileBookmark_def ReconcileBookmark_Some)
    show "?I y"
    proof (cases "urlCheckDue w x")
      case True
      then have "bstURLReachable (bmStatus y) =
          Some (\<exists>u code. checkedAt r b u \<and> answers w u code \<and> code < 400)"
        using eq checkedAt_cong [of x b r]
        by (simp add: y bookmarkStatus_simps resolveAndCheckURL_reachable)
      then show ?thesis using wr by force
    next
      case False
      then show ?thesis using I unfolding y by (simp add: bookmarkStatus_simps)
    qed
  qed simp
  then show ?thesis using assms by blast
qed

subsection \<open>Properties\<close>

text \<open>
  A bookmark's reachability is what was measured. Whatever sequence of reconciliations runs, in
  whatever worlds, if the stored bookmark ends up marked reachable, it was so at the start or in one
  of the reconciliations a request to the bookmark's URL was answered with a status below 400.
\<close>

theorem bookmark_reachable_measured:
  assumes "bstURLReachable (bmStatus (storedAfter reconcileBookmark ws b)) = Some True"
  shows "bstURLReachable (bmStatus b) = Some True \<or>
    (\<exists>(w, r) \<in> set ws. \<exists>u code. checkedAt r b u \<and> answers w u code \<and> code < 400)"
  using assms by (rule reachable_measured)

definition exampleControl :: ControlWorld where
  "exampleControl =
     \<lparr>cwNow = (\<lambda>n. 1000 * second + int n), cwIsNotFound = (\<lambda>e. e = External ''not found''),
      cwErrorText = (\<lambda>e. ''error''), cwUpdate = None, cwNewRequest = (\<lambda>_. None),
      cwHead = (\<lambda>u. if u = ''https://shop.example'' then Inr 405 else Inl (External ''refused'')),
      cwGet = (\<lambda>u. if u = ''https://shop.example'' then Inr 200 else Inl (External ''refused'')),
      cwStatusText = (\<lambda>_. ''text'')\<rparr>"

definition exampleBookmark :: Bookmark where
  "exampleBookmark =
     \<lparr>bmMeta = \<lparr>omNamespace = ''apps'', omName = ''shop'', omAnnotations = []\<rparr>,
      bmSpec = \<lparr>bsGroup = ''tools'', bsName = ''Shop'', bsURL = [],
        bsURLFrom = Some \<lparr>usIngressRef = Some \<lparr>lorName = ''shop''\<rparr>, usRouteRef = None,
          usIngressRouteRef = None, usHTTPRouteRef = None, usGRPCRouteRef = None, usServiceRef = None\<rparr>,
        bsTarget = [], bsIcon = [], bsNetworkRestricted = False, bsReplicate = False,
        bsGroups = [], bsProperties = []\<rparr>,
      bmStatus = \<lparr>bstURLReachable = None, bstLastURLCheckAt = None, bstURLCheckError = [],
        bstLastSyncedAt = None, bstConditions = []\<rparr>\<rparr>"

theorem bookmark_reachable_measured_witness:
  "\<exists>u code. checkedAt exampleReader exampleBookmark u \<and> answers exampleControl u code \<and> code < 400"
proof -
  have "bstURLReachable (bmStatus (storedAfter reconcileBookmark
      [(exampleControl, exampleReader)] exampleBookmark)) = Some True"
    by code_simp
  from bookmark_reachable_measured [OF this] show ?thesis
    by (simp add: exampleBookmark_def)
qed

text \<open>
  C30: one reconciliation of a bookmark in full. The written object differs from the one read in its
  status only; the next run is scheduled after the check interval unless the update failed; a check
  is made exactly if the last one is missing or at least the interval old, and then the result is
  reachable exactly if the resolved URL answered with a status below 400, with an error text kept
  only for a failed check; without a check the old result stays.
\<close>

theorem ReconcileBookmark_exact:
  "\<exists>st. ReconcileBookmark w r (Inr b) =
      (Some (b\<lparr>bmStatus := st\<rparr>),
       case cwUpdate w of Some e \<Rightarrow> failed e | None \<Rightarrow> requeue urlCheckInterval) \<and>
    bstLastSyncedAt st = Some (cwNow w 2) \<and>
    bstConditions st = bstConditions (bmStatus b) \<and>
    (if \<exists>t. bstLastURLCheckAt (bmStatus b) = Some t \<and> cwNow w 0 - t < urlCheckInterval
     then bstLastURLCheckAt st = bstLastURLCheckAt (bmStatus b) \<and>
       bstURLReachable st = bstURLReachable (bmStatus b) \<and>
       bstURLCheckError st = bstURLCheckError (bmStatus b)
     else bstLastURLCheckAt st = Some (cwNow w 1) \<and>
       bstURLReachable st = Some (\<exists>u code. checkedAt r b u \<and> answers w u code \<and> code < 400) \<and>
       bstURLCheckError st =
         (case resolveAndCheckURL w r b of Inl e \<Rightarrow> cwErrorText w e | Inr _ \<Rightarrow> []))"
proof -
  have due: "urlCheckDue w b \<longleftrightarrow>
      \<not> (\<exists>t. bstLastURLCheckAt (bmStatus b) = Some t \<and> cwNow w 0 - t < urlCheckInterval)"
    by (auto simp: urlCheckDue_def split: option.split)
  show ?thesis
    unfolding resolveAndCheckURL_reachable [symmetric] due [THEN arg_cong [of _ _ Not], simplified not_not, symmetric]
    by (rule exI [of _ "bookmarkStatus w r b"], cases "resolveAndCheckURL w r b")
      (auto simp: ReconcileBookmark_def bookmarkStatus_def Let_def)
qed

text \<open>
  C31: the bookmark controller resolves a reference like the webhook's resolver, which also prefers the
  ingress, as far as it goes: for an \<open>ingressRef\<close> the two agree, errors included; for every other
  kind of reference the controller's result is the empty URL.
\<close>

theorem resolveURLFromSource_agrees:
  "resolveURLFromSource r ns (Some src) =
     (if usIngressRef src = None then Inr [] else ResolveURLFromSource r ns (Some src))"
proof (cases "usIngressRef src")
  case None
  then show ?thesis by (simp add: resolveURLFromSource_def)
next
  case (Some ref)
  then show ?thesis by (simp add: resolveURLFromSource_ingress ResolveURLFromSource_def)
qed

text \<open>
  A group's counter. The reconciliation of a bookmark group stores, as a 32-bit number, how many
  bookmarks of the group's namespace name the group; with fewer than \<open>2^31\<close> of them that is their
  number.
\<close>

theorem ReconcileBookmarkGroup_counts:
  assumes "listIn (omNamespace (bgMeta g)) = Inr items"
    and "length items < 2 ^ 31"
  shows "\<exists>g' res. ReconcileBookmarkGroup w listIn (Inr g) = (Some g', res) \<and>
    bgMeta g' = bgMeta g \<and> bgSpec g' = bgSpec g \<and>
    sint (bgstBookmarkCount (bgStatus g')) =
      int (length (filter (\<lambda>b. bsGroup (bmSpec b) = omName (bgMeta g)) items)) \<and>
    rrError res = cwUpdate w"
proof -
  let ?n = "length (filter (\<lambda>b. bsGroup (bmSpec b) = omName (bgMeta g)) items)"
  have "?n < 2 ^ 31" using assms(2) length_filter_le le_less_trans by blast
  then have "sint (of_nat ?n :: int32) = int ?n"
    by (simp add: signed_of_nat signed_take_bit_int_eq_self_iff)
  with assms(1) show ?thesis
    by (auto simp: ReconcileBookmarkGroup_def count_fold failed_def noRequeue_def split: option.split)
qed

definition exampleGroup :: BookmarkGroup where
  "exampleGroup =
     \<lparr>bgMeta = \<lparr>omNamespace = ''apps'', omName = ''tools'', omAnnotations = []\<rparr>,
      bgSpec = \<lparr>bgsName = ''Tools'', bgsProperties = [], bgsReplicate = False\<rparr>,
      bgStatus = \<lparr>bgstBookmarkCount = 7, bgstLastSyncedAt = None, bgstConditions = []\<rparr>\<rparr>"

theorem ReconcileBookmarkGroup_counts_witness:
  "\<exists>g' res. ReconcileBookmarkGroup exampleControl (\<lambda>_. Inr [exampleBookmark]) (Inr exampleGroup) =
      (Some g', res) \<and> sint (bgstBookmarkCount (bgStatus g')) = 1"
  using ReconcileBookmarkGroup_counts
    [of "\<lambda>_. Inr [exampleBookmark]" exampleGroup "[exampleBookmark]" exampleControl]
  by (auto simp: exampleBookmark_def exampleGroup_def)

text \<open>
  C28: an info tile shows the last good content. After any sequence of reconciliations the stored
  content is what the last successful fetch and rendering gave whose update of the status was
  accepted, and the content from before if there was none: a failing source never blanks the tile.
\<close>

theorem infoTile_keeps_content:
  "istContent (itStatus (storedAfter reconcileInfoTile ws tile)) =
     fold (\<lambda>w content. case renderContent w tile of
             Inr new \<Rightarrow> if cwUpdate (twControl w) = None then new else content
           | Inl _ \<Rightarrow> content)
       ws (istContent (itStatus tile))"
  by (rule storedAfter_content)

text \<open>
  C29: one reconciliation of an info tile. Only the status changes; a failed fetch or template leaves
  the content and records the error, a success records the content and clears the error; the
  dashboard is notified exactly if the content changed; and the next run follows after a positive
  interval, the configured one if that is positive.
\<close>

theorem ReconcileInfoTile_exact:
  "\<exists>st. ReconcileInfoTile w (Inr tile) =
      (Some (tile\<lparr>itStatus := st\<rparr>),
       istContent st \<noteq> istContent (itStatus tile),
       case cwUpdate (twControl w) of Some e \<Rightarrow> failed e | None \<Rightarrow> requeue (tileInterval tile)) \<and>
    istLastFetchedAt st = Some (cwNow (twControl w) 1) \<and>
    (case renderContent w tile of
       Inl e \<Rightarrow> istContent st = istContent (itStatus tile) \<and> istLastError st = cwErrorText (twControl w) e
     | Inr new \<Rightarrow> istContent st = new \<and> istLastError st = []) \<and>
    tileInterval tile > 0 \<and>
    (case isInterval (itSpec tile) of
       Some d \<Rightarrow> tileInterval tile = (if d > 0 then d else 60 * second)
     | None \<Rightarrow> tileInterval tile = 60 * second)"
proof -
  have "tileInterval tile > 0"
    by (auto simp: tileInterval_def defaultInfoTileInterval_def second_def split: option.split)
  moreover have "case isInterval (itSpec tile) of
       Some d \<Rightarrow> tileInterval tile = (if d > 0 then d else 60 * second)
     | None \<Rightarrow> tileInterval tile = 60 * second"
    by (simp add: tileInterval_def defaultInfoTileInterval_def split: option.split)
  ultimately show ?thesis
    by (intro exI [of _ "infoTileStatus w tile"] conjI ReconcileInfoTile_status)
      (simp_all add: infoTileStatus_def split: sum.split)
qed

end
