(* ===== verification/Webhooks.thy ===== *)
theory Webhooks
  imports Url_Resolver
begin

text \<open>
  The validating webhooks of \<open>internal/webhook/dashboard/v1alpha1\<close>. An admission is \<open>None\<close>, a refusal the
  error; warnings are never returned. \<open>parseURI\<close> is \<open>url.ParseRequestURI\<close> (the scheme of the result)
  and \<open>errText\<close> is \<open>Error()\<close>.
\<close>

definition validateHTTPURL :: "(string \<Rightarrow> error + string) \<Rightarrow> string \<Rightarrow> error option" where
  "validateHTTPURL parseURI rawURL =
     (case parseURI rawURL of
        Inl e \<Rightarrow> Some (Errorf ''invalid URL: %w'' [] (Some e))
      | Inr scheme \<Rightarrow>
          (if scheme \<noteq> ''http'' \<and> scheme \<noteq> ''https'' then
             Some (Errorf ''scheme must be http or https'' [] None)
           else None))"

definition validateTarget :: "string \<Rightarrow> error option" where
  "validateTarget target =
     (if target = [] \<or> target = BookmarkLinkTargetSelf \<or> target = BookmarkLinkTargetBlank \<or>
         target = BookmarkLinkTargetParent \<or> target = BookmarkLinkTargetTop
      then None else Some (Errorf ''unsupported target %q'' [target] None))"

definition bookmarkValidationError :: "Bookmark \<Rightarrow> string \<Rightarrow> error" where
  "bookmarkValidationError obj msg =
     Errorf ''Bookmark.dashboard.netztronaut.de %q is invalid: spec: Invalid value: %s''
       [omName (bmMeta obj), msg] None"

definition validateBookmark ::
    "(error \<Rightarrow> string) \<Rightarrow> (string \<Rightarrow> error + string) \<Rightarrow> Bookmark \<Rightarrow> error option" where
  "validateBookmark errText parseURI bookmark =
     (let hasURL = TrimSpace (bsURL (bmSpec bookmark)) \<noteq> [];
          hasURLFrom = bsURLFrom (bmSpec bookmark) \<noteq> None in
      if hasURL \<and> hasURLFrom then
        Some (bookmarkValidationError bookmark ''spec.url and spec.urlFrom are mutually exclusive'')
      else if \<not> hasURL \<and> \<not> hasURLFrom then
        Some (bookmarkValidationError bookmark ''one of spec.url or spec.urlFrom must be set'')
      else
        (case (if hasURL then validateHTTPURL parseURI (bsURL (bmSpec bookmark)) else None) of
           Some e \<Rightarrow> Some (bookmarkValidationError bookmark (''spec.url: '' @ errText e))
         | None \<Rightarrow>
             (case validateTarget (bsTarget (bmSpec bookmark)) of
                Some e \<Rightarrow> Some (bookmarkValidationError bookmark (''spec.target: '' @ errText e))
              | None \<Rightarrow> None)))"

datatype 'a admissionRequest = Create 'a | Update 'a 'a | Delete 'a

fun admitBookmark ::
    "(error \<Rightarrow> string) \<Rightarrow> (string \<Rightarrow> error + string) \<Rightarrow> Bookmark admissionRequest \<Rightarrow> error option" where
  "admitBookmark errText parseURI (Create obj) = validateBookmark errText parseURI obj"
| "admitBookmark errText parseURI (Update old new) = validateBookmark errText parseURI new"
| "admitBookmark errText parseURI (Delete obj) = None"

definition validateBookmarkGroup :: "BookmarkGroup \<Rightarrow> error option" where
  "validateBookmarkGroup obj = None"

fun admitBookmarkGroup :: "BookmarkGroup admissionRequest \<Rightarrow> error option" where
  "admitBookmarkGroup (Create obj) = validateBookmarkGroup obj"
| "admitBookmarkGroup (Update old new) = validateBookmarkGroup new"
| "admitBookmarkGroup (Delete obj) = None"

subsection \<open>Lemmas\<close>

lemma validateTarget_None:
  "validateTarget t = None \<longleftrightarrow> t \<in> {[], ''_self'', ''_blank'', ''_parent'', ''_top''}"
  by (simp add: validateTarget_def BookmarkLinkTargetSelf_def BookmarkLinkTargetBlank_def
      BookmarkLinkTargetParent_def BookmarkLinkTargetTop_def)

lemma validateHTTPURL_None:
  "validateHTTPURL parseURI u = None \<longleftrightarrow> parseURI u = Inr ''http'' \<or> parseURI u = Inr ''https''"
  by (auto simp: validateHTTPURL_def split: sum.split)

subsection \<open>Properties\<close>

text \<open>
  C32: what the webhook admits. Creating or updating a bookmark is admitted exactly if either a
  non-blank URL is given, which parses with scheme http or https, or a reference to take it from,
  but not both, and the link target is empty or one of the four known ones; deletion always is.
\<close>

theorem admitBookmark_iff:
  "admitBookmark errText parseURI (Delete b) = None \<and>
   (admitBookmark errText parseURI (Update old b) = admitBookmark errText parseURI (Create b)) \<and>
   (admitBookmark errText parseURI (Create b) = None \<longleftrightarrow>
     (if not_blank (bsURL (bmSpec b))
      then bsURLFrom (bmSpec b) = None \<and>
        (parseURI (bsURL (bmSpec b)) = Inr ''http'' \<or> parseURI (bsURL (bmSpec b)) = Inr ''https'')
      else bsURLFrom (bmSpec b) \<noteq> None) \<and>
     bsTarget (bmSpec b) \<in> {[], ''_self'', ''_blank'', ''_parent'', ''_top''})"
  unfolding validateTarget_None [symmetric] validateHTTPURL_None [symmetric]
  by (auto simp: validateBookmark_def not_blank_def Let_def split: option.split)

end
