(* ===== verification/Go_Heap.thy ===== *)
theory Go_Heap
  imports Go_Runtime "HOL-Library.State_Monad"
begin

text \<open>
  Go's heap, for code whose correctness is about sharing. A heap is the list of the objects
  allocated so far, each one cell: what \<open>new\<close> or \<open>make\<close> returns is an address, the index of the
  cell; a nil pointer, slice or map is \<open>None\<close>. Code that allocates runs in the state monad over the
  heap. The cells are those of the client: the type of cells is a parameter here.

  What a value means in a heap is an observation: the value it denotes with every pointer
  followed, and the addresses of the cells on the way, its footprint. The locale \<open>copier\<close> is the contract
  of a function that copies such values deeply; the combinators below it build a copier for a
  struct out of copiers for its fields.
\<close>

type_synonym addr = nat

type_synonym ('c, 'a) go = "('c list, 'a) state"

type_synonym ('c, 'a, 'v) observer = "'c list \<Rightarrow> 'a \<Rightarrow> ('v \<times> addr list) option"

definition load :: "'c list \<Rightarrow> addr \<Rightarrow> 'c option" where
  "load h a = (if a < length h then Some (h ! a) else None)"

definition alloc :: "'c \<Rightarrow> ('c, addr) go" where
  "alloc c = State (\<lambda>h. (length h, h @ [c]))"

definition loaded :: "('c \<Rightarrow> 'a option) \<Rightarrow> addr \<Rightarrow> ('c, 'a option) go" where
  "loaded sel a = State (\<lambda>h. (Option.bind (load h a) sel, h))"

lemma load_append [simp]: "a < length h \<Longrightarrow> load (h @ k) a = load h a"
  by (simp add: load_def nth_append)

lemma load_Some [dest]: "load h a = Some c \<Longrightarrow> a < length h"
  by (simp add: load_def split: if_splits)

lemma run_alloc [simp]: "run_state (alloc c) h = (length h, h @ [c])"
  by (simp add: alloc_def)

lemma run_loaded [simp]: "run_state (loaded sel a) h = (Option.bind (load h a) sel, h)"
  by (simp add: loaded_def)

lemma load_alloc [simp]: "load (h @ [c]) (length h) = Some c"
  by (simp add: load_def)

section \<open>The contract of a deep copy\<close>

locale copier =
  fixes copy :: "'a \<Rightarrow> ('c, 'a) go"
    and obs :: "('c, 'a, 'v) observer"
  assumes obs_dom: "obs h x = Some (v, as) \<Longrightarrow> a \<in> set as \<Longrightarrow> a < length h"
    and obs_local: "obs h x = Some (v, as) \<Longrightarrow> (\<And>a. a \<in> set as \<Longrightarrow> load h' a = load h a) \<Longrightarrow>
      obs h' x = Some (v, as)"
    and copy_fresh: "obs h x = Some (v, as) \<Longrightarrow>
      \<exists>y k bs. run_state (copy x) h = (y, h @ k) \<and> obs (h @ k) y = Some (v, bs) \<and>
        (\<forall>b \<in> set bs. length h \<le> b)"
begin

lemma obs_append: "obs h x = Some (v, as) \<Longrightarrow> obs (h @ k) x = Some (v, as)"
  using obs_local [of h x v as "h @ k"] obs_dom [of h x v as] by simp

lemma copyE:
  assumes "obs h x = Some (v, as)"
  obtains y k bs where "run_state (copy x) h = (y, h @ k)" "obs (h @ k) y = Some (v, bs)"
    "\<And>b. b \<in> set bs \<Longrightarrow> length h \<le> b"
  using copy_fresh [OF assms] by blast

lemma copy_independent:
  assumes "obs h x = Some (v, as)"
  shows "\<exists>y k bs. run_state (copy x) h = (y, h @ k) \<and> obs (h @ k) x = Some (v, as) \<and>
      obs (h @ k) y = Some (v, bs) \<and> set as \<inter> set bs = {}"
proof -
  obtain y k bs where y: "run_state (copy x) h = (y, h @ k)" "obs (h @ k) y = Some (v, bs)"
    "\<And>b. b \<in> set bs \<Longrightarrow> length h \<le> b"
    by (rule copyE [OF assms]) blast
  have "set as \<inter> set bs = {}" using obs_dom [OF assms] y(3) by fastforce
  with y(1,2) obs_append [OF assms] show ?thesis by blast
qed

end

section \<open>Combinators\<close>

text \<open>A struct without references: \<open>*out = *in\<close>.\<close>

definition obsFlat :: "('c, 'a, 'a) observer" where
  "obsFlat h x = Some (x, [])"

lemma copier_flat: "copier State_Monad.return obsFlat"
  by unfold_locales (auto simp: obsFlat_def)

text \<open>Two fields, one after the other.\<close>

definition copyPair :: "('a \<Rightarrow> ('c, 'a) go) \<Rightarrow> ('b \<Rightarrow> ('c, 'b) go) \<Rightarrow> 'a \<times> 'b \<Rightarrow> ('c, 'a \<times> 'b) go" where
  "copyPair c1 c2 p = do { y1 \<leftarrow> c1 (fst p); y2 \<leftarrow> c2 (snd p); State_Monad.return (y1, y2) }"

definition obsPair :: "('c, 'a, 'v) observer \<Rightarrow> ('c, 'b, 'w) observer \<Rightarrow> ('c, 'a \<times> 'b, 'v \<times> 'w) observer" where
  "obsPair o1 o2 h p =
     (case (o1 h (fst p), o2 h (snd p)) of
        (Some (v, as), Some (w, bs)) \<Rightarrow> Some ((v, w), as @ bs) | _ \<Rightarrow> None)"

lemma copier_pair:
  assumes "copier c1 o1" and "copier c2 o2"
  shows "copier (copyPair c1 c2) (obsPair o1 o2)"
proof -
  note A = assms(1) and B = assms(2)
  show ?thesis
  proof
    fix h p vw as a
    assume "obsPair o1 o2 h p = Some (vw, as)" "a \<in> set as"
    then show "a < length h"
      using copier.obs_dom [OF A] copier.obs_dom [OF B]
      by (auto simp: obsPair_def split: option.splits)
  next
    fix h h' p vw as
    assume p: "obsPair o1 o2 h p = Some (vw, as)" and eq: "\<And>a. a \<in> set as \<Longrightarrow> load h' a = load h a"
    then obtain v w as1 as2 where
      1: "o1 h (fst p) = Some (v, as1)" and 2: "o2 h (snd p) = Some (w, as2)" and
      vw: "vw = (v, w)" "as = as1 @ as2"
      by (auto simp: obsPair_def split: option.splits)
    have "o1 h' (fst p) = Some (v, as1)" by (rule copier.obs_local [OF A 1]) (simp add: eq vw)
    moreover have "o2 h' (snd p) = Some (w, as2)" by (rule copier.obs_local [OF B 2]) (simp add: eq vw)
    ultimately show "obsPair o1 o2 h' p = Some (vw, as)" by (simp add: obsPair_def vw)
  next
    fix h p vw as
    assume "obsPair o1 o2 h p = Some (vw, as)"
    then obtain v w as1 as2 where
      1: "o1 h (fst p) = Some (v, as1)" and 2: "o2 h (snd p) = Some (w, as2)" and vw: "vw = (v, w)"
      by (auto simp: obsPair_def split: option.splits)
    obtain y1 k1 bs1 where y1: "run_state (c1 (fst p)) h = (y1, h @ k1)"
      "o1 (h @ k1) y1 = Some (v, bs1)" "\<And>b. b \<in> set bs1 \<Longrightarrow> length h \<le> b"
      by (rule copier.copyE [OF A 1]) blast
    obtain y2 k2 bs2 where y2: "run_state (c2 (snd p)) (h @ k1) = (y2, (h @ k1) @ k2)"
      "o2 ((h @ k1) @ k2) y2 = Some (w, bs2)" "\<And>b. b \<in> set bs2 \<Longrightarrow> length (h @ k1) \<le> b"
      by (rule copier.copyE [OF B copier.obs_append [OF B 2]]) blast
    have "o1 ((h @ k1) @ k2) y1 = Some (v, bs1)" by (rule copier.obs_append [OF A y1(2)])
    moreover have "run_state (copyPair c1 c2 p) h = ((y1, y2), h @ k1 @ k2)"
      using y1(1) y2(1) by (simp add: copyPair_def)
    ultimately show "\<exists>y k bs. run_state (copyPair c1 c2 p) h = (y, h @ k) \<and>
        obsPair o1 o2 (h @ k) y = Some (vw, bs) \<and> (\<forall>b \<in> set bs. length h \<le> b)"
      using y2(2,3) y1(3)
      by (intro exI [of _ "(y1, y2)"] exI [of _ "k1 @ k2"] exI [of _ "bs1 @ bs2"])
        (fastforce simp: obsPair_def vw)
  qed
qed

text \<open>The elements of a slice of structs, in the order of the loop.\<close>

primrec copyList :: "('a \<Rightarrow> ('c, 'a) go) \<Rightarrow> 'a list \<Rightarrow> ('c, 'a list) go" where
  "copyList c [] = State_Monad.return []"
| "copyList c (x # xs) = do { y \<leftarrow> c x; ys \<leftarrow> copyList c xs; State_Monad.return (y # ys) }"

primrec obsList :: "('c, 'a, 'v) observer \<Rightarrow> 'c list \<Rightarrow> 'a list \<Rightarrow> ('v list \<times> addr list) option" where
  "obsList ob h [] = Some ([], [])"
| "obsList ob h (x # xs) =
     (case (ob h x, obsList ob h xs) of
        (Some (v, as), Some (vs, bs)) \<Rightarrow> Some (v # vs, as @ bs) | _ \<Rightarrow> None)"

lemma obsList_Cons:
  "obsList ob h (x # xs) = Some (vs, as) \<longleftrightarrow>
     (\<exists>w ws as1 as2. ob h x = Some (w, as1) \<and> obsList ob h xs = Some (ws, as2) \<and>
        vs = w # ws \<and> as = as1 @ as2)"
  by (auto split: option.splits)

lemma copier_list:
  assumes A: "copier c ob"
  shows "copier (copyList c) (obsList ob)"
proof
  fix h xs vs as a
  show "obsList ob h xs = Some (vs, as) \<Longrightarrow> a \<in> set as \<Longrightarrow> a < length h"
    by (induction xs arbitrary: vs as) (auto simp: obsList_Cons simp del: obsList.simps(2)
        dest: copier.obs_dom [OF A])
next
  fix h h' xs vs as
  show "obsList ob h xs = Some (vs, as) \<Longrightarrow> (\<And>a. a \<in> set as \<Longrightarrow> load h' a = load h a) \<Longrightarrow>
      obsList ob h' xs = Some (vs, as)"
  proof (induction xs arbitrary: vs as)
    case (Cons x xs)
    from Cons.prems(1) obtain w ws as1 as2 where 1: "ob h x = Some (w, as1)"
      and 2: "obsList ob h xs = Some (ws, as2)" and vs: "vs = w # ws" "as = as1 @ as2"
      unfolding obsList_Cons by blast
    have "ob h' x = Some (w, as1)" by (rule copier.obs_local [OF A 1]) (simp add: Cons.prems(2) vs)
    moreover have "obsList ob h' xs = Some (ws, as2)" by (rule Cons.IH [OF 2]) (simp add: Cons.prems(2) vs)
    ultimately show ?case by (simp add: vs)
  qed simp
next
  fix h xs vs as
  show "obsList ob h xs = Some (vs, as) \<Longrightarrow>
      \<exists>ys k bs. run_state (copyList c xs) h = (ys, h @ k) \<and> obsList ob (h @ k) ys = Some (vs, bs) \<and>
        (\<forall>b \<in> set bs. length h \<le> b)"
  proof (induction xs arbitrary: h vs as)
    case (Cons x xs)
    from Cons.prems obtain w ws as1 as2 where 1: "ob h x = Some (w, as1)"
      and 2: "obsList ob h xs = Some (ws, as2)" and vs: "vs = w # ws" "as = as1 @ as2"
      unfolding obsList_Cons by blast
    obtain y k1 bs1 where y: "run_state (c x) h = (y, h @ k1)" "ob (h @ k1) y = Some (w, bs1)"
      "\<And>b. b \<in> set bs1 \<Longrightarrow> length h \<le> b"
      by (rule copier.copyE [OF A 1]) blast
    have "ob (h @ k1) z = Some (v, us)" if "ob h z = Some (v, us)" for z v us
      using that by (rule copier.obs_append [OF A])
    then have "obsList ob (h @ k1) zs = Some r" if "obsList ob h zs = Some r" for zs r
      using that
      by (induction zs arbitrary: r) (auto simp: obsList_Cons simp del: obsList.simps(2))
    from Cons.IH [OF this [OF 2]] obtain ys k2 bs2 where
      ys: "run_state (copyList c xs) (h @ k1) = (ys, (h @ k1) @ k2)"
      "obsList ob ((h @ k1) @ k2) ys = Some (ws, bs2)" "\<forall>b \<in> set bs2. length (h @ k1) \<le> b"
      by blast
    have "ob ((h @ k1) @ k2) y = Some (w, bs1)" by (rule copier.obs_append [OF A y(2)])
    with y(1,3) ys show ?case
      by (intro exI [of _ "y # ys"] exI [of _ "k1 @ k2"] exI [of _ "bs1 @ bs2"]) (fastforce simp: vs)
  qed simp
qed

text \<open>
  A struct: the fields that need a copy are \<open>parts s\<close>, and \<open>put s t\<close> is the struct with these fields
  replaced. The value of the struct is made from the values of the parts and of the other fields.
\<close>

definition copyStruct :: "('s \<Rightarrow> 't) \<Rightarrow> ('s \<Rightarrow> 't \<Rightarrow> 's) \<Rightarrow> ('t \<Rightarrow> ('c, 't) go) \<Rightarrow> 's \<Rightarrow> ('c, 's) go" where
  "copyStruct parts put c s = do { t \<leftarrow> c (parts s); State_Monad.return (put s t) }"

definition obsStruct :: "('s \<Rightarrow> 't) \<Rightarrow> ('s \<Rightarrow> 'w \<Rightarrow> 'v) \<Rightarrow> ('c, 't, 'w) observer \<Rightarrow> ('c, 's, 'v) observer" where
  "obsStruct parts mk ob h s = map_option (map_prod (mk s) id) (ob h (parts s))"

lemma copier_struct:
  assumes "copier c ob" and "\<And>s t. parts (put s t) = t" and "\<And>s t. mk (put s t) = mk s"
  shows "copier (copyStruct parts put c) (obsStruct parts mk ob)"
proof -
  note A = assms(1)
  show ?thesis
  proof
    fix h s v as a
    assume "obsStruct parts mk ob h s = Some (v, as)" "a \<in> set as"
    then show "a < length h" using copier.obs_dom [OF A] by (auto simp: obsStruct_def)
  next
    fix h h' s v as
    assume "obsStruct parts mk ob h s = Some (v, as)" and eq: "\<And>a. a \<in> set as \<Longrightarrow> load h' a = load h a"
    then obtain w where w: "ob h (parts s) = Some (w, as)" "v = mk s w" by (auto simp: obsStruct_def)
    from copier.obs_local [OF A w(1) eq] w(2) show "obsStruct parts mk ob h' s = Some (v, as)"
      by (simp add: obsStruct_def)
  next
    fix h s v as
    assume "obsStruct parts mk ob h s = Some (v, as)"
    then obtain w where w: "ob h (parts s) = Some (w, as)" "v = mk s w" by (auto simp: obsStruct_def)
    obtain t k bs where "run_state (c (parts s)) h = (t, h @ k)" "ob (h @ k) t = Some (w, bs)"
      "\<And>b. b \<in> set bs \<Longrightarrow> length h \<le> b"
      by (rule copier.copyE [OF A w(1)]) blast
    then show "\<exists>y k bs. run_state (copyStruct parts put c s) h = (y, h @ k) \<and>
        obsStruct parts mk ob (h @ k) y = Some (v, bs) \<and> (\<forall>b \<in> set bs. length h \<le> b)"
      using w(2)
      by (intro exI [of _ "put s t"] exI [of _ k] exI [of _ bs])
        (simp add: copyStruct_def obsStruct_def assms(2,3))
  qed
qed

lemma copier_structI:
  assumes "copier c ob" and "\<And>s. f s = copyStruct parts put c s"
    and "\<And>s t. parts (put s t) = t" and "\<And>s t. mk (put s t) = mk s"
  shows "copier f (obsStruct parts mk ob)"
proof -
  have "f = copyStruct parts put c" using assms(2) by (intro ext)
  with copier_struct [OF assms(1,3,4)] show ?thesis by simp
qed

text \<open>
  A pointer to a cell, with \<open>new(T)\<close> and a copy of what it points to; a slice or a map is the
  reference to the cell with its elements. \<open>sel\<close> reads a cell of the type the pointer has in the
  program, \<open>C\<close> makes one. Addresses of another type do not occur in Go; an observation excludes them.
\<close>

definition copyPtr :: "('a \<Rightarrow> 'c) \<Rightarrow> ('c \<Rightarrow> 'a option) \<Rightarrow> ('a \<Rightarrow> ('c, 'a) go) \<Rightarrow> addr option \<Rightarrow> ('c, addr option) go" where
  "copyPtr C sel c p =
     (case p of
        None \<Rightarrow> State_Monad.return None
      | Some a \<Rightarrow> do {
          cell \<leftarrow> loaded sel a;
          case cell of
            None \<Rightarrow> State_Monad.return None
          | Some x \<Rightarrow> do { y \<leftarrow> c x; b \<leftarrow> alloc (C y); State_Monad.return (Some b) } })"

definition obsPtr :: "('c \<Rightarrow> 'a option) \<Rightarrow> ('c, 'a, 'v) observer \<Rightarrow> ('c, addr option, 'v option) observer" where
  "obsPtr sel ob h p =
     (case p of
        None \<Rightarrow> Some (None, [])
      | Some a \<Rightarrow> (case Option.bind (load h a) sel of
                     None \<Rightarrow> None
                   | Some x \<Rightarrow> map_option (\<lambda>(v, as). (Some v, a # as)) (ob h x)))"

lemma obsPtr_Some:
  "obsPtr sel ob h (Some a) = Some (v, as) \<longleftrightarrow>
     (\<exists>c x w as'. load h a = Some c \<and> sel c = Some x \<and> ob h x = Some (w, as') \<and> v = Some w \<and> as = a # as')"
  by (auto simp: obsPtr_def split: option.splits bind_splits)

lemma obsPtr_None [simp]: "obsPtr sel ob h None = Some (None, [])"
  by (simp add: obsPtr_def)

lemma copier_ptr:
  assumes A: "copier c ob" and sel: "\<And>x. sel (C x) = Some x"
  shows "copier (copyPtr C sel c) (obsPtr sel ob)"
proof
  fix h p v as a
  assume "obsPtr sel ob h p = Some (v, as)" "a \<in> set as"
  then show "a < length h"
    by (cases p) (auto simp: obsPtr_Some dest: copier.obs_dom [OF A])
next
  fix h h' p v as
  assume "obsPtr sel ob h p = Some (v, as)" "\<And>a. a \<in> set as \<Longrightarrow> load h' a = load h a"
  then show "obsPtr sel ob h' p = Some (v, as)"
    by (cases p) (auto simp: obsPtr_Some intro!: copier.obs_local [OF A, where h = h])
next
  fix h p v as
  assume p: "obsPtr sel ob h p = Some (v, as)"
  show "\<exists>q k bs. run_state (copyPtr C sel c p) h = (q, h @ k) \<and> obsPtr sel ob (h @ k) q = Some (v, bs) \<and>
      (\<forall>b \<in> set bs. length h \<le> b)"
  proof (cases p)
    case (Some a)
    with p obtain cell x w as' where a: "load h a = Some cell" "sel cell = Some x"
      "ob h x = Some (w, as')" "v = Some w"
      by (auto simp: obsPtr_Some)
    obtain y k bs where y: "run_state (c x) h = (y, h @ k)" "ob (h @ k) y = Some (w, bs)"
      "\<And>b. b \<in> set bs \<Longrightarrow> length h \<le> b"
      by (rule copier.copyE [OF A a(3)]) blast
    have "ob ((h @ k) @ [C y]) y = Some (w, bs)" by (rule copier.obs_append [OF A y(2)])
    moreover have "load ((h @ k) @ [C y]) (length (h @ k)) = Some (C y)" by (rule load_alloc)
    ultimately show ?thesis
      using y(1,3) a Some
      by (intro exI [of _ "Some (length (h @ k))"] exI [of _ "k @ [C y]"] exI [of _ "length (h @ k) # bs"])
        (auto simp: copyPtr_def obsPtr_Some sel)
  qed (use p in \<open>auto simp: copyPtr_def\<close>)
qed

text \<open>Another view of the same value, as that of a nil slice as the empty list.\<close>

definition obsView :: "('v \<Rightarrow> 'w) \<Rightarrow> ('c, 'a, 'v) observer \<Rightarrow> ('c, 'a, 'w) observer" where
  "obsView f ob h x = map_option (map_prod f id) (ob h x)"

lemma copier_view: "copier c ob \<Longrightarrow> copier c (obsView f ob)"
  using copier_struct [of c ob id "\<lambda>_ t. t" "\<lambda>_. f"]
  by (simp add: copyStruct_def [abs_def] obsStruct_def [abs_def] obsView_def [abs_def])

text \<open>A map, element by element into a new one.\<close>

definition copyMap :: "('k, 'v) gomap \<Rightarrow> ('c, ('k, 'v) gomap) go" where
  "copyMap m = State_Monad.return (fold (\<lambda>(key, val) out. gm_set out key val) m [])"

definition obsMap :: "('c, ('k, 'v) gomap, ('k, 'v) gomap) observer" where
  "obsMap h m = (if gm_wf m then Some (m, []) else None)"

lemma gm_set_fresh: "k \<notin> set (gm_keys m) \<Longrightarrow> gm_set m k v = m @ [(k, v)]"
  unfolding gm_set_def gm_keys_def by (induction m) auto

lemma fold_gm_set_id:
  "distinct (gm_keys (acc @ m)) \<Longrightarrow> fold (\<lambda>(key, val) out. gm_set out key val) m acc = acc @ m"
proof (induction m arbitrary: acc)
  case (Cons kv m)
  obtain k v where kv: "kv = (k, v)" by force
  with Cons.prems have "k \<notin> set (gm_keys acc)" by (auto simp: gm_keys_def)
  then show ?case using Cons.IH [of "acc @ [kv]"] Cons.prems by (simp add: gm_set_fresh kv)
qed simp

lemma copier_map: "copier copyMap obsMap"
  by unfold_locales
    (auto simp: obsMap_def copyMap_def gm_wf_def fold_gm_set_id [of "[]", simplified] split: if_splits)

text \<open>A method that copies what a non-nil pointer refers to, called where the pointer is not nil.\<close>

definition copyOpt :: "('a \<Rightarrow> ('c, 'a) go) \<Rightarrow> 'a option \<Rightarrow> ('c, 'a option) go" where
  "copyOpt c p =
     (case p of
        None \<Rightarrow> State_Monad.return None
      | Some x \<Rightarrow> do { y \<leftarrow> c x; State_Monad.return (Some y) })"

definition obsOpt :: "('c, 'a, 'v) observer \<Rightarrow> ('c, 'a option, 'v option) observer" where
  "obsOpt ob h p =
     (case p of None \<Rightarrow> Some (None, []) | Some x \<Rightarrow> map_option (map_prod Some id) (ob h x))"

lemma copier_opt:
  assumes A: "copier c ob"
  shows "copier (copyOpt c) (obsOpt ob)"
proof
  fix h p v as a
  assume "obsOpt ob h p = Some (v, as)" "a \<in> set as"
  then show "a < length h"
    by (cases p) (auto simp: obsOpt_def dest: copier.obs_dom [OF A])
next
  fix h h' p v as
  assume p: "obsOpt ob h p = Some (v, as)" and eq: "\<And>a. a \<in> set as \<Longrightarrow> load h' a = load h a"
  show "obsOpt ob h' p = Some (v, as)"
  proof (cases p)
    case (Some x)
    with p obtain w where "ob h x = Some (w, as)" "v = Some w" by (auto simp: obsOpt_def)
    with copier.obs_local [OF A this(1) eq] Some show ?thesis by (simp add: obsOpt_def)
  qed (use p in \<open>simp add: obsOpt_def\<close>)
next
  fix h p v as
  assume p: "obsOpt ob h p = Some (v, as)"
  show "\<exists>q k bs. run_state (copyOpt c p) h = (q, h @ k) \<and> obsOpt ob (h @ k) q = Some (v, bs) \<and>
      (\<forall>b \<in> set bs. length h \<le> b)"
  proof (cases p)
    case (Some x)
    with p obtain w where w: "ob h x = Some (w, as)" "v = Some w" by (auto simp: obsOpt_def)
    obtain y k bs where "run_state (c x) h = (y, h @ k)" "ob (h @ k) y = Some (w, bs)"
      "\<And>b. b \<in> set bs \<Longrightarrow> length h \<le> b"
      by (rule copier.copyE [OF A w(1)]) blast
    with w Some show ?thesis
      by (intro exI [of _ "Some y"] exI [of _ k] exI [of _ bs]) (simp add: copyOpt_def obsOpt_def)
  qed (use p in \<open>auto simp: copyOpt_def obsOpt_def\<close>)
qed

end
