(* ===== verification/Deep_Copy.thy ===== *)
theory Deep_Copy
  imports Api_Types Go_Heap
begin

text \<open>
  The deep copies of the custom resources, \<open>zz_generated.deepcopy.go\<close> in \<open>api/dashboard/v1alpha1\<close> and
  \<open>api/forecastle/v1alpha1\<close>. The cache of the manager hands out copies made by these methods, and the
  controllers write into them, so they must share nothing with the cache.

  A record \<open>go...\<close> is a struct as it lies in memory: pointers, slices and maps are references into
  the heap of \<open>Go_Heap\<close>. \<open>DeepCopyInto\<close> returns what it leaves in \<open>*out\<close>, \<open>DeepCopy\<close> allocates the
  copy, \<open>DeepCopyObject\<close> wraps its pointer into the interface \<open>runtime.Object\<close>. The observers \<open>obs...\<close>
  read a struct as the record of \<open>Api_Types\<close> that the other theories work on.
\<close>

section \<open>Structs in memory\<close>

record goURLSource =
  guIngressRef :: "addr option"
  guRouteRef :: "addr option"
  guIngressRouteRef :: "addr option"
  guHTTPRouteRef :: "addr option"
  guGRPCRouteRef :: "addr option"
  guServiceRef :: "addr option"

record goBookmarkSpec =
  gbsGroup :: string
  gbsName :: string
  gbsURL :: string
  gbsURLFrom :: "addr option"
  gbsTarget :: string
  gbsIcon :: string
  gbsNetworkRestricted :: bool
  gbsReplicate :: bool
  gbsGroups :: "addr option"
  gbsProperties :: "addr option"

record goBookmarkStatus =
  gbstURLReachable :: "addr option"
  gbstLastURLCheckAt :: "addr option"
  gbstURLCheckError :: string
  gbstLastSyncedAt :: "addr option"
  gbstConditions :: "addr option"

text \<open>
  Objects and lists; \<open>'x\<close> is the type of the structs of \<open>apimachinery\<close> in them, \<open>typeMeta\<close> the two strings of
  \<open>TypeMeta\<close>, kind and API version.
\<close>

type_synonym typeMeta = "string \<times> string"

record 'x goBookmark =
  gbTypeMeta :: typeMeta
  gbMeta :: 'x
  gbSpec :: goBookmarkSpec
  gbStatus :: goBookmarkStatus

record 'x goList =
  glTypeMeta :: typeMeta
  glMeta :: 'x
  glItems :: "addr option"

record goBookmarkGroupSpec =
  ggsName :: string
  ggsProperties :: "addr option"
  ggsReplicate :: bool

record goBookmarkGroupStatus =
  ggstBookmarkCount :: int32
  ggstLastSyncedAt :: "addr option"
  ggstConditions :: "addr option"

record 'x goBookmarkGroup =
  ggTypeMeta :: typeMeta
  ggMeta :: 'x
  ggSpec :: goBookmarkGroupSpec
  ggStatus :: goBookmarkGroupStatus

record goInfoTileHTTPRequest =
  ghMethod :: string
  ghURL :: string
  ghQueryParams :: "addr option"
  ghHeaders :: "addr option"
  ghBody :: string

record goInfoTileSpec =
  gtsName :: string
  gtsGroup :: string
  gtsIcon :: string
  gtsURL :: string
  gtsTarget :: string
  gtsSource :: string
  gtsInterval :: "addr option"
  gtsReplicate :: bool
  gtsHTTPRequest :: "addr option"
  gtsProcessor :: string

record goInfoTileStatus =
  gtstContent :: string
  gtstLastFetchedAt :: "addr option"
  gtstLastError :: string

record 'x goInfoTile =
  gtTypeMeta :: typeMeta
  gtMeta :: 'x
  gtSpec :: goInfoTileSpec
  gtStatus :: goInfoTileStatus

record goForecastleURLSource =
  gfuIngressRef :: "addr option"
  gfuRouteRef :: "addr option"
  gfuIngressRouteRef :: "addr option"
  gfuHTTPRouteRef :: "addr option"

record goForecastleAppSpec =
  gfsName :: string
  gfsInstance :: string
  gfsGroup :: string
  gfsIcon :: string
  gfsURL :: string
  gfsURLFrom :: "addr option"
  gfsNetworkRestricted :: bool
  gfsGroups :: "addr option"
  gfsProperties :: "addr option"

record 'x goForecastleApp =
  gfTypeMeta :: typeMeta
  gfMeta :: 'x
  gfSpec :: goForecastleAppSpec
  gfStatus :: unit

text \<open>The cells: one constructor per type of which the program allocates objects.\<close>

datatype 'x cell =
    CLocalObjectReference LocalObjectReference
  | CForecastleLocalObjectReference LocalObjectReference
  | CURLSource goURLSource
  | CForecastleURLSource goForecastleURLSource
  | CBool bool
  | CTime time
  | CDuration duration
  | CStrings "string list"
  | CMap "(string, string) gomap"
  | CConditions "'x list"
  | CQueryParam InfoTileQueryParam
  | CQueryParams "InfoTileQueryParam list"
  | CHeader InfoTileHeader
  | CHeaders "InfoTileHeader list"
  | CHTTPRequest goInfoTileHTTPRequest
  | CBookmarkSpec goBookmarkSpec
  | CBookmarkStatus goBookmarkStatus
  | CBookmark "'x goBookmark"
  | CBookmarks "'x goBookmark list"
  | CBookmarkList "'x goList"
  | CBookmarkGroupSpec goBookmarkGroupSpec
  | CBookmarkGroupStatus goBookmarkGroupStatus
  | CBookmarkGroup "'x goBookmarkGroup"
  | CBookmarkGroups "'x goBookmarkGroup list"
  | CBookmarkGroupList "'x goList"
  | CInfoTileSpec goInfoTileSpec
  | CInfoTileStatus goInfoTileStatus
  | CInfoTile "'x goInfoTile"
  | CInfoTiles "'x goInfoTile list"
  | CInfoTileList "'x goList"
  | CForecastleAppSpec goForecastleAppSpec
  | CForecastleAppStatus unit
  | CForecastleApp "'x goForecastleApp"
  | CForecastleApps "'x goForecastleApp list"
  | CForecastleAppList "'x goList"
  | CForeign 'x

text \<open>Reading a cell through a pointer of its type.\<close>

definition asLocalObjectReference :: "'x cell \<Rightarrow> LocalObjectReference option" where
  "asLocalObjectReference c = (case c of CLocalObjectReference x \<Rightarrow> Some x | _ \<Rightarrow> None)"

definition asForecastleLocalObjectReference :: "'x cell \<Rightarrow> LocalObjectReference option" where
  "asForecastleLocalObjectReference c = (case c of CForecastleLocalObjectReference x \<Rightarrow> Some x | _ \<Rightarrow> None)"

definition asURLSource :: "'x cell \<Rightarrow> goURLSource option" where
  "asURLSource c = (case c of CURLSource x \<Rightarrow> Some x | _ \<Rightarrow> None)"

definition asForecastleURLSource :: "'x cell \<Rightarrow> goForecastleURLSource option" where
  "asForecastleURLSource c = (case c of CForecastleURLSource x \<Rightarrow> Some x | _ \<Rightarrow> None)"

definition asBool :: "'x cell \<Rightarrow> bool option" where
  "asBool c = (case c of CBool x \<Rightarrow> Some x | _ \<Rightarrow> None)"

definition asTime :: "'x cell \<Rightarrow> time option" where
  "asTime c = (case c of CTime x \<Rightarrow> Some x | _ \<Rightarrow> None)"

definition asDuration :: "'x cell \<Rightarrow> duration option" where
  "asDuration c = (case c of CDuration x \<Rightarrow> Some x | _ \<Rightarrow> None)"

definition asStrings :: "'x cell \<Rightarrow> string list option" where
  "asStrings c = (case c of CStrings x \<Rightarrow> Some x | _ \<Rightarrow> None)"

definition asMap :: "'x cell \<Rightarrow> (string, string) gomap option" where
  "asMap c = (case c of CMap x \<Rightarrow> Some x | _ \<Rightarrow> None)"

definition asConditions :: "'x cell \<Rightarrow> 'x list option" where
  "asConditions c = (case c of CConditions x \<Rightarrow> Some x | _ \<Rightarrow> None)"

definition asQueryParam :: "'x cell \<Rightarrow> InfoTileQueryParam option" where
  "asQueryParam c = (case c of CQueryParam x \<Rightarrow> Some x | _ \<Rightarrow> None)"

definition asQueryParams :: "'x cell \<Rightarrow> InfoTileQueryParam list option" where
  "asQueryParams c = (case c of CQueryParams x \<Rightarrow> Some x | _ \<Rightarrow> None)"

definition asHeader :: "'x cell \<Rightarrow> InfoTileHeader option" where
  "asHeader c = (case c of CHeader x \<Rightarrow> Some x | _ \<Rightarrow> None)"

definition asHeaders :: "'x cell \<Rightarrow> InfoTileHeader list option" where
  "asHeaders c = (case c of CHeaders x \<Rightarrow> Some x | _ \<Rightarrow> None)"

definition asHTTPRequest :: "'x cell \<Rightarrow> goInfoTileHTTPRequest option" where
  "asHTTPRequest c = (case c of CHTTPRequest x \<Rightarrow> Some x | _ \<Rightarrow> None)"

definition asBookmarkSpec :: "'x cell \<Rightarrow> goBookmarkSpec option" where
  "asBookmarkSpec c = (case c of CBookmarkSpec x \<Rightarrow> Some x | _ \<Rightarrow> None)"

definition asBookmarkStatus :: "'x cell \<Rightarrow> goBookmarkStatus option" where
  "asBookmarkStatus c = (case c of CBookmarkStatus x \<Rightarrow> Some x | _ \<Rightarrow> None)"

definition asBookmark :: "'x cell \<Rightarrow> 'x goBookmark option" where
  "asBookmark c = (case c of CBookmark x \<Rightarrow> Some x | _ \<Rightarrow> None)"

definition asBookmarks :: "'x cell \<Rightarrow> 'x goBookmark list option" where
  "asBookmarks c = (case c of CBookmarks x \<Rightarrow> Some x | _ \<Rightarrow> None)"

definition asBookmarkList :: "'x cell \<Rightarrow> 'x goList option" where
  "asBookmarkList c = (case c of CBookmarkList x \<Rightarrow> Some x | _ \<Rightarrow> None)"

definition asBookmarkGroupSpec :: "'x cell \<Rightarrow> goBookmarkGroupSpec option" where
  "asBookmarkGroupSpec c = (case c of CBookmarkGroupSpec x \<Rightarrow> Some x | _ \<Rightarrow> None)"

definition asBookmarkGroupStatus :: "'x cell \<Rightarrow> goBookmarkGroupStatus option" where
  "asBookmarkGroupStatus c = (case c of CBookmarkGroupStatus x \<Rightarrow> Some x | _ \<Rightarrow> None)"

definition asBookmarkGroup :: "'x cell \<Rightarrow> 'x goBookmarkGroup option" where
  "asBookmarkGroup c = (case c of CBookmarkGroup x \<Rightarrow> Some x | _ \<Rightarrow> None)"

definition asBookmarkGroups :: "'x cell \<Rightarrow> 'x goBookmarkGroup list option" where
  "asBookmarkGroups c = (case c of CBookmarkGroups x \<Rightarrow> Some x | _ \<Rightarrow> None)"

definition asBookmarkGroupList :: "'x cell \<Rightarrow> 'x goList option" where
  "asBookmarkGroupList c = (case c of CBookmarkGroupList x \<Rightarrow> Some x | _ \<Rightarrow> None)"

definition asInfoTileSpec :: "'x cell \<Rightarrow> goInfoTileSpec option" where
  "asInfoTileSpec c = (case c of CInfoTileSpec x \<Rightarrow> Some x | _ \<Rightarrow> None)"

definition asInfoTileStatus :: "'x cell \<Rightarrow> goInfoTileStatus option" where
  "asInfoTileStatus c = (case c of CInfoTileStatus x \<Rightarrow> Some x | _ \<Rightarrow> None)"

definition asInfoTile :: "'x cell \<Rightarrow> 'x goInfoTile option" where
  "asInfoTile c = (case c of CInfoTile x \<Rightarrow> Some x | _ \<Rightarrow> None)"

definition asInfoTiles :: "'x cell \<Rightarrow> 'x goInfoTile list option" where
  "asInfoTiles c = (case c of CInfoTiles x \<Rightarrow> Some x | _ \<Rightarrow> None)"

definition asInfoTileList :: "'x cell \<Rightarrow> 'x goList option" where
  "asInfoTileList c = (case c of CInfoTileList x \<Rightarrow> Some x | _ \<Rightarrow> None)"

definition asForecastleAppSpec :: "'x cell \<Rightarrow> goForecastleAppSpec option" where
  "asForecastleAppSpec c = (case c of CForecastleAppSpec x \<Rightarrow> Some x | _ \<Rightarrow> None)"

definition asForecastleAppStatus :: "'x cell \<Rightarrow> unit option" where
  "asForecastleAppStatus c = (case c of CForecastleAppStatus x \<Rightarrow> Some x | _ \<Rightarrow> None)"

definition asForecastleApp :: "'x cell \<Rightarrow> 'x goForecastleApp option" where
  "asForecastleApp c = (case c of CForecastleApp x \<Rightarrow> Some x | _ \<Rightarrow> None)"

definition asForecastleApps :: "'x cell \<Rightarrow> 'x goForecastleApp list option" where
  "asForecastleApps c = (case c of CForecastleApps x \<Rightarrow> Some x | _ \<Rightarrow> None)"

definition asForecastleAppList :: "'x cell \<Rightarrow> 'x goList option" where
  "asForecastleAppList c = (case c of CForecastleAppList x \<Rightarrow> Some x | _ \<Rightarrow> None)"

lemmas as_defs =
  asLocalObjectReference_def
  asForecastleLocalObjectReference_def
  asURLSource_def
  asForecastleURLSource_def
  asBool_def
  asTime_def
  asDuration_def
  asStrings_def
  asMap_def
  asConditions_def
  asQueryParam_def
  asQueryParams_def
  asHeader_def
  asHeaders_def
  asHTTPRequest_def
  asBookmarkSpec_def
  asBookmarkStatus_def
  asBookmark_def
  asBookmarks_def
  asBookmarkList_def
  asBookmarkGroupSpec_def
  asBookmarkGroupStatus_def
  asBookmarkGroup_def
  asBookmarkGroups_def
  asBookmarkGroupList_def
  asInfoTileSpec_def
  asInfoTileStatus_def
  asInfoTile_def
  asInfoTiles_def
  asInfoTileList_def
  asForecastleAppSpec_def
  asForecastleAppStatus_def
  asForecastleApp_def
  asForecastleApps_def
  asForecastleAppList_def

section \<open>What the generated code calls\<close>

text \<open>
  The methods of \<open>k8s.io/apimachinery\<close>: \<open>DeepCopyInto\<close> of \<open>ObjectMeta\<close>, \<open>ListMeta\<close> and \<open>Condition\<close>, and
  \<open>DeepCopy\<close> of a non-nil \<open>*Time\<close>. The observers say what the program reads of such a struct.
\<close>

record 'x ApiMachinery =
  amObjectMeta :: "'x \<Rightarrow> ('x cell, 'x) go"
  amListMeta :: "'x \<Rightarrow> ('x cell, 'x) go"
  amCondition :: "'x \<Rightarrow> ('x cell, 'x) go"
  amTime :: "addr \<Rightarrow> ('x cell, addr) go"
  amMetaOf :: "('x cell, 'x, ObjectMeta) observer"
  amListMetaOf :: "('x cell, 'x, any) observer"
  amConditionOf :: "('x cell, 'x, any) observer"

definition obsTime :: "('x cell, addr, time) observer" where
  "obsTime h a = map_option (\<lambda>t. (t, [a])) (Option.bind (load h a) asTime)"

text \<open>Their documentation: each copies its receiver deeply.\<close>

definition machinery_ok :: "'x ApiMachinery \<Rightarrow> bool" where
  "machinery_ok am \<longleftrightarrow>
     copier (amObjectMeta am) (amMetaOf am) \<and> copier (amListMeta am) (amListMetaOf am) \<and>
     copier (amCondition am) (amConditionOf am) \<and> copier (amTime am) obsTime"

section \<open>The generated methods\<close>

subsection \<open>References\<close>

definition DeepCopyIntoLocalObjectReference :: "LocalObjectReference \<Rightarrow> ('x cell, LocalObjectReference) go" where
  "DeepCopyIntoLocalObjectReference x = State_Monad.return x"

definition DeepCopyLocalObjectReference :: "addr option \<Rightarrow> ('x cell, addr option) go" where
  "DeepCopyLocalObjectReference =
     copyPtr CLocalObjectReference asLocalObjectReference DeepCopyIntoLocalObjectReference"

text \<open>\<open>*out = new(LocalObjectReference); **out = **in\<close> for a field that is not nil\<close>

definition copyRef :: "addr option \<Rightarrow> ('x cell, addr option) go" where
  "copyRef = copyPtr CLocalObjectReference asLocalObjectReference State_Monad.return"

definition DeepCopyIntoURLSource :: "goURLSource \<Rightarrow> ('x cell, goURLSource) go" where
  "DeepCopyIntoURLSource x = do {
     ingressRef \<leftarrow> copyRef (guIngressRef x);
     routeRef \<leftarrow> copyRef (guRouteRef x);
     ingressRouteRef \<leftarrow> copyRef (guIngressRouteRef x);
     httpRouteRef \<leftarrow> copyRef (guHTTPRouteRef x);
     grpcRouteRef \<leftarrow> copyRef (guGRPCRouteRef x);
     serviceRef \<leftarrow> copyRef (guServiceRef x);
     State_Monad.return (x\<lparr>guIngressRef := ingressRef, guRouteRef := routeRef,
       guIngressRouteRef := ingressRouteRef, guHTTPRouteRef := httpRouteRef,
       guGRPCRouteRef := grpcRouteRef, guServiceRef := serviceRef\<rparr>) }"

definition DeepCopyURLSource :: "addr option \<Rightarrow> ('x cell, addr option) go" where
  "DeepCopyURLSource = copyPtr CURLSource asURLSource DeepCopyIntoURLSource"

text \<open>Slices of strings, \<open>copy(*out, *in)\<close> into a new array, and maps, key by key\<close>

definition copyStrings :: "addr option \<Rightarrow> ('x cell, addr option) go" where
  "copyStrings = copyPtr CStrings asStrings State_Monad.return"

definition copyProperties :: "addr option \<Rightarrow> ('x cell, addr option) go" where
  "copyProperties = copyPtr CMap asMap copyMap"

definition copyConditions :: "'x ApiMachinery \<Rightarrow> addr option \<Rightarrow> ('x cell, addr option) go" where
  "copyConditions am = copyPtr CConditions asConditions (copyList (amCondition am))"

subsection \<open>Bookmarks\<close>

definition DeepCopyIntoBookmarkSpec :: "goBookmarkSpec \<Rightarrow> ('x cell, goBookmarkSpec) go" where
  "DeepCopyIntoBookmarkSpec x = do {
     urlFrom \<leftarrow> copyPtr CURLSource asURLSource DeepCopyIntoURLSource (gbsURLFrom x);
     groups \<leftarrow> copyStrings (gbsGroups x);
     properties \<leftarrow> copyProperties (gbsProperties x);
     State_Monad.return (x\<lparr>gbsURLFrom := urlFrom, gbsGroups := groups, gbsProperties := properties\<rparr>) }"

definition DeepCopyBookmarkSpec :: "addr option \<Rightarrow> ('x cell, addr option) go" where
  "DeepCopyBookmarkSpec = copyPtr CBookmarkSpec asBookmarkSpec DeepCopyIntoBookmarkSpec"

definition DeepCopyIntoBookmarkStatus ::
    "'x ApiMachinery \<Rightarrow> goBookmarkStatus \<Rightarrow> ('x cell, goBookmarkStatus) go" where
  "DeepCopyIntoBookmarkStatus am x = do {
     reachable \<leftarrow> copyPtr CBool asBool State_Monad.return (gbstURLReachable x);
     lastURLCheckAt \<leftarrow> copyOpt (amTime am) (gbstLastURLCheckAt x);
     lastSyncedAt \<leftarrow> copyOpt (amTime am) (gbstLastSyncedAt x);
     conditions \<leftarrow> copyConditions am (gbstConditions x);
     State_Monad.return (x\<lparr>gbstURLReachable := reachable, gbstLastURLCheckAt := lastURLCheckAt,
       gbstLastSyncedAt := lastSyncedAt, gbstConditions := conditions\<rparr>) }"

definition DeepCopyBookmarkStatus :: "'x ApiMachinery \<Rightarrow> addr option \<Rightarrow> ('x cell, addr option) go" where
  "DeepCopyBookmarkStatus am = copyPtr CBookmarkStatus asBookmarkStatus (DeepCopyIntoBookmarkStatus am)"

definition DeepCopyIntoBookmark :: "'x ApiMachinery \<Rightarrow> 'x goBookmark \<Rightarrow> ('x cell, 'x goBookmark) go" where
  "DeepCopyIntoBookmark am x = do {
     meta \<leftarrow> amObjectMeta am (gbMeta x);
     spec \<leftarrow> DeepCopyIntoBookmarkSpec (gbSpec x);
     status \<leftarrow> DeepCopyIntoBookmarkStatus am (gbStatus x);
     State_Monad.return (x\<lparr>gbMeta := meta, gbSpec := spec, gbStatus := status\<rparr>) }"

definition DeepCopyBookmark :: "'x ApiMachinery \<Rightarrow> addr option \<Rightarrow> ('x cell, addr option) go" where
  "DeepCopyBookmark am = copyPtr CBookmark asBookmark (DeepCopyIntoBookmark am)"

definition DeepCopyIntoBookmarkList :: "'x ApiMachinery \<Rightarrow> 'x goList \<Rightarrow> ('x cell, 'x goList) go" where
  "DeepCopyIntoBookmarkList am x = do {
     meta \<leftarrow> amListMeta am (glMeta x);
     items \<leftarrow> copyPtr CBookmarks asBookmarks (copyList (DeepCopyIntoBookmark am)) (glItems x);
     State_Monad.return (x\<lparr>glMeta := meta, glItems := items\<rparr>) }"

definition DeepCopyBookmarkList :: "'x ApiMachinery \<Rightarrow> addr option \<Rightarrow> ('x cell, addr option) go" where
  "DeepCopyBookmarkList am = copyPtr CBookmarkList asBookmarkList (DeepCopyIntoBookmarkList am)"

subsection \<open>Bookmark groups\<close>

definition DeepCopyIntoBookmarkGroupSpec :: "goBookmarkGroupSpec \<Rightarrow> ('x cell, goBookmarkGroupSpec) go" where
  "DeepCopyIntoBookmarkGroupSpec x = do {
     properties \<leftarrow> copyProperties (ggsProperties x);
     State_Monad.return (x\<lparr>ggsProperties := properties\<rparr>) }"

definition DeepCopyBookmarkGroupSpec :: "addr option \<Rightarrow> ('x cell, addr option) go" where
  "DeepCopyBookmarkGroupSpec = copyPtr CBookmarkGroupSpec asBookmarkGroupSpec DeepCopyIntoBookmarkGroupSpec"

definition DeepCopyIntoBookmarkGroupStatus ::
    "'x ApiMachinery \<Rightarrow> goBookmarkGroupStatus \<Rightarrow> ('x cell, goBookmarkGroupStatus) go" where
  "DeepCopyIntoBookmarkGroupStatus am x = do {
     lastSyncedAt \<leftarrow> copyOpt (amTime am) (ggstLastSyncedAt x);
     conditions \<leftarrow> copyConditions am (ggstConditions x);
     State_Monad.return (x\<lparr>ggstLastSyncedAt := lastSyncedAt, ggstConditions := conditions\<rparr>) }"

definition DeepCopyBookmarkGroupStatus :: "'x ApiMachinery \<Rightarrow> addr option \<Rightarrow> ('x cell, addr option) go" where
  "DeepCopyBookmarkGroupStatus am =
     copyPtr CBookmarkGroupStatus asBookmarkGroupStatus (DeepCopyIntoBookmarkGroupStatus am)"

definition DeepCopyIntoBookmarkGroup ::
    "'x ApiMachinery \<Rightarrow> 'x goBookmarkGroup \<Rightarrow> ('x cell, 'x goBookmarkGroup) go" where
  "DeepCopyIntoBookmarkGroup am x = do {
     meta \<leftarrow> amObjectMeta am (ggMeta x);
     spec \<leftarrow> DeepCopyIntoBookmarkGroupSpec (ggSpec x);
     status \<leftarrow> DeepCopyIntoBookmarkGroupStatus am (ggStatus x);
     State_Monad.return (x\<lparr>ggMeta := meta, ggSpec := spec, ggStatus := status\<rparr>) }"

definition DeepCopyBookmarkGroup :: "'x ApiMachinery \<Rightarrow> addr option \<Rightarrow> ('x cell, addr option) go" where
  "DeepCopyBookmarkGroup am = copyPtr CBookmarkGroup asBookmarkGroup (DeepCopyIntoBookmarkGroup am)"

definition DeepCopyIntoBookmarkGroupList :: "'x ApiMachinery \<Rightarrow> 'x goList \<Rightarrow> ('x cell, 'x goList) go" where
  "DeepCopyIntoBookmarkGroupList am x = do {
     meta \<leftarrow> amListMeta am (glMeta x);
     items \<leftarrow> copyPtr CBookmarkGroups asBookmarkGroups (copyList (DeepCopyIntoBookmarkGroup am)) (glItems x);
     State_Monad.return (x\<lparr>glMeta := meta, glItems := items\<rparr>) }"

definition DeepCopyBookmarkGroupList :: "'x ApiMachinery \<Rightarrow> addr option \<Rightarrow> ('x cell, addr option) go" where
  "DeepCopyBookmarkGroupList am =
     copyPtr CBookmarkGroupList asBookmarkGroupList (DeepCopyIntoBookmarkGroupList am)"

subsection \<open>Info tiles\<close>

definition DeepCopyIntoInfoTileHeader :: "InfoTileHeader \<Rightarrow> ('x cell, InfoTileHeader) go" where
  "DeepCopyIntoInfoTileHeader x = State_Monad.return x"

definition DeepCopyInfoTileHeader :: "addr option \<Rightarrow> ('x cell, addr option) go" where
  "DeepCopyInfoTileHeader = copyPtr CHeader asHeader DeepCopyIntoInfoTileHeader"

definition DeepCopyIntoInfoTileQueryParam :: "InfoTileQueryParam \<Rightarrow> ('x cell, InfoTileQueryParam) go" where
  "DeepCopyIntoInfoTileQueryParam x = State_Monad.return x"

definition DeepCopyInfoTileQueryParam :: "addr option \<Rightarrow> ('x cell, addr option) go" where
  "DeepCopyInfoTileQueryParam = copyPtr CQueryParam asQueryParam DeepCopyIntoInfoTileQueryParam"

definition DeepCopyIntoInfoTileHTTPRequest :: "goInfoTileHTTPRequest \<Rightarrow> ('x cell, goInfoTileHTTPRequest) go" where
  "DeepCopyIntoInfoTileHTTPRequest x = do {
     queryParams \<leftarrow> copyPtr CQueryParams asQueryParams State_Monad.return (ghQueryParams x);
     headers \<leftarrow> copyPtr CHeaders asHeaders State_Monad.return (ghHeaders x);
     State_Monad.return (x\<lparr>ghQueryParams := queryParams, ghHeaders := headers\<rparr>) }"

definition DeepCopyInfoTileHTTPRequest :: "addr option \<Rightarrow> ('x cell, addr option) go" where
  "DeepCopyInfoTileHTTPRequest = copyPtr CHTTPRequest asHTTPRequest DeepCopyIntoInfoTileHTTPRequest"

definition DeepCopyIntoInfoTileSpec :: "goInfoTileSpec \<Rightarrow> ('x cell, goInfoTileSpec) go" where
  "DeepCopyIntoInfoTileSpec x = do {
     interval \<leftarrow> copyPtr CDuration asDuration State_Monad.return (gtsInterval x);
     httpRequest \<leftarrow> copyPtr CHTTPRequest asHTTPRequest DeepCopyIntoInfoTileHTTPRequest (gtsHTTPRequest x);
     State_Monad.return (x\<lparr>gtsInterval := interval, gtsHTTPRequest := httpRequest\<rparr>) }"

definition DeepCopyInfoTileSpec :: "addr option \<Rightarrow> ('x cell, addr option) go" where
  "DeepCopyInfoTileSpec = copyPtr CInfoTileSpec asInfoTileSpec DeepCopyIntoInfoTileSpec"

definition DeepCopyIntoInfoTileStatus ::
    "'x ApiMachinery \<Rightarrow> goInfoTileStatus \<Rightarrow> ('x cell, goInfoTileStatus) go" where
  "DeepCopyIntoInfoTileStatus am x = do {
     lastFetchedAt \<leftarrow> copyOpt (amTime am) (gtstLastFetchedAt x);
     State_Monad.return (x\<lparr>gtstLastFetchedAt := lastFetchedAt\<rparr>) }"

definition DeepCopyInfoTileStatus :: "'x ApiMachinery \<Rightarrow> addr option \<Rightarrow> ('x cell, addr option) go" where
  "DeepCopyInfoTileStatus am = copyPtr CInfoTileStatus asInfoTileStatus (DeepCopyIntoInfoTileStatus am)"

definition DeepCopyIntoInfoTile :: "'x ApiMachinery \<Rightarrow> 'x goInfoTile \<Rightarrow> ('x cell, 'x goInfoTile) go" where
  "DeepCopyIntoInfoTile am x = do {
     meta \<leftarrow> amObjectMeta am (gtMeta x);
     spec \<leftarrow> DeepCopyIntoInfoTileSpec (gtSpec x);
     status \<leftarrow> DeepCopyIntoInfoTileStatus am (gtStatus x);
     State_Monad.return (x\<lparr>gtMeta := meta, gtSpec := spec, gtStatus := status\<rparr>) }"

definition DeepCopyInfoTile :: "'x ApiMachinery \<Rightarrow> addr option \<Rightarrow> ('x cell, addr option) go" where
  "DeepCopyInfoTile am = copyPtr CInfoTile asInfoTile (DeepCopyIntoInfoTile am)"

definition DeepCopyIntoInfoTileList :: "'x ApiMachinery \<Rightarrow> 'x goList \<Rightarrow> ('x cell, 'x goList) go" where
  "DeepCopyIntoInfoTileList am x = do {
     meta \<leftarrow> amListMeta am (glMeta x);
     items \<leftarrow> copyPtr CInfoTiles asInfoTiles (copyList (DeepCopyIntoInfoTile am)) (glItems x);
     State_Monad.return (x\<lparr>glMeta := meta, glItems := items\<rparr>) }"

definition DeepCopyInfoTileList :: "'x ApiMachinery \<Rightarrow> addr option \<Rightarrow> ('x cell, addr option) go" where
  "DeepCopyInfoTileList am = copyPtr CInfoTileList asInfoTileList (DeepCopyIntoInfoTileList am)"

subsection \<open>Forecastle apps\<close>

definition DeepCopyIntoForecastleLocalObjectReference ::
    "LocalObjectReference \<Rightarrow> ('x cell, LocalObjectReference) go" where
  "DeepCopyIntoForecastleLocalObjectReference x = State_Monad.return x"

definition DeepCopyForecastleLocalObjectReference :: "addr option \<Rightarrow> ('x cell, addr option) go" where
  "DeepCopyForecastleLocalObjectReference =
     copyPtr CForecastleLocalObjectReference asForecastleLocalObjectReference
       DeepCopyIntoForecastleLocalObjectReference"

definition copyForecastleRef :: "addr option \<Rightarrow> ('x cell, addr option) go" where
  "copyForecastleRef =
     copyPtr CForecastleLocalObjectReference asForecastleLocalObjectReference State_Monad.return"

definition DeepCopyIntoForecastleURLSource :: "goForecastleURLSource \<Rightarrow> ('x cell, goForecastleURLSource) go" where
  "DeepCopyIntoForecastleURLSource x = do {
     ingressRef \<leftarrow> copyForecastleRef (gfuIngressRef x);
     routeRef \<leftarrow> copyForecastleRef (gfuRouteRef x);
     ingressRouteRef \<leftarrow> copyForecastleRef (gfuIngressRouteRef x);
     httpRouteRef \<leftarrow> copyForecastleRef (gfuHTTPRouteRef x);
     State_Monad.return (x\<lparr>gfuIngressRef := ingressRef, gfuRouteRef := routeRef,
       gfuIngressRouteRef := ingressRouteRef, gfuHTTPRouteRef := httpRouteRef\<rparr>) }"

definition DeepCopyForecastleURLSource :: "addr option \<Rightarrow> ('x cell, addr option) go" where
  "DeepCopyForecastleURLSource =
     copyPtr CForecastleURLSource asForecastleURLSource DeepCopyIntoForecastleURLSource"

definition DeepCopyIntoForecastleAppSpec :: "goForecastleAppSpec \<Rightarrow> ('x cell, goForecastleAppSpec) go" where
  "DeepCopyIntoForecastleAppSpec x = do {
     urlFrom \<leftarrow> copyPtr CForecastleURLSource asForecastleURLSource DeepCopyIntoForecastleURLSource (gfsURLFrom x);
     groups \<leftarrow> copyStrings (gfsGroups x);
     properties \<leftarrow> copyProperties (gfsProperties x);
     State_Monad.return (x\<lparr>gfsURLFrom := urlFrom, gfsGroups := groups, gfsProperties := properties\<rparr>) }"

definition DeepCopyForecastleAppSpec :: "addr option \<Rightarrow> ('x cell, addr option) go" where
  "DeepCopyForecastleAppSpec = copyPtr CForecastleAppSpec asForecastleAppSpec DeepCopyIntoForecastleAppSpec"

definition DeepCopyIntoForecastleAppStatus :: "unit \<Rightarrow> ('x cell, unit) go" where
  "DeepCopyIntoForecastleAppStatus x = State_Monad.return x"

definition DeepCopyForecastleAppStatus :: "addr option \<Rightarrow> ('x cell, addr option) go" where
  "DeepCopyForecastleAppStatus =
     copyPtr CForecastleAppStatus asForecastleAppStatus DeepCopyIntoForecastleAppStatus"

definition DeepCopyIntoForecastleApp ::
    "'x ApiMachinery \<Rightarrow> 'x goForecastleApp \<Rightarrow> ('x cell, 'x goForecastleApp) go" where
  "DeepCopyIntoForecastleApp am x = do {
     meta \<leftarrow> amObjectMeta am (gfMeta x);
     spec \<leftarrow> DeepCopyIntoForecastleAppSpec (gfSpec x);
     State_Monad.return (x\<lparr>gfMeta := meta, gfSpec := spec, gfStatus := gfStatus x\<rparr>) }"

definition DeepCopyForecastleApp :: "'x ApiMachinery \<Rightarrow> addr option \<Rightarrow> ('x cell, addr option) go" where
  "DeepCopyForecastleApp am = copyPtr CForecastleApp asForecastleApp (DeepCopyIntoForecastleApp am)"

definition DeepCopyIntoForecastleAppList :: "'x ApiMachinery \<Rightarrow> 'x goList \<Rightarrow> ('x cell, 'x goList) go" where
  "DeepCopyIntoForecastleAppList am x = do {
     meta \<leftarrow> amListMeta am (glMeta x);
     items \<leftarrow> copyPtr CForecastleApps asForecastleApps (copyList (DeepCopyIntoForecastleApp am)) (glItems x);
     State_Monad.return (x\<lparr>glMeta := meta, glItems := items\<rparr>) }"

definition DeepCopyForecastleAppList :: "'x ApiMachinery \<Rightarrow> addr option \<Rightarrow> ('x cell, addr option) go" where
  "DeepCopyForecastleAppList am =
     copyPtr CForecastleAppList asForecastleAppList (DeepCopyIntoForecastleAppList am)"

subsection \<open>Runtime objects\<close>

text \<open>
  The interface \<open>runtime.Object\<close>, with a pointer to one of the types that implement it here.
\<close>

datatype runtimeObject =
    OBookmark addr | OBookmarkList addr
  | OBookmarkGroup addr | OBookmarkGroupList addr
  | OInfoTile addr | OInfoTileList addr
  | OForecastleApp addr | OForecastleAppList addr

definition DeepCopyObjectBookmark :: "'x ApiMachinery \<Rightarrow> addr option \<Rightarrow> ('x cell, runtimeObject option) go" where
  "DeepCopyObjectBookmark am x = do {
     c \<leftarrow> DeepCopyBookmark am x;
     State_Monad.return (case c of Some p \<Rightarrow> Some (OBookmark p) | None \<Rightarrow> None) }"

definition DeepCopyObjectBookmarkList :: "'x ApiMachinery \<Rightarrow> addr option \<Rightarrow> ('x cell, runtimeObject option) go" where
  "DeepCopyObjectBookmarkList am x = do {
     c \<leftarrow> DeepCopyBookmarkList am x;
     State_Monad.return (case c of Some p \<Rightarrow> Some (OBookmarkList p) | None \<Rightarrow> None) }"

definition DeepCopyObjectBookmarkGroup :: "'x ApiMachinery \<Rightarrow> addr option \<Rightarrow> ('x cell, runtimeObject option) go" where
  "DeepCopyObjectBookmarkGroup am x = do {
     c \<leftarrow> DeepCopyBookmarkGroup am x;
     State_Monad.return (case c of Some p \<Rightarrow> Some (OBookmarkGroup p) | None \<Rightarrow> None) }"

definition DeepCopyObjectBookmarkGroupList :: "'x ApiMachinery \<Rightarrow> addr option \<Rightarrow> ('x cell, runtimeObject option) go" where
  "DeepCopyObjectBookmarkGroupList am x = do {
     c \<leftarrow> DeepCopyBookmarkGroupList am x;
     State_Monad.return (case c of Some p \<Rightarrow> Some (OBookmarkGroupList p) | None \<Rightarrow> None) }"

definition DeepCopyObjectInfoTile :: "'x ApiMachinery \<Rightarrow> addr option \<Rightarrow> ('x cell, runtimeObject option) go" where
  "DeepCopyObjectInfoTile am x = do {
     c \<leftarrow> DeepCopyInfoTile am x;
     State_Monad.return (case c of Some p \<Rightarrow> Some (OInfoTile p) | None \<Rightarrow> None) }"

definition DeepCopyObjectInfoTileList :: "'x ApiMachinery \<Rightarrow> addr option \<Rightarrow> ('x cell, runtimeObject option) go" where
  "DeepCopyObjectInfoTileList am x = do {
     c \<leftarrow> DeepCopyInfoTileList am x;
     State_Monad.return (case c of Some p \<Rightarrow> Some (OInfoTileList p) | None \<Rightarrow> None) }"

definition DeepCopyObjectForecastleApp :: "'x ApiMachinery \<Rightarrow> addr option \<Rightarrow> ('x cell, runtimeObject option) go" where
  "DeepCopyObjectForecastleApp am x = do {
     c \<leftarrow> DeepCopyForecastleApp am x;
     State_Monad.return (case c of Some p \<Rightarrow> Some (OForecastleApp p) | None \<Rightarrow> None) }"

definition DeepCopyObjectForecastleAppList :: "'x ApiMachinery \<Rightarrow> addr option \<Rightarrow> ('x cell, runtimeObject option) go" where
  "DeepCopyObjectForecastleAppList am x = do {
     c \<leftarrow> DeepCopyForecastleAppList am x;
     State_Monad.return (case c of Some p \<Rightarrow> Some (OForecastleAppList p) | None \<Rightarrow> None) }"

text \<open>The call through the interface\<close>

fun DeepCopyObject :: "'x ApiMachinery \<Rightarrow> runtimeObject \<Rightarrow> ('x cell, runtimeObject option) go" where
  "DeepCopyObject am (OBookmark p) = DeepCopyObjectBookmark am (Some p)"
| "DeepCopyObject am (OBookmarkList p) = DeepCopyObjectBookmarkList am (Some p)"
| "DeepCopyObject am (OBookmarkGroup p) = DeepCopyObjectBookmarkGroup am (Some p)"
| "DeepCopyObject am (OBookmarkGroupList p) = DeepCopyObjectBookmarkGroupList am (Some p)"
| "DeepCopyObject am (OInfoTile p) = DeepCopyObjectInfoTile am (Some p)"
| "DeepCopyObject am (OInfoTileList p) = DeepCopyObjectInfoTileList am (Some p)"
| "DeepCopyObject am (OForecastleApp p) = DeepCopyObjectForecastleApp am (Some p)"
| "DeepCopyObject am (OForecastleAppList p) = DeepCopyObjectForecastleAppList am (Some p)"

section \<open>Observers\<close>

definition obsRef :: "('x cell, addr option, LocalObjectReference option) observer" where
  "obsRef = obsPtr asLocalObjectReference obsFlat"

definition obsForecastleRef :: "('x cell, addr option, LocalObjectReference option) observer" where
  "obsForecastleRef = obsPtr asForecastleLocalObjectReference obsFlat"

text \<open>A nil slice or map is empty.\<close>

definition orEmpty :: "'a list option \<Rightarrow> 'a list" where
  "orEmpty xs = (case xs of None \<Rightarrow> [] | Some ys \<Rightarrow> ys)"

definition obsStrings :: "('x cell, addr option, string list) observer" where
  "obsStrings = obsView orEmpty (obsPtr asStrings obsFlat)"

definition obsProperties :: "('x cell, addr option, (string, string) gomap) observer" where
  "obsProperties = obsView orEmpty (obsPtr asMap obsMap)"

definition obsConditions :: "'x ApiMachinery \<Rightarrow> ('x cell, addr option, any list) observer" where
  "obsConditions am = obsView orEmpty (obsPtr asConditions (obsList (amConditionOf am)))"

definition obsURLSource :: "('x cell, goURLSource, URLSource) observer" where
  "obsURLSource =
     obsStruct (\<lambda>s. (guIngressRef s, guRouteRef s, guIngressRouteRef s, guHTTPRouteRef s, guGRPCRouteRef s, guServiceRef s))
       (\<lambda>s (a, b, c, d, e, f). \<lparr>usIngressRef = a, usRouteRef = b, usIngressRouteRef = c, usHTTPRouteRef = d,
          usGRPCRouteRef = e, usServiceRef = f\<rparr>)
       (obsPair obsRef (obsPair obsRef (obsPair obsRef (obsPair obsRef (obsPair obsRef obsRef)))))"

definition obsBookmarkSpec :: "('x cell, goBookmarkSpec, BookmarkSpec) observer" where
  "obsBookmarkSpec =
     obsStruct (\<lambda>s. (gbsURLFrom s, gbsGroups s, gbsProperties s))
       (\<lambda>s (urlFrom, groups, properties). \<lparr>bsGroup = gbsGroup s, bsName = gbsName s, bsURL = gbsURL s,
          bsURLFrom = urlFrom, bsTarget = gbsTarget s, bsIcon = gbsIcon s,
          bsNetworkRestricted = gbsNetworkRestricted s, bsReplicate = gbsReplicate s,
          bsGroups = groups, bsProperties = properties\<rparr>)
       (obsPair (obsPtr asURLSource obsURLSource) (obsPair obsStrings obsProperties))"

definition obsBookmarkStatus :: "'x ApiMachinery \<Rightarrow> ('x cell, goBookmarkStatus, BookmarkStatus) observer" where
  "obsBookmarkStatus am =
     obsStruct (\<lambda>s. (gbstURLReachable s, gbstLastURLCheckAt s, gbstLastSyncedAt s, gbstConditions s))
       (\<lambda>s (reachable, checked, synced, conditions). \<lparr>bstURLReachable = reachable, bstLastURLCheckAt = checked,
          bstURLCheckError = gbstURLCheckError s, bstLastSyncedAt = synced, bstConditions = conditions\<rparr>)
       (obsPair (obsPtr asBool obsFlat) (obsPair (obsOpt obsTime) (obsPair (obsOpt obsTime) (obsConditions am))))"

definition obsBookmark :: "'x ApiMachinery \<Rightarrow> ('x cell, 'x goBookmark, typeMeta \<times> Bookmark) observer" where
  "obsBookmark am =
     obsStruct (\<lambda>s. (gbMeta s, gbSpec s, gbStatus s))
       (\<lambda>s (meta, spec, status). (gbTypeMeta s, \<lparr>bmMeta = meta, bmSpec = spec, bmStatus = status\<rparr>))
       (obsPair (amMetaOf am) (obsPair obsBookmarkSpec (obsBookmarkStatus am)))"

text \<open>A list object is its type, its metadata and its items.\<close>

definition obsItems :: "'x ApiMachinery \<Rightarrow> ('x cell \<Rightarrow> 'i list option) \<Rightarrow> ('x cell, 'i, 'v) observer \<Rightarrow>
    ('x cell, 'x goList, typeMeta \<times> any \<times> 'v list) observer" where
  "obsItems am sel ob =
     obsStruct (\<lambda>s. (glMeta s, glItems s)) (\<lambda>s (meta, items). (glTypeMeta s, meta, items))
       (obsPair (amListMetaOf am) (obsView orEmpty (obsPtr sel (obsList ob))))"

definition obsBookmarkGroupSpec :: "('x cell, goBookmarkGroupSpec, BookmarkGroupSpec) observer" where
  "obsBookmarkGroupSpec =
     obsStruct ggsProperties
       (\<lambda>s properties. \<lparr>bgsName = ggsName s, bgsProperties = properties, bgsReplicate = ggsReplicate s\<rparr>)
       obsProperties"

definition obsBookmarkGroupStatus ::
    "'x ApiMachinery \<Rightarrow> ('x cell, goBookmarkGroupStatus, BookmarkGroupStatus) observer" where
  "obsBookmarkGroupStatus am =
     obsStruct (\<lambda>s. (ggstLastSyncedAt s, ggstConditions s))
       (\<lambda>s (synced, conditions). \<lparr>bgstBookmarkCount = ggstBookmarkCount s, bgstLastSyncedAt = synced,
          bgstConditions = conditions\<rparr>)
       (obsPair (obsOpt obsTime) (obsConditions am))"

definition obsBookmarkGroup :: "'x ApiMachinery \<Rightarrow> ('x cell, 'x goBookmarkGroup, typeMeta \<times> BookmarkGroup) observer" where
  "obsBookmarkGroup am =
     obsStruct (\<lambda>s. (ggMeta s, ggSpec s, ggStatus s))
       (\<lambda>s (meta, spec, status). (ggTypeMeta s, \<lparr>bgMeta = meta, bgSpec = spec, bgStatus = status\<rparr>))
       (obsPair (amMetaOf am) (obsPair obsBookmarkGroupSpec (obsBookmarkGroupStatus am)))"

definition obsInfoTileHTTPRequest :: "('x cell, goInfoTileHTTPRequest, InfoTileHTTPRequest) observer" where
  "obsInfoTileHTTPRequest =
     obsStruct (\<lambda>s. (ghQueryParams s, ghHeaders s))
       (\<lambda>s (params, headers). \<lparr>irMethod = ghMethod s, irURL = ghURL s, irQueryParams = params,
          irHeaders = headers, irBody = ghBody s\<rparr>)
       (obsPair (obsView orEmpty (obsPtr asQueryParams obsFlat)) (obsView orEmpty (obsPtr asHeaders obsFlat)))"

definition obsInfoTileSpec :: "('x cell, goInfoTileSpec, InfoTileSpec) observer" where
  "obsInfoTileSpec =
     obsStruct (\<lambda>s. (gtsInterval s, gtsHTTPRequest s))
       (\<lambda>s (interval, request). \<lparr>isName = gtsName s, isGroup = gtsGroup s, isIcon = gtsIcon s,
          isURL = gtsURL s, isTarget = gtsTarget s, isSource = gtsSource s, isInterval = interval,
          isReplicate = gtsReplicate s, isHTTPRequest = request, isProcessor = gtsProcessor s\<rparr>)
       (obsPair (obsPtr asDuration obsFlat) (obsPtr asHTTPRequest obsInfoTileHTTPRequest))"

definition obsInfoTileStatus :: "('x cell, goInfoTileStatus, InfoTileStatus) observer" where
  "obsInfoTileStatus =
     obsStruct gtstLastFetchedAt
       (\<lambda>s fetched. \<lparr>istContent = gtstContent s, istLastFetchedAt = fetched, istLastError = gtstLastError s\<rparr>)
       (obsOpt obsTime)"

definition obsInfoTile :: "'x ApiMachinery \<Rightarrow> ('x cell, 'x goInfoTile, typeMeta \<times> InfoTile) observer" where
  "obsInfoTile am =
     obsStruct (\<lambda>s. (gtMeta s, gtSpec s, gtStatus s))
       (\<lambda>s (meta, spec, status). (gtTypeMeta s, \<lparr>itMeta = meta, itSpec = spec, itStatus = status\<rparr>))
       (obsPair (amMetaOf am) (obsPair obsInfoTileSpec obsInfoTileStatus))"

definition obsForecastleURLSource :: "('x cell, goForecastleURLSource, ForecastleURLSource) observer" where
  "obsForecastleURLSource =
     obsStruct (\<lambda>s. (gfuIngressRef s, gfuRouteRef s, gfuIngressRouteRef s, gfuHTTPRouteRef s))
       (\<lambda>s (a, b, c, d). \<lparr>fusIngressRef = a, fusRouteRef = b, fusIngressRouteRef = c, fusHTTPRouteRef = d\<rparr>)
       (obsPair obsForecastleRef (obsPair obsForecastleRef (obsPair obsForecastleRef obsForecastleRef)))"

definition obsForecastleAppSpec :: "('x cell, goForecastleAppSpec, ForecastleAppSpec) observer" where
  "obsForecastleAppSpec =
     obsStruct (\<lambda>s. (gfsURLFrom s, gfsGroups s, gfsProperties s))
       (\<lambda>s (urlFrom, groups, properties). \<lparr>fsName = gfsName s, fsInstance = gfsInstance s, fsGroup = gfsGroup s,
          fsIcon = gfsIcon s, fsURL = gfsURL s, fsURLFrom = urlFrom,
          fsNetworkRestricted = gfsNetworkRestricted s, fsGroups = groups, fsProperties = properties\<rparr>)
       (obsPair (obsPtr asForecastleURLSource obsForecastleURLSource) (obsPair obsStrings obsProperties))"

definition obsForecastleApp :: "'x ApiMachinery \<Rightarrow> ('x cell, 'x goForecastleApp, typeMeta \<times> ForecastleApp) observer" where
  "obsForecastleApp am =
     obsStruct (\<lambda>s. (gfMeta s, gfSpec s)) (\<lambda>s (meta, spec). (gfTypeMeta s, \<lparr>faMeta = meta, faSpec = spec\<rparr>))
       (obsPair (amMetaOf am) obsForecastleAppSpec)"

section \<open>Every method is a copier\<close>

named_theorems copier_intros

declare copier_flat [copier_intros] copier_pair [copier_intros] copier_list [copier_intros]
  copier_view [copier_intros] copier_map [copier_intros] copier_opt [copier_intros]

lemmas struct_simps = copyStruct_def copyPair_def fun_eq_iff

lemma copyRef_copier [copier_intros]: "copier copyRef obsRef"
  unfolding copyRef_def obsRef_def
  by (intro copier_ptr copier_intros) (simp add: as_defs)

lemma copyForecastleRef_copier [copier_intros]: "copier copyForecastleRef obsForecastleRef"
  unfolding copyForecastleRef_def obsForecastleRef_def
  by (intro copier_ptr copier_intros) (simp add: as_defs)

lemma copyStrings_copier [copier_intros]: "copier copyStrings obsStrings"
  unfolding copyStrings_def obsStrings_def
  by (intro copier_ptr copier_intros) (simp add: as_defs)

lemma copyProperties_copier [copier_intros]: "copier copyProperties obsProperties"
  unfolding copyProperties_def obsProperties_def
  by (intro copier_ptr copier_intros) (simp add: as_defs)

interpretation urlSource: copier DeepCopyIntoURLSource obsURLSource
  unfolding obsURLSource_def
  by (rule copier_structI [where
        c = "copyPair copyRef (copyPair copyRef (copyPair copyRef (copyPair copyRef (copyPair copyRef copyRef))))"
        and put = "\<lambda>s (a, b, c, d, e, f). s\<lparr>guIngressRef := a, guRouteRef := b, guIngressRouteRef := c,
          guHTTPRouteRef := d, guGRPCRouteRef := e, guServiceRef := f\<rparr>"])
    (intro copier_intros, auto simp: DeepCopyIntoURLSource_def struct_simps)

declare urlSource.copier_axioms [copier_intros]

interpretation bookmarkSpec: copier DeepCopyIntoBookmarkSpec obsBookmarkSpec
  unfolding obsBookmarkSpec_def
  by (rule copier_structI [where
        c = "copyPair (copyPtr CURLSource asURLSource DeepCopyIntoURLSource) (copyPair copyStrings copyProperties)"
        and put = "\<lambda>s (a, b, c). s\<lparr>gbsURLFrom := a, gbsGroups := b, gbsProperties := c\<rparr>"])
    (intro copier_ptr copier_intros, auto simp: DeepCopyIntoBookmarkSpec_def struct_simps as_defs)

declare bookmarkSpec.copier_axioms [copier_intros]

interpretation bookmarkGroupSpec: copier DeepCopyIntoBookmarkGroupSpec obsBookmarkGroupSpec
  unfolding obsBookmarkGroupSpec_def
  by (rule copier_structI [where c = copyProperties and put = "\<lambda>s a. s\<lparr>ggsProperties := a\<rparr>"])
    (intro copier_intros, auto simp: DeepCopyIntoBookmarkGroupSpec_def struct_simps)

interpretation httpRequest: copier DeepCopyIntoInfoTileHTTPRequest obsInfoTileHTTPRequest
  unfolding obsInfoTileHTTPRequest_def
  by (rule copier_structI [where
        c = "copyPair (copyPtr CQueryParams asQueryParams State_Monad.return)
               (copyPtr CHeaders asHeaders State_Monad.return)"
        and put = "\<lambda>s (a, b). s\<lparr>ghQueryParams := a, ghHeaders := b\<rparr>"])
    (intro copier_ptr copier_intros, auto simp: DeepCopyIntoInfoTileHTTPRequest_def struct_simps as_defs)

declare bookmarkGroupSpec.copier_axioms [copier_intros] httpRequest.copier_axioms [copier_intros]

interpretation infoTileSpec: copier DeepCopyIntoInfoTileSpec obsInfoTileSpec
  unfolding obsInfoTileSpec_def
  by (rule copier_structI [where
        c = "copyPair (copyPtr CDuration asDuration State_Monad.return)
               (copyPtr CHTTPRequest asHTTPRequest DeepCopyIntoInfoTileHTTPRequest)"
        and put = "\<lambda>s (a, b). s\<lparr>gtsInterval := a, gtsHTTPRequest := b\<rparr>"])
    (intro copier_ptr copier_intros, auto simp: DeepCopyIntoInfoTileSpec_def struct_simps as_defs)

interpretation forecastleURLSource: copier DeepCopyIntoForecastleURLSource obsForecastleURLSource
  unfolding obsForecastleURLSource_def
  by (rule copier_structI [where
        c = "copyPair copyForecastleRef (copyPair copyForecastleRef (copyPair copyForecastleRef copyForecastleRef))"
        and put = "\<lambda>s (a, b, c, d). s\<lparr>gfuIngressRef := a, gfuRouteRef := b, gfuIngressRouteRef := c,
          gfuHTTPRouteRef := d\<rparr>"])
    (intro copier_intros, auto simp: DeepCopyIntoForecastleURLSource_def struct_simps)

declare infoTileSpec.copier_axioms [copier_intros] forecastleURLSource.copier_axioms [copier_intros]

interpretation forecastleAppSpec: copier DeepCopyIntoForecastleAppSpec obsForecastleAppSpec
  unfolding obsForecastleAppSpec_def
  by (rule copier_structI [where
        c = "copyPair (copyPtr CForecastleURLSource asForecastleURLSource DeepCopyIntoForecastleURLSource)
               (copyPair copyStrings copyProperties)"
        and put = "\<lambda>s (a, b, c). s\<lparr>gfsURLFrom := a, gfsGroups := b, gfsProperties := c\<rparr>"])
    (intro copier_ptr copier_intros, auto simp: DeepCopyIntoForecastleAppSpec_def struct_simps as_defs)

declare forecastleAppSpec.copier_axioms [copier_intros]

subsection \<open>Methods that call those of \<open>apimachinery\<close>\<close>

lemma machinery_okD [copier_intros]:
  assumes "machinery_ok am"
  shows "copier (amObjectMeta am) (amMetaOf am)" and "copier (amListMeta am) (amListMetaOf am)"
    and "copier (amCondition am) (amConditionOf am)" and "copier (amTime am) obsTime"
  using assms by (simp_all add: machinery_ok_def)

lemma copyConditions_copier [copier_intros]:
  "machinery_ok am \<Longrightarrow> copier (copyConditions am) (obsConditions am)"
  unfolding copyConditions_def obsConditions_def
  by (intro copier_view copier_ptr copier_list copier_intros) (auto simp: as_defs)

lemma bookmarkStatus_copier [copier_intros]:
  "machinery_ok am \<Longrightarrow> copier (DeepCopyIntoBookmarkStatus am) (obsBookmarkStatus am)"
  unfolding obsBookmarkStatus_def
  by (rule copier_structI [where
        c = "copyPair (copyPtr CBool asBool State_Monad.return) (copyPair (copyOpt (amTime am))
               (copyPair (copyOpt (amTime am)) (copyConditions am)))"
        and put = "\<lambda>s (a, b, c, d). s\<lparr>gbstURLReachable := a, gbstLastURLCheckAt := b,
          gbstLastSyncedAt := c, gbstConditions := d\<rparr>"])
    (intro copier_ptr copier_intros, auto simp: DeepCopyIntoBookmarkStatus_def struct_simps as_defs)

lemma bookmarkGroupStatus_copier [copier_intros]:
  "machinery_ok am \<Longrightarrow> copier (DeepCopyIntoBookmarkGroupStatus am) (obsBookmarkGroupStatus am)"
  unfolding obsBookmarkGroupStatus_def
  by (rule copier_structI [where
        c = "copyPair (copyOpt (amTime am)) (copyConditions am)"
        and put = "\<lambda>s (a, b). s\<lparr>ggstLastSyncedAt := a, ggstConditions := b\<rparr>"])
    (intro copier_intros, auto simp: DeepCopyIntoBookmarkGroupStatus_def struct_simps)

lemma infoTileStatus_copier [copier_intros]:
  "machinery_ok am \<Longrightarrow> copier (DeepCopyIntoInfoTileStatus am) obsInfoTileStatus"
  unfolding obsInfoTileStatus_def
  by (rule copier_structI [where c = "copyOpt (amTime am)" and put = "\<lambda>s a. s\<lparr>gtstLastFetchedAt := a\<rparr>"])
    (intro copier_intros, auto simp: DeepCopyIntoInfoTileStatus_def struct_simps)

lemma bookmark_copier [copier_intros]:
  "machinery_ok am \<Longrightarrow> copier (DeepCopyIntoBookmark am) (obsBookmark am)"
  unfolding obsBookmark_def
  by (rule copier_structI [where
        c = "copyPair (amObjectMeta am) (copyPair DeepCopyIntoBookmarkSpec (DeepCopyIntoBookmarkStatus am))"
        and put = "\<lambda>s (a, b, c). s\<lparr>gbMeta := a, gbSpec := b, gbStatus := c\<rparr>"])
    (intro copier_intros, auto simp: DeepCopyIntoBookmark_def struct_simps)

lemma bookmarkGroup_copier [copier_intros]:
  "machinery_ok am \<Longrightarrow> copier (DeepCopyIntoBookmarkGroup am) (obsBookmarkGroup am)"
  unfolding obsBookmarkGroup_def
  by (rule copier_structI [where
        c = "copyPair (amObjectMeta am) (copyPair DeepCopyIntoBookmarkGroupSpec (DeepCopyIntoBookmarkGroupStatus am))"
        and put = "\<lambda>s (a, b, c). s\<lparr>ggMeta := a, ggSpec := b, ggStatus := c\<rparr>"])
    (intro copier_intros, auto simp: DeepCopyIntoBookmarkGroup_def struct_simps)

lemma infoTile_copier [copier_intros]:
  "machinery_ok am \<Longrightarrow> copier (DeepCopyIntoInfoTile am) (obsInfoTile am)"
  unfolding obsInfoTile_def
  by (rule copier_structI [where
        c = "copyPair (amObjectMeta am) (copyPair DeepCopyIntoInfoTileSpec (DeepCopyIntoInfoTileStatus am))"
        and put = "\<lambda>s (a, b, c). s\<lparr>gtMeta := a, gtSpec := b, gtStatus := c\<rparr>"])
    (intro copier_intros, auto simp: DeepCopyIntoInfoTile_def struct_simps)

lemma forecastleApp_copier [copier_intros]:
  "machinery_ok am \<Longrightarrow> copier (DeepCopyIntoForecastleApp am) (obsForecastleApp am)"
  unfolding obsForecastleApp_def
  by (rule copier_structI [where
        c = "copyPair (amObjectMeta am) DeepCopyIntoForecastleAppSpec"
        and put = "\<lambda>s (a, b). s\<lparr>gfMeta := a, gfSpec := b, gfStatus := ()\<rparr>"])
    (intro copier_intros, auto simp: DeepCopyIntoForecastleApp_def struct_simps)

text \<open>The four list types differ only in the type of their items.\<close>

lemma list_copier:
  assumes "machinery_ok am" and "copier into ob" and "\<And>x. sel (C x) = Some x"
    and "\<And>s. f s = do {
      meta \<leftarrow> amListMeta am (glMeta s);
      items \<leftarrow> copyPtr C sel (copyList into) (glItems s);
      State_Monad.return (s\<lparr>glMeta := meta, glItems := items\<rparr>) }"
  shows "copier f (obsItems am sel ob)"
  unfolding obsItems_def
  by (rule copier_structI [where
        c = "copyPair (amListMeta am) (copyPtr C sel (copyList into))"
        and put = "\<lambda>s (a, b). s\<lparr>glMeta := a, glItems := b\<rparr>"])
    (intro copier_ptr copier_intros assms(1,2), auto simp: assms(3,4) struct_simps)

lemma bookmarkList_copier [copier_intros]:
  "machinery_ok am \<Longrightarrow> copier (DeepCopyIntoBookmarkList am) (obsItems am asBookmarks (obsBookmark am))"
  by (rule list_copier [where C = CBookmarks and into = "DeepCopyIntoBookmark am"])
    (auto intro: copier_intros simp: as_defs DeepCopyIntoBookmarkList_def)

lemma bookmarkGroupList_copier [copier_intros]:
  "machinery_ok am \<Longrightarrow> copier (DeepCopyIntoBookmarkGroupList am) (obsItems am asBookmarkGroups (obsBookmarkGroup am))"
  by (rule list_copier [where C = CBookmarkGroups and into = "DeepCopyIntoBookmarkGroup am"])
    (auto intro: copier_intros simp: as_defs DeepCopyIntoBookmarkGroupList_def)

lemma infoTileList_copier [copier_intros]:
  "machinery_ok am \<Longrightarrow> copier (DeepCopyIntoInfoTileList am) (obsItems am asInfoTiles (obsInfoTile am))"
  by (rule list_copier [where C = CInfoTiles and into = "DeepCopyIntoInfoTile am"])
    (auto intro: copier_intros simp: as_defs DeepCopyIntoInfoTileList_def)

lemma forecastleAppList_copier [copier_intros]:
  "machinery_ok am \<Longrightarrow> copier (DeepCopyIntoForecastleAppList am) (obsItems am asForecastleApps (obsForecastleApp am))"
  by (rule list_copier [where C = CForecastleApps and into = "DeepCopyIntoForecastleApp am"])
    (auto intro: copier_intros simp: as_defs DeepCopyIntoForecastleAppList_def)

section \<open>Copies of runtime objects\<close>

text \<open>
  The value of an object: its type and everything in it that the other theories read; of a list the type, the
  metadata and the items. A nil slice or map has the value of an empty one.
\<close>

datatype objectValue =
    VBookmark "typeMeta \<times> Bookmark" | VBookmarks "typeMeta \<times> any \<times> (typeMeta \<times> Bookmark) list"
  | VBookmarkGroup "typeMeta \<times> BookmarkGroup" | VBookmarkGroups "typeMeta \<times> any \<times> (typeMeta \<times> BookmarkGroup) list"
  | VInfoTile "typeMeta \<times> InfoTile" | VInfoTiles "typeMeta \<times> any \<times> (typeMeta \<times> InfoTile) list"
  | VForecastleApp "typeMeta \<times> ForecastleApp" | VForecastleApps "typeMeta \<times> any \<times> (typeMeta \<times> ForecastleApp) list"

definition obsPointer :: "('v \<Rightarrow> objectValue) \<Rightarrow> ('x cell \<Rightarrow> 'a option) \<Rightarrow> ('x cell, 'a, 'v) observer \<Rightarrow>
    ('x cell, addr, objectValue) observer" where
  "obsPointer V sel ob h p =
     (case obsPtr sel ob h (Some p) of Some (Some v, as) \<Rightarrow> Some (V v, as) | _ \<Rightarrow> None)"

fun obsObject :: "'x ApiMachinery \<Rightarrow> 'x cell list \<Rightarrow> runtimeObject \<Rightarrow> (objectValue \<times> addr list) option" where
  "obsObject am h (OBookmark p) = obsPointer VBookmark asBookmark (obsBookmark am) h p"
| "obsObject am h (OBookmarkList p) =
     obsPointer VBookmarks asBookmarkList (obsItems am asBookmarks (obsBookmark am)) h p"
| "obsObject am h (OBookmarkGroup p) = obsPointer VBookmarkGroup asBookmarkGroup (obsBookmarkGroup am) h p"
| "obsObject am h (OBookmarkGroupList p) =
     obsPointer VBookmarkGroups asBookmarkGroupList (obsItems am asBookmarkGroups (obsBookmarkGroup am)) h p"
| "obsObject am h (OInfoTile p) = obsPointer VInfoTile asInfoTile (obsInfoTile am) h p"
| "obsObject am h (OInfoTileList p) =
     obsPointer VInfoTiles asInfoTileList (obsItems am asInfoTiles (obsInfoTile am)) h p"
| "obsObject am h (OForecastleApp p) = obsPointer VForecastleApp asForecastleApp (obsForecastleApp am) h p"
| "obsObject am h (OForecastleAppList p) =
     obsPointer VForecastleApps asForecastleAppList (obsItems am asForecastleApps (obsForecastleApp am)) h p"

text \<open>What one method \<open>DeepCopyObject\<close> has to satisfy, and that a copier of pointers gives it.\<close>

definition independent_copy ::
    "('x cell list \<Rightarrow> runtimeObject \<Rightarrow> (objectValue \<times> addr list) option) \<Rightarrow> ('x cell, runtimeObject option) go \<Rightarrow>
     'x cell list \<Rightarrow> runtimeObject \<Rightarrow> objectValue \<Rightarrow> addr list \<Rightarrow> bool" where
  "independent_copy ob m h x v as \<longleftrightarrow>
     (\<exists>y k bs. run_state m h = (Some y, h @ k) \<and> ob (h @ k) y = Some (v, bs) \<and> set as \<inter> set bs = {} \<and>
        (\<forall>h'. (\<forall>a \<in> set as. load h' a = load h a) \<longrightarrow> ob h' x = Some (v, as)) \<and>
        (\<forall>h'. (\<forall>b \<in> set bs. load h' b = load (h @ k) b) \<longrightarrow> ob h' y = Some (v, bs)))"

lemma obsPointer_Some:
  "obsPointer V sel ob h p = Some (v, as) \<longleftrightarrow>
     (\<exists>w. obsPtr sel ob h (Some p) = Some (Some w, as) \<and> v = V w)"
  by (auto simp: obsPointer_def obsPtr_def split: option.splits)

lemma independent_copyI:
  assumes A: "copier into ob" and sel: "\<And>x. sel (C x) = Some x"
    and obj: "\<And>h p. obj h (wrap p) = obsPointer V sel ob h p"
    and v: "obj h (wrap p) = Some (v, as)"
  shows "independent_copy obj
    (do { c \<leftarrow> copyPtr C sel into (Some p);
          State_Monad.return (case c of Some q \<Rightarrow> Some (wrap q) | None \<Rightarrow> None) }) h (wrap p) v as"
proof -
  note P = copier_ptr [OF A sel]
  from v obtain w where w: "obsPtr sel ob h (Some p) = Some (Some w, as)" "v = V w"
    by (auto simp: obj obsPointer_Some)
  from copier.copy_independent [OF P w(1)] obtain q k bs where
    q: "run_state (copyPtr C sel into (Some p)) h = (q, h @ k)"
    "obsPtr sel ob (h @ k) q = Some (Some w, bs)" "set as \<inter> set bs = {}" by blast
  then obtain q' where q': "q = Some q'" by (cases q) auto
  have "obsPtr sel ob h' (Some p) = Some (Some w, as)" if "\<forall>a \<in> set as. load h' a = load h a" for h'
    by (rule copier.obs_local [OF P w(1)]) (simp add: that)
  moreover have "obsPtr sel ob h' (Some q') = Some (Some w, bs)"
    if "\<forall>b \<in> set bs. load h' b = load (h @ k) b" for h'
    by (rule copier.obs_local [OF P q(2) [unfolded q']]) (simp add: that)
  ultimately show ?thesis
    unfolding independent_copy_def
    using q w(2) q'
    by (intro exI [of _ "wrap q'"] exI [of _ k] exI [of _ bs]) (simp add: obj obsPointer_Some)
qed

lemmas object_defs =
  DeepCopyObjectBookmark_def DeepCopyBookmark_def
  DeepCopyObjectBookmarkList_def DeepCopyBookmarkList_def
  DeepCopyObjectBookmarkGroup_def DeepCopyBookmarkGroup_def
  DeepCopyObjectBookmarkGroupList_def DeepCopyBookmarkGroupList_def
  DeepCopyObjectInfoTile_def DeepCopyInfoTile_def
  DeepCopyObjectInfoTileList_def DeepCopyInfoTileList_def
  DeepCopyObjectForecastleApp_def DeepCopyForecastleApp_def
  DeepCopyObjectForecastleAppList_def DeepCopyForecastleAppList_def

section \<open>Properties\<close>

definition exampleMachinery :: "ObjectMeta ApiMachinery" where
  "exampleMachinery = \<lparr>amObjectMeta = State_Monad.return, amListMeta = State_Monad.return,
     amCondition = State_Monad.return,
     amTime = (\<lambda>a. do { t \<leftarrow> loaded asTime a; alloc (CTime (case t of Some t \<Rightarrow> t | None \<Rightarrow> 0)) }),
     amMetaOf = obsFlat, amListMetaOf = (\<lambda>_ m. Some (AString (omName m), [])), amConditionOf = (\<lambda>_ m. Some (AString (omName m), []))\<rparr>"

definition exampleHeap :: "ObjectMeta cell list" where
  "exampleHeap =
    [CLocalObjectReference \<lparr>lorName = ''web''\<rparr>,
     CURLSource \<lparr>guIngressRef = Some 0, guRouteRef = None, guIngressRouteRef = None, guHTTPRouteRef = None,
       guGRPCRouteRef = None, guServiceRef = None\<rparr>,
     CStrings [''ops'', ''dev''], CMap [(''owner'', ''team'')], CBool True, CTime 7,
     CBookmark \<lparr>gbTypeMeta = (''Bookmark'', ''v1alpha1''),
       gbMeta = \<lparr>omNamespace = ''ns'', omName = ''shop'', omAnnotations = []\<rparr>,
       gbSpec = \<lparr>gbsGroup = ''apps'', gbsName = ''Shop'', gbsURL = [], gbsURLFrom = Some 1, gbsTarget = [],
         gbsIcon = [], gbsNetworkRestricted = False, gbsReplicate = True, gbsGroups = Some 2,
         gbsProperties = Some 3\<rparr>,
       gbStatus = \<lparr>gbstURLReachable = Some 4, gbstLastURLCheckAt = Some 5, gbstURLCheckError = [],
         gbstLastSyncedAt = Some 5, gbstConditions = None\<rparr>\<rparr>]"

text \<open>
  C11: a deep copy of an object of either API group, through the interface \<open>runtime.Object\<close>, has the
  same value as the original and shares no memory with it: no object reachable from one is
  reachable from the other, so whatever is written into the memory of the copy leaves the original as it
  was, and the other way round. The memory that was allocated before is not changed.
\<close>

theorem DeepCopyObject_independent:
  assumes "machinery_ok am" and "obsObject am h x = Some (v, as)"
  shows "\<exists>y k bs. run_state (DeepCopyObject am x) h = (Some y, h @ k) \<and>
    obsObject am (h @ k) y = Some (v, bs) \<and> set as \<inter> set bs = {} \<and>
    (\<forall>h'. (\<forall>a \<in> set as. load h' a = load h a) \<longrightarrow> obsObject am h' x = Some (v, as)) \<and>
    (\<forall>h'. (\<forall>b \<in> set bs. load h' b = load (h @ k) b) \<longrightarrow> obsObject am h' y = Some (v, bs))"
proof -
  have "independent_copy (obsObject am) (DeepCopyObject am x) h x v as"
    using assms by (cases x) (auto simp: object_defs as_defs intro!: independent_copyI copier_intros)
  then show ?thesis unfolding independent_copy_def .
qed

lemma example_machinery_ok: "machinery_ok exampleMachinery"
proof -
  have "copier (amTime exampleMachinery) obsTime"
  proof
    show "a < length h" if "obsTime h p = Some (t, as)" "a \<in> set as" for h p t as a
      using that by (auto simp: obsTime_def split: bind_splits)
    show "obsTime h' p = Some (t, as)"
      if "obsTime h p = Some (t, as)" "\<And>a. a \<in> set as \<Longrightarrow> load h' a = load h a" for h h' p t as
      using that by (auto simp: obsTime_def)
    show "\<exists>q k bs. run_state (amTime exampleMachinery p) h = (q, h @ k) \<and> obsTime (h @ k) q = Some (t, bs) \<and>
        (\<forall>b \<in> set bs. length h \<le> b)" if "obsTime h p = Some (t, as)" for h p t as
      using that by (auto simp: obsTime_def exampleMachinery_def as_defs)
  qed
  moreover have "copier (amListMeta exampleMachinery) (amListMetaOf exampleMachinery)"
    "copier (amCondition exampleMachinery) (amConditionOf exampleMachinery)"
    by (unfold_locales; simp add: exampleMachinery_def)+
  ultimately show ?thesis
    using copier_flat by (simp add: machinery_ok_def) (simp add: exampleMachinery_def)
qed

lemma example_object:
  "obsObject exampleMachinery exampleHeap (OBookmark 6) =
     Some (VBookmark ((''Bookmark'', ''v1alpha1''), \<lparr>bmMeta = \<lparr>omNamespace = ''ns'', omName = ''shop'', omAnnotations = []\<rparr>,
       bmSpec = \<lparr>bsGroup = ''apps'', bsName = ''Shop'', bsURL = [],
         bsURLFrom = Some \<lparr>usIngressRef = Some \<lparr>lorName = ''web''\<rparr>, usRouteRef = None, usIngressRouteRef = None,
           usHTTPRouteRef = None, usGRPCRouteRef = None, usServiceRef = None\<rparr>,
         bsTarget = [], bsIcon = [], bsNetworkRestricted = False, bsReplicate = True,
         bsGroups = [''ops'', ''dev''], bsProperties = [(''owner'', ''team'')]\<rparr>,
       bmStatus = \<lparr>bstURLReachable = Some True, bstLastURLCheckAt = Some 7, bstURLCheckError = [],
         bstLastSyncedAt = Some 7, bstConditions = []\<rparr>\<rparr>), [6, 1, 0, 2, 3, 4, 5, 5])"
  by code_simp

theorem DeepCopyObject_independent_witness:
  "\<exists>v y k bs. obsObject exampleMachinery exampleHeap (OBookmark 6) = Some (v, [6, 1, 0, 2, 3, 4, 5, 5]) \<and>
     run_state (DeepCopyObject exampleMachinery (OBookmark 6)) exampleHeap = (Some y, exampleHeap @ k) \<and>
     obsObject exampleMachinery (exampleHeap @ k) y = Some (v, bs) \<and>
     set [6, 1, 0, 2, 3, 4, 5, 5] \<inter> set bs = {}"
proof -
  obtain v where v: "obsObject exampleMachinery exampleHeap (OBookmark 6) = Some (v, [6, 1, 0, 2, 3, 4, 5, 5])"
    using example_object by (rule that)
  from DeepCopyObject_independent [OF example_machinery_ok v] v show ?thesis by (elim exE conjE) (intro exI conjI)
qed

end
