(* ===== verification/Spec2Isabelle.thy ===== *)
theory Spec2Isabelle
  imports Servers Sessions Controllers Webhooks Deep_Copy
begin

text \<open>
  Cupboard is a Kubernetes operator that shows a dashboard of links and small information tiles.
  This development models its Go code and proves what the dashboard may show, to whom, and where
  it comes from.

  \<^bold>\<open>The program.\<close> Users describe links as \<open>Bookmark\<close> and \<open>BookmarkGroup\<close> objects and tiles as
  \<open>InfoTile\<close> objects; labelled and annotated objects of other kinds (ingresses, routes of several
  gateways, services, endpoint slices, DNS endpoints), \<open>ForecastleApp\<close> objects and static links of
  the configuration add to them.
    \<^item> Validating webhooks admit bookmarks, controllers check their URLs, count them per group and
      render the tiles; all of them write only the status of their objects.
    \<^item> On a request the dashboard lists all these objects through the cache of the manager, groups
      the links, merges what the sync client has fetched from peer instances and what the fleet
      manager reads from foreign clusters, drops the links that demand a group the user does not
      have, and sorts.
    \<^item> The web server answers requests with that dashboard, after authentication by a bearer token
      or a signed session cookie, and tells WebSocket clients about changes; the sync server
      answers peers with the part of the dashboard that is marked for replication.
    \<^item> \<open>main\<close> reads flags, environment and configuration file, wires all of this together and runs until
      it is told to stop. The objects themselves pass between cache, controllers and handlers as
      deep copies.

  \<^bold>\<open>Theories.\<close> The order is that of the imports.
    \<^item> \<open>Go_Strings\<close>, \<open>Go_Runtime\<close>: the prelude. Package \<open>strings\<close> on byte strings, 64-bit and
      32-bit integers as words, Go maps as association lists whose iteration order is an argument
      (\<open>order\<close>), stable sorting with the laws of the locale \<open>keyed_order\<close>, and dynamically typed values.
    \<^item> \<open>Api_Types\<close>: the structs of \<open>api/\<close>, the Kubernetes objects the program reads, and its
      access to the cluster as the records \<open>Reader\<close> and \<open>Discovery\<close>.
    \<^item> \<open>Url_Resolver\<close>: \<open>internal/webhook/dashboard/v1alpha1/url_resolver.go\<close>.
    \<^item> \<open>Dashboard_Data\<close>: the types of \<open>web/dashboard.go\<close> and \<open>web/options.go\<close>, the filters by user
      group and by replication, and the order of link groups.
    \<^item> \<open>Collectors\<close>: one definition for every collector of \<open>web/dashboard.go\<close>, each an interpretation
      of \<open>collector_step\<close>, most of them through \<open>link_collector\<close>.
    \<^item> \<open>Sync\<close>: the sync client and the TLS settings of \<open>web/sync.go\<close>; \<open>polled_cache\<close> is the contract of
      its cache.
    \<^item> \<open>Fleet\<close>: \<open>internal/foreigncluster\<close>; \<open>connector\<close> is the contract of a cluster connection.
    \<^item> \<open>Dashboard\<close>: \<open>collectDashboard\<close> with both merges and the response.
    \<^item> \<open>Auth\<close>: \<open>web/auth.go\<close>; \<open>signed_token\<close> is the contract of the cookie.
    \<^item> \<open>Templates\<close>: \<open>web/templates.go\<close> and \<open>readRootAsset\<close>.
    \<^item> \<open>Notifier\<close>: \<open>web/notifier.go\<close>, its functions as code over a mutex and its goroutines as a step relation.
    \<^item> \<open>Http_Handler\<close>: \<open>NewHandler\<close> of \<open>web/handler.go\<close> with the OpenAPI document, and \<open>newSyncHandler\<close> of
      \<open>web/sync.go\<close>.
    \<^item> \<open>Sessions\<close>: sequences of requests to one server; login and use of the session.
    \<^item> \<open>Webhooks\<close>: the validators of \<open>internal/webhook/dashboard/v1alpha1\<close>.
    \<^item> \<open>Controllers\<close>: the reconcilers of \<open>internal/controller/dashboard\<close>, each an interpretation of
      \<open>status_writer\<close>.
    \<^item> \<open>Main_Config\<close>, \<open>Watches\<close>, \<open>Startup\<close>, \<open>Servers\<close>: \<open>cmd/main.go\<close>. From flags and configuration to
      settings; the informers that notify the dashboard; scheme, controllers, webhooks and the wiring
      of all parts (with \<open>groupversion_info.go\<close>, the \<open>init\<close> functions of the types and the
      \<open>SetupWithManager\<close> functions); the life of the two HTTP servers and the exit status.
    \<^item> \<open>Go_Heap\<close>, \<open>Deep_Copy\<close>: \<open>zz_generated.deepcopy.go\<close> of both API groups over an explicit heap;
      \<open>copier\<close> is the contract of a deep copy, and there is an interpretation of it for every type.
    \<^item> This theory: properties over several of them.

  \<^bold>\<open>How code becomes definitions.\<close> A struct is a record, with a prefix on its field names; an error
  is a value of the datatype \<open>error\<close>, a fallible function returns \<open>error + 'a\<close> or, where the code
  returns state that it had changed before the error, a pair. A pointer that may be nil is an option.
  A method that changes its receiver returns the changed record. Code outside the repository is a
  parameter, gathered per component in a record: \<open>Reader\<close> and \<open>Discovery\<close> (API server), \<open>SyncWorld\<close>
  (DNS, certificates, HTTP, JSON of peers), \<open>FleetWorld\<close> and \<open>AzureWorld\<close> (client-go, token endpoint,
  clock), \<open>AuthWorld\<close> (HMAC, JSON, clock, identity provider), \<open>HandlerWorld\<close> (page rendering, assets, proxy transport),
  \<open>ControlWorld\<close> and \<open>TileWorld\<close> (clock, HTTP, templates, status updates), \<open>viper\<close> (configuration
  values), \<open>MainWorld\<close> (manager, files, issuer), \<open>ApiMachinery\<close> (deep copies of the Kubernetes structs)
  and \<open>unicode\<close> (case mapping beyond ASCII). Theorems hold for every value of
  these parameters except for the hypotheses they name.

  Objects are values: the custom resources that cache, controllers and handlers pass to each other are copies.
  That this is sound rests on the deep copies, and there aliasing is the point: \<open>Deep_Copy\<close> has the structs as they
  lie in memory, with pointers, slices and maps as addresses of a heap, in the state monad, and observers
  that read them as the values of the other theories. Three objects are shared between goroutines and written
  to: the sync client, the fleet manager and the notifier. In the program each is one pointer that \<open>main\<close> hands to
  several parts; in \<open>Startup\<close> the parts hold equal values, so that a second object with the same contents would
  not be told apart. Sync client and fleet manager protect their maps by a lock for the length of a
  reading or writing, and each such section is one step of the model; of the notifier the mutex itself is
  modelled.

  \<^bold>\<open>Loops and time.\<close> The loops of the sync client and of the fleet manager are folds over a list of
  rounds, each with the world of that round, so a theorem about every list is one about every
  moment of the loop. The reconcilers are iterated the same way (\<open>storedAfter\<close>). The loop of the
  notifier and the goroutines of the connections are lists of instructions, \<open>Lock\<close> and \<open>Unlock\<close> among them;
  the inductive relation \<open>nstep\<close> takes one instruction of one of them at a time, or a call of \<open>Notify\<close>, a new
  connection or a branch of the loop's \<open>select\<close>. A goroutine that waits for the mutex has no step, so that a deadlock can
  be expressed, and its absence is proved. A server is the relation \<open>serveStep\<close>: the goroutine that serves, the one
  that waits for the end of the context and shuts down, and the requests in progress interleave. The
  probe of the issuer, which may run forever, is a
  \<open>partial_function (option)\<close>, and that it returns is proved from the first answer 200. There is no
  fuel anywhere; all other functions are total. Comparison of priorities, bookmark counters,
  service ports and token lifetimes keep their machine width.

  \<^bold>\<open>What is shown.\<close>
    \<^item> Confidentiality: a dashboard reaches only authenticated requests, a link only users with one of
      its groups; a cookie is accepted only with the HMAC of the server's secret and until it expires;
      the sync endpoint gives away only links and tiles marked for replication and collected locally,
      which also excludes cycles between peers.
    \<^item> Origin: a link stamped with a peer was collected by that peer, one stamped with a foreign cluster
      through a client that was built for this cluster and whose TLS connections are verified against the configured
      store, if there is one (as long as \<open>rest.HTTPClientFor\<close> keeps a configured transport); local links stay first and
      unchanged by the merges; a bookmark link belongs to a bookmark whose last check was answered below 400.
    \<^item> Completeness and order: the response holds exactly the collected links the user may see, in
      a sorted order that does not depend on the iteration of Go maps where the sort keys differ.
    \<^item> Errors: which list errors fail a dashboard, and that nothing else does; which admissions and requests are refused
      and what they leave unchanged; a failing source never blanks a tile.
    \<^item> Sessions: a login gives its user the dashboard for 24 hours, whatever else the server handles; the
      discovery document names the server as issuer; the OpenAPI document says what is served.
    \<^item> State: the sync cache, the fleet connections and the tiles are described by abstract histories
      (last answer, first success, last accepted rendering) and refined by the code.
    \<^item> Notifications: no signal is lost, broadcasts are limited, every registered client is sent the
      message or closed, the map of clients is touched only under the mutex, and no schedule leads into a deadlock. With all
      watches registered and discovery unchanged, the dashboard does not change without a signal, apart from bookmarks,
      objects that references are resolved to, peers, foreign clusters, and tiles that are created, deleted or edited.
    \<^item> Start-up and end: the wiring of the servers; when \<open>main\<close> gets as far as running; that every kind
      it handles by a Go type is registered in the scheme of the manager; that a server stops, with an error only if serving failed.
    \<^item> Memory: a deep copy has the value of its original and shares nothing with it.
    \<^item> Where code and documentation part, or the code does not do what it means to, a lemma shows what
      happens (among them \<open>sortLinkGroups_overflow\<close>, \<open>shutdown_not_awaited\<close>, \<open>default_secret_forgeable\<close>,
      \<open>openid_null_document\<close>, \<open>certificate_files_lost\<close>, \<open>padded_group_not_inherited\<close>,
      \<open>notified_before_update\<close>, \<open>edited_url_unchecked\<close> and \<open>export_link_groups\<close>).

  \<^bold>\<open>Not modelled.\<close> The embed directive and the RBAC markers have no logic. Log messages and the set-up of the
  logger are left out, as are contexts and time-outs inside a request: a request that is cancelled is one
  whose outside calls fail. The file servers of the embedded directories, the template engine, the manager of
  controller-runtime with its signal handling and certificate watchers are code outside the repository and
  parameters. Paths of requests are taken without escapes. The
  TypeScript front end is outside the Go program.
\<close>

section \<open>Lemmas across components\<close>

text \<open>Who may see a link\<close>

definition visible_to :: "string list \<Rightarrow> DashboardLink \<Rightarrow> bool" where
  "visible_to userGroups l \<longleftrightarrow>
     lnGroups l = [] \<or> allLinkGroupsWildcard \<in> TrimSpace ` set userGroups \<or>
     (\<exists>gr \<in> set (lnGroups l). gr \<noteq> [] \<and> gr \<in> TrimSpace ` set userGroups)"

lemma collectDashboard_visible:
  assumes "collectDashboard U ch c userGroups localOnly = Inr dash"
    and "grp \<in> set (drGroups dash)" and "l \<in> set (dgLinks grp)"
  shows "any_link c localOnly (dgLinkGroup grp) l \<and> visible_to userGroups l"
  using collectDashboard_member(1) [OF assms] by (auto simp: visible_to_def linkAllowedForGroups_iff)

text \<open>A link that carries the stamp of a peer came from a peer.\<close>

lemma any_link_sync:
  assumes "any_link c lo g l" and "lnSource l = ''sync:'' @ src"
  shows "\<exists>client. dcSyncClient c = Some client \<and> from_peer client g l"
proof -
  have "\<not> from_annotated (dcReader c) g l"
    using assms(2)
    by (auto simp: from_annotated_def annotatedSources_def from_meta_def linkOf_def mkLink_def)
  moreover have "\<not> from_static (dcStaticLinks c) g l" "\<not> from_forecastle (dcReader c) inst g l"
    "\<not> from_bookmark (dcReader c) g l" "\<not> from_foreign m g l" for inst m
    using assms(2)
    by (auto simp: from_static_def from_forecastle_def forecastleLink_def mkLink_def from_bookmark_def
        bookmarkLink_def from_foreign_def)
  ultimately show ?thesis using assms(1) by (auto simp: any_link_def local_link_def)
qed

lemma any_link_foreign:
  assumes "any_link c lo g l" and "lnSource l = ''foreign:'' @ stamp"
  shows "\<not> lo \<and> (\<exists>m. dcForeignClusters c = Some m \<and> from_foreign m g l)"
proof -
  have "\<not> local_link c g l" "\<not> from_peer client g l" for client
    using assms(2)
    by (auto simp: local_link_def from_annotated_def annotatedSources_def from_meta_def linkOf_def mkLink_def
        from_static_def from_forecastle_def forecastleLink_def from_bookmark_def bookmarkLink_def from_peer_def)
  with assms(1) show ?thesis by (auto simp: any_link_def)
qed

text \<open>The fleet manager that \<open>main\<close> makes\<close>

lemma startFleet_manager:
  assumes "startFleet mw se = Inr (Some m)"
  shows "\<exists>cfgs pool. ParseClusterList (seFleetClusters se) = Inr cfgs \<and> mgConfigs m = cfgs \<and>
    mgCaPool m = pool \<and> LoadFleetCAPool (mwReadFile mw) (mwPEM mw) (seFleetTrustStore se) = Inr pool"
  using assms
  by (auto simp: startFleet_def bindE_def checked_def NewManager_def Let_def
      split: if_splits sum.splits option.splits)

text \<open>What the dashboard shows of a tile changes only with a call of \<open>Notify\<close>.\<close>

lemma silent_infoTile:
  assumes "\<not> notified ws tile"
  shows "tileGroup (storedAfter reconcileInfoTile ws tile) = tileGroup tile \<and>
    infoTile (storedAfter reconcileInfoTile ws tile) = infoTile tile"
  using info_tiles.storedAfter_spec [of ws tile] silent_content [OF assms]
  by (simp add: tileGroup_def infoTile_def Let_def)

text \<open>What a peer decodes from a reply of the sync endpoint\<close>

lemma syncHandler_member:
  assumes "rpBody (syncHandler w inst r) = BDashboard payload"
    and "grp \<in> set (drGroups (onWire payload))" and "l \<in> set (dgLinks grp)"
  shows "\<exists>l0. local_link inst (dgLinkGroup grp) l0 \<and> lnReplicate l0 \<and> l = l0\<lparr>lnReplicate := False\<rparr>"
proof -
  from assms(1) have run: "collectDashboard (hwUnicode w) (hwOrder w) inst [allLinkGroupsWildcard] True = Inr payload"
    by (auto simp: syncHandler_def split: if_splits sum.splits)
  from assms(2,3) obtain grp0 l0 where "grp0 \<in> set (drGroups payload)" "l0 \<in> set (dgLinks grp0)"
    "dgLinkGroup grp = dgLinkGroup grp0" "l = l0\<lparr>lnReplicate := False\<rparr>"
    by (auto simp: onWire_def)
  with collectDashboard_member(1) [OF run] show ?thesis by (auto simp: any_link_def)
qed

section \<open>Properties across components\<close>

text \<open>
  C3: replication from end to end. An instance whose sync client has run any number of rounds, each
  successful fetch answered by the sync endpoint of the instance behind that URL, shows to a user
  under a peer's stamp only links that this very peer collected itself and marked for replication,
  and only those that are unrestricted or demand a group the user has (or the user holds the
  wildcard).
\<close>

theorem replication_end_to_end:
  assumes "NewSyncClient w0 options = Inr s0" and "dcSyncClient c = Some (SyncStart rounds s0)"
    and "\<And>v peer resp. v \<in> set rounds \<Longrightarrow> fetchFromPeer v s0 peer = Inr resp \<Longrightarrow>
      \<exists>w r payload. rpBody (syncHandler w (instances peer) r) = BDashboard payload \<and> resp = onWire payload"
    and "collectDashboard U ch c userGroups False = Inr dash"
    and "grp \<in> set (drGroups dash)" and "l \<in> set (dgLinks grp)" and "lnSource l = ''sync:'' @ src"
  shows "\<exists>g l0. local_link (instances src) g l0 \<and> lnReplicate l0 \<and>
      l = l0\<lparr>lnReplicate := False, lnSource := ''sync:'' @ src\<rparr> \<and> visible_to userGroups l0"
proof -
  have member: "any_link c False (dgLinkGroup grp) l"
    and visible: "visible_to userGroups l"
    using collectDashboard_visible [OF assms(4-6)] by auto
  from any_link_sync [OF member assms(7)] assms(2)
  have "from_peer (SyncStart rounds s0) (dgLinkGroup grp) l" by auto
  then obtain peer resp g0 link where peer: "map_of (GetRemoteData (SyncStart rounds s0)) peer = Some resp"
    "g0 \<in> set (drGroups resp)" "link \<in> set (dgLinks g0)" "l = link\<lparr>lnSource := ''sync:'' @ peer\<rparr>"
    by (auto simp: from_peer_def)
  with assms(7) have src: "peer = src" by simp
  have s0: "gm_wf (scCache s0)" "map_of (GetRemoteData s0) peer = None"
    using assms(1) by (auto simp: NewSyncClient_def GetRemoteData_def split: sum.splits)
  from pc.rounds_origin [OF s0(1) peer(1) [unfolded SyncStart_def]] s0(2)
  obtain v where v: "v \<in> set rounds"
    "(case fetchFromPeer v s0 peer of Inr r \<Rightarrow> Some r | Inl _ \<Rightarrow> None) = Some resp" by auto
  then have "fetchFromPeer v s0 peer = Inr resp" by (cases "fetchFromPeer v s0 peer") auto
  from assms(3) [OF v(1) this] obtain w r payload where
    wp: "rpBody (syncHandler w (instances peer) r) = BDashboard payload" "resp = onWire payload" by auto
  from syncHandler_member [OF wp(1) peer(2) [unfolded wp(2)] peer(3)]
  obtain l0 where l0: "local_link (instances peer) (dgLinkGroup g0) l0" "lnReplicate l0"
    "link = l0\<lparr>lnReplicate := False\<rparr>" by auto
  have "visible_to userGroups l0" using visible l0(3) peer(4) by (simp add: visible_to_def)
  with l0 peer(4) src show ?thesis
    by (intro exI [of _ "dgLinkGroup g0"] exI [of _ l0] conjI) simp_all
qed

definition syncedWorld :: SyncWorld where
  "syncedWorld = exampleWorld\<lparr>swDecode := (\<lambda>_. Inr (onWire demoExport))\<rparr>"

definition syncedCollector :: dashboardCollector where
  "syncedCollector = demoCollector\<lparr>dcSyncClient := Some (SyncStart [syncedWorld] exampleClient),
     dcForeignClusters := None\<rparr>"

lemma demo_syncHandler:
  "rpBody (syncHandler (exampleWorldOf (exampleAuthWorld 0)) demoCollector
     (exampleRequest ''GET'' ''/dashboard'' [])) = BDashboard demoExport"
  by code_simp

lemma syncedWorld_answers: "fetchFromPeer syncedWorld s peer = Inr resp \<Longrightarrow> resp = onWire demoExport"
  by (auto simp: fetchFromPeer_def syncedWorld_def split: option.splits sum.splits if_splits)

lemma syncedCollector_shows:
  "case collectDashboard demoUnicode demoOrder syncedCollector [] False of
     Inl e \<Rightarrow> False
   | Inr dash \<Rightarrow> list_ex (\<lambda>grp. list_ex (\<lambda>l. lnSource l = ''sync:https://a'' \<and> lnName l = ''wiki'') (dgLinks grp))
       (drGroups dash)"
  by code_simp

theorem replication_end_to_end_witness:
  "\<exists>g l0. local_link demoCollector g l0 \<and> lnReplicate l0 \<and> lnName l0 = ''wiki''"
proof -
  obtain dash grp l where
    d: "collectDashboard demoUnicode demoOrder syncedCollector [] False = Inr dash"
      "grp \<in> set (drGroups dash)" "l \<in> set (dgLinks grp)" "lnSource l = ''sync:'' @ ''https://a''" "lnName l = ''wiki''"
    using syncedCollector_shows by (auto simp: list_ex_iff split: sum.splits)
  have "dcSyncClient syncedCollector = Some (SyncStart [syncedWorld] exampleClient)"
    by (simp add: syncedCollector_def)
  moreover have "\<exists>w r payload. rpBody (syncHandler w demoCollector r) = BDashboard payload \<and> resp = onWire payload"
    if "v \<in> set [syncedWorld]" "fetchFromPeer v exampleClient peer = Inr resp" for v peer resp
  proof -
    have "resp = onWire demoExport" using that by (auto dest: syncedWorld_answers)
    with demo_syncHandler show ?thesis by blast
  qed
  ultimately obtain g l0 where "local_link demoCollector g l0" "lnReplicate l0"
      "l = l0\<lparr>lnReplicate := False, lnSource := ''sync:'' @ ''https://a''\<rparr>"
    using replication_end_to_end [of exampleWorld "scOptions exampleClient" exampleClient syncedCollector
      "[syncedWorld]" "\<lambda>_. demoCollector", OF exampleClient_new _ _ d(1-4)] by blast
  then show ?thesis using d(5) by (intro exI [of _ g] exI [of _ l0]) simp
qed

text \<open>
  The life of a bookmark after its creation: reconciliations, and edits of its specification, which leave the
  status as it is. \<open>bookmarkLife\<close> is the bookmark after a sequence of them, \<open>admittedLife\<close> says that the webhook
  admitted every edit, and \<open>storesCheck\<close> that a reconciliation checks the URL and its update is stored.
\<close>

datatype bookmarkEvent = Reconciled ControlWorld Reader | Edited BookmarkSpec

fun afterEvent :: "bookmarkEvent \<Rightarrow> Bookmark \<Rightarrow> Bookmark" where
  "afterEvent (Reconciled w r) b = stored reconcileBookmark (w, r) b"
| "afterEvent (Edited spec) b = b\<lparr>bmSpec := spec\<rparr>"

definition bookmarkLife :: "bookmarkEvent list \<Rightarrow> Bookmark \<Rightarrow> Bookmark" where
  "bookmarkLife evs b = fold afterEvent evs b"



lemma bookmarkLife_simps [simp]:
  "bookmarkLife [] b = b" "bookmarkLife (e # evs) b = bookmarkLife evs (afterEvent e b)"
  "bookmarkLife (evs @ evs') b = bookmarkLife evs' (bookmarkLife evs b)"
  by (simp_all add: bookmarkLife_def)







definition editedBookmark :: "bookmarkEvent list" where
  "editedBookmark = [Reconciled exampleControl exampleReader,
     Edited ((bmSpec exampleBookmark)\<lparr>bsURL := ''https://other.example'', bsURLFrom := None\<rparr>)]"

definition bookmarkCollector :: dashboardCollector where
  "bookmarkCollector = demoCollector\<lparr>dcReader := demoReader\<lparr>rdListBookmarks :=
     Inr (map (\<lambda>(evs, b). bookmarkLife evs b) [(editedBookmark, exampleBookmark)])\<rparr>\<rparr>"



text \<open>
  An edit is not checked until the interval is over: the bookmark above is shown with a URL that does not answer,
  and within five minutes of the good check of its former URL no reconciliation checks it.
\<close>

lemma edited_url_unchecked:
  "(case rdListBookmarks (dcReader bookmarkCollector) of
      Inl e \<Rightarrow> False
    | Inr bs \<Rightarrow> list_all (\<lambda>b. bsURL (bmSpec b) = ''https://other.example'' \<and> bstURLReachable (bmStatus b) = Some True \<and>
        \<not> urlCheckDue (exampleControl\<lparr>cwNow := (\<lambda>n. 1299 * second)\<rparr>) b) bs)"
  "\<not> answers exampleControl ''https://other.example'' code"
proof -
  show "case rdListBookmarks (dcReader bookmarkCollector) of
      Inl e \<Rightarrow> False
    | Inr bs \<Rightarrow> list_all (\<lambda>b. bsURL (bmSpec b) = ''https://other.example'' \<and> bstURLReachable (bmStatus b) = Some True \<and>
        \<not> urlCheckDue (exampleControl\<lparr>cwNow := (\<lambda>n. 1299 * second)\<rparr>) b) bs" by code_simp
  show "\<not> answers exampleControl ''https://other.example'' code" by (simp add: answers_def exampleControl_def)
qed

text \<open>
  C8: a foreign cluster from the configuration to the dashboard. Take the fleet manager as \<open>main\<close>
  makes it from the settings and let it run any number of ticks. A link the dashboard stamps as foreign
  was collected through the client of some successful connection to a cluster that the settings
  list. That client was built for this cluster's endpoint, over the HTTP client that \<open>rest.HTTPClientFor\<close>
  returned or, where it failed, over the configured transport; if a trust store is configured, then its TLS
  connections are verified against the certificates of that store, as long as \<open>rest.HTTPClientFor\<close> at most wraps
  a configured transport (\<open>keepsTransport\<close>). The link was marked for replication there, carries the endpoint in its stamp, is
  never part of an export, and the user may see it.
\<close>

theorem foreign_end_to_end:
  assumes "startFleet mw se = Inr (Some m)" and "dcForeignClusters c = Some (ManagerStart w ticks m)"
    and "collectDashboard U ch c userGroups localOnly = Inr dash"
    and "grp \<in> set (drGroups dash)" and "l \<in> set (dgLinks grp)" and "lnSource l = ''foreign:'' @ stamp"
    and "\<forall>v \<in> set (w # ticks). keepsTransport v"
  shows "\<not> localOnly \<and> (\<exists>cfgs pool cfg v rc t r l0.
    ParseClusterList (seFleetClusters se) = Inr cfgs \<and> cfg \<in> set cfgs \<and>
    LoadFleetCAPool (mwReadFile mw) (mwPEM mw) (seFleetTrustStore se) = Inr pool \<and>
    v \<in> set (w # ticks) \<and> httpClientOf v rc t \<and> fwNewClient v rc t = Inr r \<and> rcHost rc = ccEndpoint cfg \<and>
    (\<forall>p. pool = Some p \<longrightarrow> trusts_only p rc \<and> rootCAs t = Some p) \<and>
    foreign_link r (dgLinkGroup grp) l0 \<and> lnReplicate l0 \<and>
    l = l0\<lparr>lnSource := ''foreign:'' @ ccEndpoint cfg @ '':'' @ lnSource l0\<rparr> \<and> visible_to userGroups l0)"
proof -
  have member: "any_link c localOnly (dgLinkGroup grp) l"
    and visible: "visible_to userGroups l"
    using collectDashboard_visible [OF assms(3-5)] by auto
  from any_link_foreign [OF member assms(6)] assms(2)
  have local: "\<not> localOnly" and "from_foreign (ManagerStart w ticks m) (dgLinkGroup grp) l" by auto
  then obtain fc r l0 where fc: "fc \<in> set (ActiveClusters (ManagerStart w ticks m))" "ciClient fc = Some r"
    and l0: "foreign_link r (dgLinkGroup grp) l0" "lnReplicate l0"
      "l = l0\<lparr>lnSource := ''foreign:'' @ ciName fc @ '':'' @ lnSource l0\<rparr>"
    unfolding from_foreign_def by blast
  from startFleet_manager [OF assms(1)] obtain cfgs pool where
    m: "ParseClusterList (seFleetClusters se) = Inr cfgs" "mgConfigs m = cfgs" "mgCaPool m = pool"
      "LoadFleetCAPool (mwReadFile mw) (mwPEM mw) (seFleetTrustStore se) = Inr pool" by blast
  from ActiveClusters_origin [OF fc(1)] fc(2) m(2,3) obtain cfg v rc t where
    cfg: "cfg \<in> set cfgs" "ciName fc = ccEndpoint cfg" and v: "v \<in> set (w # ticks)"
    and rc: "BuildRESTConfig v cfg pool (mgKubeconfigPath m) = Inr rc" "fwNewClient v rc t = Inr r"
      "httpClientOf v rc t" by auto
  have "keepsTransport v" using assms(7) v by blast
  with rc(1,3) have "\<forall>p. pool = Some p \<longrightarrow> trusts_only p rc \<and> rootCAs t = Some p"
    using BuildRESTConfig_trusts httpClientOf_trusts by blast
  moreover have "visible_to userGroups l0" using visible l0(3) by (simp add: visible_to_def)
  moreover have "l = l0\<lparr>lnSource := ''foreign:'' @ ccEndpoint cfg @ '':'' @ lnSource l0\<rparr>"
    using l0(3) cfg(2) by simp
  ultimately show ?thesis
    using local m(1,4) cfg(1) v rc(2,3) BuildRESTConfig_host [OF rc(1)] l0(1,2) by blast
qed

definition fleetWorld :: FleetWorld where
  "fleetWorld = exampleFleetWorld\<lparr>fwNewClient := (\<lambda>rc t. Inr demoReader),
     fwHTTPClientFor := (\<lambda>rc. case rcTransport rc of
       None \<Rightarrow> Inl (External ''no transport'') | Some tr \<Rightarrow> Inr (WrappedTransport tr))\<rparr>"

definition fleetEntries :: "string list" where
  "fleetEntries = ['' '', ''https://k8s = azure-workload-identity: api'']"

definition fleetCollector :: dashboardCollector where
  "fleetCollector = demoCollector\<lparr>dcSyncClient := None,
     dcForeignClusters := Some (ManagerStart fleetWorld [] (NewManager [azureCluster] (Some ''ca'') []))\<rparr>"

lemma fleetEntries_parse: "ParseClusterList fleetEntries = Inr [azureCluster]"
  by code_simp

lemma fleetCollector_shows:
  "case collectDashboard demoUnicode demoOrder fleetCollector [] False of
     Inl e \<Rightarrow> False
   | Inr dash \<Rightarrow> list_ex (\<lambda>grp. list_ex (\<lambda>l. lnSource l = ''foreign:https://k8s:ingress'') (dgLinks grp))
       (drGroups dash)"
  by code_simp

lemma fleetWorld_keepsTransport: "keepsTransport fleetWorld"
proof -
  have "\<exists>n. WrappedTransport tr = (WrappedTransport ^^ n) tr" for tr by (rule exI [of _ 1]) simp
  then show ?thesis by (auto simp: keepsTransport_def fleetWorld_def split: option.splits)
qed

theorem foreign_end_to_end_witness:
  "\<exists>rc t r g l0. trusts_only ''ca'' rc \<and> rootCAs t = Some ''ca'' \<and> rcHost rc = ''https://k8s'' \<and> foreign_link r g l0 \<and> lnReplicate l0"
proof -
  obtain se0 where "resolveSettings emptyViper flagDefaults = Inr se0"
    by (simp add: resolveSettings_def appendedSetting_def emptyViper_def Let_def)
  define se where "se = se0\<lparr>seFleetClusters := fleetEntries, seFleetTrustStore := ''ca'', seFleetKubeconfig := []\<rparr>"
  have pool: "LoadFleetCAPool (mwReadFile exampleMain) (mwPEM exampleMain) (seFleetTrustStore se) = Inr (Some ''ca'')"
    by (simp add: LoadFleetCAPool_def exampleMain_def se_def) code_simp
  then have start: "startFleet exampleMain se = Inr (Some (NewManager [azureCluster] (Some ''ca'') []))"
    using fleetEntries_parse by (simp add: startFleet_def bindE_def checked_def se_def exampleMain_def fleetEntries_def)
  obtain dash grp l where
    d: "collectDashboard demoUnicode demoOrder fleetCollector [] False = Inr dash"
      "grp \<in> set (drGroups dash)" "l \<in> set (dgLinks grp)" "lnSource l = ''foreign:'' @ ''https://k8s:ingress''"
    using fleetCollector_shows by (auto simp: list_ex_iff split: sum.splits)
  have "dcForeignClusters fleetCollector = Some (ManagerStart fleetWorld [] (NewManager [azureCluster] (Some ''ca'') []))"
    by (simp add: fleetCollector_def)
  moreover have "\<forall>v \<in> set (fleetWorld # []). keepsTransport v" by (simp add: fleetWorld_keepsTransport)
  ultimately obtain rc t r g l0 where "trusts_only ''ca'' rc \<and> rootCAs t = Some ''ca''"
      "rcHost rc = ccEndpoint azureCluster" "foreign_link r g l0" "lnReplicate l0"
    using foreign_end_to_end [OF start _ d] pool fleetEntries_parse by (fastforce simp: se_def)
  then show ?thesis by (auto simp: azureCluster_def)
qed

text \<open>
  C9: a change of the dashboard is announced. Let every watch be registered and discovery stay as it is. Take two
  states of the cluster between which no informer of a watched kind saw a change, no bookmark and no object that
  references are resolved to changed, and the info tiles, none of them created, deleted or edited, were
  reconciled any number of times without a call of \<open>Notify\<close>. Then every user gets the same dashboard from both, and
  so does every peer. (A tile that is deleted or edited changes the dashboard without a signal.)
\<close>

theorem dashboard_change_notified:
  assumes "dcDiscovery c = Some dc"
    and "same_lists (setupDashboardWatches (\<lambda>_. False) dc) (dcReader c) r'"
    and "rdListBookmarks (dcReader c) = rdListBookmarks r'" and "same_gets (dcReader c) r'"
    and "rdListInfoTiles (dcReader c) = Inr (map snd history)"
    and "rdListInfoTiles r' = Inr (map (\<lambda>(ws, tile). storedAfter reconcileInfoTile ws tile) history)"
    and "\<And>ws tile. (ws, tile) \<in> set history \<Longrightarrow> \<not> notified ws tile"
  shows "collectDashboard U ch (c\<lparr>dcReader := r'\<rparr>) userGroups localOnly =
    collectDashboard U ch c userGroups localOnly"
proof -
  have "fold (\<lambda>item. addTile (tileGroup item) (infoTile item))
        (map (\<lambda>(ws, tile). storedAfter reconcileInfoTile ws tile) history) s =
      fold (\<lambda>item. addTile (tileGroup item) (infoTile item)) (map snd history) s" for s
    using assms(7)
    by (induction history arbitrary: s) (auto simp: silent_infoTile)
  then have "collectInfoTiles r' = collectInfoTiles (dcReader c)"
    using assms(5,6) by (simp add: fun_eq_iff collectInfoTiles_def)
  from collectLocal_watched [OF assms(1-3) this assms(4)]
  have "collectLocal U ch' (c\<lparr>dcReader := r'\<rparr>) = collectLocal U ch' c" for ch' by simp
  then show ?thesis by (simp add: collectDashboard_def collectAll_def split: prod.split option.split)
qed

definition quietWorld :: TileWorld where
  "quietWorld = \<lparr>twControl = exampleControl, twUnicode = demoUnicode, twQuery = (\<lambda>u q. Inr u),
     twNewRequest = (\<lambda>m u. None), twDo = (\<lambda>m u b h. Inl (External ''unreachable'')),
     twUnmarshal = (\<lambda>b. Inr ANil), twParse = (\<lambda>t. None), twExecute = (\<lambda>t x. Inr (prBody x))\<rparr>"

definition quietTile :: InfoTile where
  "quietTile = demoTile\<lparr>itStatus := \<lparr>istContent = [], istLastFetchedAt = None, istLastError = ''timeout''\<rparr>\<rparr>"

theorem dashboard_change_notified_witness:
  "istLastError (itStatus (storedAfter reconcileInfoTile [quietWorld] quietTile)) = [] \<and>
   collectDashboard demoUnicode demoOrder (demoCollector\<lparr>dcReader := demoReader\<lparr>rdListInfoTiles :=
     Inr [storedAfter reconcileInfoTile [quietWorld] quietTile]\<rparr>\<rparr>) [] False =
   collectDashboard demoUnicode demoOrder (demoCollector\<lparr>dcReader := demoReader\<lparr>rdListInfoTiles :=
     Inr [quietTile]\<rparr>\<rparr>) [] False"
proof
  show "istLastError (itStatus (storedAfter reconcileInfoTile [quietWorld] quietTile)) = []"
    by code_simp
  have quiet: "\<not> notified [quietWorld] quietTile" by code_simp
  let ?c = "demoCollector\<lparr>dcReader := demoReader\<lparr>rdListInfoTiles := Inr [quietTile]\<rparr>\<rparr>"
  let ?r' = "demoReader\<lparr>rdListInfoTiles := Inr [storedAfter reconcileInfoTile [quietWorld] quietTile]\<rparr>"
  obtain dc where dc: "dcDiscovery ?c = Some dc" by (simp add: demoCollector_def)
  have "same_lists (setupDashboardWatches (\<lambda>_. False) dc) (dcReader ?c) ?r'" "same_gets (dcReader ?c) ?r'"
    by (simp_all add: same_lists_def same_gets_def)
  then have "collectDashboard demoUnicode demoOrder (?c\<lparr>dcReader := ?r'\<rparr>) [] False =
      collectDashboard demoUnicode demoOrder ?c [] False"
    using quiet
    by (intro dashboard_change_notified [OF dc, where history = "[([quietWorld], quietTile)]"]) simp_all
  then show "collectDashboard demoUnicode demoOrder (demoCollector\<lparr>dcReader := ?r'\<rparr>) [] False =
      collectDashboard demoUnicode demoOrder ?c [] False"
    by simp
qed

end
